(* ===== verification/Prelude.thy ===== *)
theory Prelude
  imports Main "HOL-Library.Word"
begin

text \<open>
  Shared vocabulary of the development: the fixed-width integers of the source
  (\<open>uint8_t\<close> .. \<open>uint64_t\<close>), the exceptions its functions throw, and the state and
  exception monad in which every stateful function is written. A computation takes an
  object state and either does not return (\<open>None\<close>) or returns the state it leaves
  together with a result or the exception thrown; an exception keeps the state changes
  made before it, as in the source. \<open>wp\<close> is total correctness for such a computation.
\<close>

type_synonym u8 = "8 word"
type_synonym u16 = "16 word"
type_synonym u32 = "32 word"
type_synonym u64 = "64 word"

type_synonym wstring = "16 word list"

named_theorems wp_rules \<open>weakest-precondition rules of the monad and of the library operations\<close>
named_theorems io_rules \<open>what each operation consumes from and appends to the logical streams\<close>
named_theorems wire_simps \<open>byte-level equations of the wire encodings\<close>

section \<open>Exceptions and the monad\<close>

text \<open>
  The \<open>errno\<close> values \<open>ClientHandler.cpp\<close> distinguishes by name; any other code is
  carried as a number.
\<close>

datatype errno =
    EACCES | ENOENT | EEXIST | ENOTDIR | EISDIR | ENOTEMPTY | Errno int

text \<open>
  The exceptions thrown by the code: \<open>EOFException\<close>, \<open>std::runtime_error\<close> with its
  message, and the two wrappers of system errors. Two more outcomes end a computation without
  being exceptions, and no handler catches them: \<open>UndefinedBehaviour\<close> marks an access outside
  an array or through a null or dangling pointer, for which the language gives no meaning, and
  \<open>ProcessAbort\<close> the end of the process by the C runtime (an invalid parameter).
\<close>

datatype exn =
    EOFException
  | RuntimeError string
  | UnixException errno
  | WinSockException int
  | UndefinedBehaviour
  | ProcessAbort

definition is_exception :: "exn \<Rightarrow> bool" where
  "is_exception e \<longleftrightarrow> e \<noteq> UndefinedBehaviour \<and> e \<noteq> ProcessAbort"

type_synonym ('s, 'a) M = "'s \<Rightarrow> ((exn + 'a) \<times> 's) option"

definition returnM :: "'a \<Rightarrow> ('s, 'a) M" where
  "returnM a = (\<lambda>s. Some (Inr a, s))"

definition throwM :: "exn \<Rightarrow> ('s, 'a) M" where
  "throwM e = (\<lambda>s. Some (Inl e, s))"

definition bindM :: "('s, 'a) M \<Rightarrow> ('a \<Rightarrow> ('s, 'b) M) \<Rightarrow> ('s, 'b) M" where
  "bindM m k = (\<lambda>s. Option.bind (m s) (\<lambda>(r, s').
     case r of Inl e \<Rightarrow> Some (Inl e, s') | Inr a \<Rightarrow> k a s'))"

definition thenM :: "('s, 'a) M \<Rightarrow> ('s, 'b) M \<Rightarrow> ('s, 'b) M" where
  "thenM m k = bindM m (\<lambda>_. k)"

text \<open>\<open>catchM m h\<close> is \<open>try { m } catch\<close>: the handler sees the exception and the state at the throw.\<close>

definition catchM :: "('s, 'a) M \<Rightarrow> (exn \<Rightarrow> ('s, 'a) M) \<Rightarrow> ('s, 'a) M" where
  "catchM m h = (\<lambda>s. Option.bind (m s) (\<lambda>(r, s').
     case r of Inl e \<Rightarrow> h e s' | Inr a \<Rightarrow> Some (Inr a, s')))"

definition getM :: "('s \<Rightarrow> 'a) \<Rightarrow> ('s, 'a) M" where
  "getM f = (\<lambda>s. Some (Inr (f s), s))"

definition modifyM :: "('s \<Rightarrow> 's) \<Rightarrow> ('s, unit) M" where
  "modifyM f = (\<lambda>s. Some (Inr (), f s))"

section \<open>Laws of the monad\<close>

lemma returnM_bindM [simp]: "bindM (returnM a) k = k a"
  by (simp add: bindM_def returnM_def)

lemma bindM_returnM [simp]: "bindM m returnM = m"
proof
  fix s
  show "bindM m returnM s = m s"
    by (cases "m s") (auto simp: bindM_def returnM_def split: sum.splits)
qed

lemma bindM_assoc: "bindM (bindM m k) h = bindM m (\<lambda>a. bindM (k a) h)"
proof
  fix s
  show "bindM (bindM m k) h s = bindM m (\<lambda>a. bindM (k a) h) s"
    by (cases "m s") (auto simp: bindM_def split: sum.splits)
qed

lemma throwM_bindM [simp]: "bindM (throwM e) k = throwM e"
  by (simp add: bindM_def throwM_def)

lemma catchM_throwM [simp]: "catchM (throwM e) h = h e"
  by (simp add: catchM_def throwM_def)

text \<open>Loops are defined as least fixed points in the option order; bind is monotone in both arguments.\<close>

lemma bindM_mono [partial_function_mono]:
  assumes "mono_option (\<lambda>f. B f s)" and "\<And>a t. mono_option (\<lambda>f. C a f t)"
  shows "mono_option (\<lambda>f. bindM (B f) (\<lambda>a. C a f) s)"
proof -
  have "mono_option (\<lambda>f. case r of Inl e \<Rightarrow> Some (Inl e, t) | Inr a \<Rightarrow> C a f t)" for r t
    by (cases r) (auto intro: option.const_mono assms(2))
  then show ?thesis
    unfolding bindM_def by (intro bind_mono assms(1)) (auto split: prod.splits)
qed

lemma if_app_mono [partial_function_mono]:
  assumes "mono_option (\<lambda>f. B f s)" and "mono_option (\<lambda>f. C f s)"
  shows "mono_option (\<lambda>f. (if c then B f else C f) s)"
  using assms by (cases c) simp_all

section \<open>Total correctness\<close>

definition wp :: "('s, 'a) M \<Rightarrow> (exn + 'a \<Rightarrow> 's \<Rightarrow> bool) \<Rightarrow> 's \<Rightarrow> bool" where
  "wp m Q s = (case m s of None \<Rightarrow> False | Some (r, s') \<Rightarrow> Q r s')"

lemma wp_iff: "wp m Q s \<longleftrightarrow> (\<exists>r s'. m s = Some (r, s') \<and> Q r s')"
  by (auto simp: wp_def split: option.splits)

lemma wpI: "m s = Some (r, s') \<Longrightarrow> Q r s' \<Longrightarrow> wp m Q s"
  by (auto simp: wp_iff)

lemma wp_mono: "wp m P s \<Longrightarrow> (\<And>r s'. P r s' \<Longrightarrow> Q r s') \<Longrightarrow> wp m Q s"
  by (auto simp: wp_iff)

lemma wp_returnM [simp]: "wp (returnM a) Q s \<longleftrightarrow> Q (Inr a) s"
  by (simp add: wp_def returnM_def)

lemma wp_throwM [simp]: "wp (throwM e) Q s \<longleftrightarrow> Q (Inl e) s"
  by (simp add: wp_def throwM_def)

lemma wp_getM [simp]: "wp (getM f) Q s \<longleftrightarrow> Q (Inr (f s)) s"
  by (simp add: wp_def getM_def)

lemma wp_modifyM [simp]: "wp (modifyM f) Q s \<longleftrightarrow> Q (Inr ()) (f s)"
  by (simp add: wp_def modifyM_def)

lemma wp_bindM [simp]:
  "wp (bindM m k) Q s \<longleftrightarrow>
     wp m (\<lambda>r s'. case r of Inl e \<Rightarrow> Q (Inl e) s' | Inr a \<Rightarrow> wp (k a) Q s') s"
  by (cases "m s") (auto simp: wp_def bindM_def split: sum.splits)

lemma wp_thenM [simp]:
  "wp (thenM m k) Q s \<longleftrightarrow>
     wp m (\<lambda>r s'. case r of Inl e \<Rightarrow> Q (Inl e) s' | Inr a \<Rightarrow> wp k Q s') s"
  by (simp add: thenM_def)

lemma wp_catchM [simp]:
  "wp (catchM m h) Q s \<longleftrightarrow>
     wp m (\<lambda>r s'. case r of Inl e \<Rightarrow> wp (h e) Q s' | Inr a \<Rightarrow> Q (Inr a) s') s"
  by (cases "m s") (auto simp: wp_def catchM_def split: sum.splits)

lemma wp_if [simp]: "wp (if b then m else n) Q s \<longleftrightarrow> (if b then wp m Q s else wp n Q s)"
  by simp

text \<open>Running a first step whose result is known.\<close>

lemma bindM_run: "m s = Some (Inr a, s') \<Longrightarrow> bindM m k s = k a s'"
  by (simp add: bindM_def)

lemma wp_bindM_run: "m s = Some (Inr a, s') \<Longrightarrow> wp (bindM m k) Q s = wp (k a) Q s'"
  by (simp add: wp_def bindM_def)

section \<open>Bytes and words\<close>

text \<open>
  The object representation of an unsigned integer on the targets of the program (x86-64
  and arm64, both little-endian): \<open>le_bytes n w\<close> are the \<open>n\<close> bytes at its address.
\<close>

unbundle bit_operations_syntax

fun le_bytes :: "nat \<Rightarrow> 'a::len word \<Rightarrow> u8 list" where
  "le_bytes 0 w = []"
| "le_bytes (Suc n) w = ucast w # le_bytes n (drop_bit 8 w)"

fun of_le_bytes :: "u8 list \<Rightarrow> 'a::len word" where
  "of_le_bytes [] = 0"
| "of_le_bytes (b # bs) = ucast b OR push_bit 8 (of_le_bytes bs)"

lemma length_le_bytes [simp]: "length (le_bytes n w) = n"
  by (induction n arbitrary: w) auto

lemma of_le_bytes_le_bytes: "of_le_bytes (le_bytes n w) = take_bit (8 * n) (w :: 'a::len word)"
proof (induction n arbitrary: w)
  case 0
  show ?case by simp
next
  case (Suc n)
  show ?case
    by (rule bit_word_eqI) (auto simp: Suc bit_simps)
qed

lemma le_bytes_cong: "take_bit (8 * n) v = take_bit (8 * n) w \<Longrightarrow> le_bytes n v = le_bytes n w"
proof (induction n arbitrary: v w)
  case 0
  show ?case by simp
next
  case (Suc n)
  have bits: "k < 8 + 8 * n \<Longrightarrow> bit v k \<longleftrightarrow> bit w k" for k
    using arg_cong [OF Suc.prems, of "\<lambda>x. bit x k"] by (simp add: bit_take_bit_iff)
  have "ucast v = (ucast w :: u8)"
    by (rule bit_word_eqI) (auto simp: bit_simps bits)
  moreover have "take_bit (8 * n) (drop_bit 8 v) = take_bit (8 * n) (drop_bit 8 w)"
    by (rule bit_word_eqI) (auto simp: bit_simps bits)
  then have "le_bytes n (drop_bit 8 v) = le_bytes n (drop_bit 8 w)" by (rule Suc.IH)
  ultimately show ?case by simp
qed

lemma le_bytes_of_le_bytes:
  "8 * length bs \<le> LENGTH('a::len) \<Longrightarrow> le_bytes (length bs) (of_le_bytes bs :: 'a word) = bs"
proof (induction bs)
  case Nil
  show ?case by simp
next
  case (Cons b bs)
  let ?w = "of_le_bytes bs :: 'a word"
  have "ucast (ucast b OR push_bit 8 ?w) = b"
    using Cons.prems by (intro bit_word_eqI) (auto simp: bit_simps)
  moreover have "take_bit (8 * length bs) (drop_bit 8 (ucast b OR push_bit 8 ?w))
      = take_bit (8 * length bs) ?w"
    using Cons.prems by (intro bit_word_eqI) (auto simp: bit_simps dest: bit_imp_le_length)
  then have "le_bytes (length bs) (drop_bit 8 (ucast b OR push_bit 8 ?w)) = le_bytes (length bs) ?w"
    by (rule le_bytes_cong)
  moreover have "le_bytes (length bs) ?w = bs"
    using Cons by simp
  ultimately show ?case by simp
qed

text \<open>Lengths below 2 GiB are the same number as an \<open>int\<close> and as a \<open>uint32_t\<close>.\<close>

lemma small_word:
  assumes "k < 2 ^ 31"
  shows "unat (word_of_nat k :: u32) = k" and "sint (word_of_nat k :: u32) = int k"
    and "uint (word_of_nat k :: u32) = int k"
proof -
  show "unat (word_of_nat k :: u32) = k" "uint (word_of_nat k :: u32) = int k"
    using assms by (simp_all add: unat_of_nat unsigned_of_nat take_bit_nat_eq_self)
  show "sint (word_of_nat k :: u32) = int k"
    using assms by (simp add: signed_of_nat signed_take_bit_int_eq_self)
qed

text \<open>A length of 2 GiB or more is a negative \<open>int\<close>.\<close>

lemma sint_large:
  assumes "2 ^ 31 \<le> uint (x :: u32)"
  shows "sint x < 0"
proof -
  have "uint x < 2 ^ 32" using uint_lt2p [of x] by simp
  moreover have "sint x = (uint x + 2 ^ 31) mod 2 ^ 32 - 2 ^ 31"
    by (simp add: sint_uint signed_take_bit_eq_take_bit_shift take_bit_eq_mod)
  moreover have "(uint x + 2 ^ 31) mod 2 ^ 32 = uint x + 2 ^ 31 - 2 ^ 32"
    using assms \<open>uint x < 2 ^ 32\<close> by (subst mod_pos_geq) auto
  ultimately show ?thesis by simp
qed

section \<open>Strings\<close>

text \<open>
  A \<open>std::string\<close> is a sequence of bytes; it is modelled as \<open>string\<close> (one \<open>char\<close> per
  byte), and these two functions relate it to the bytes in memory. \<open>c_str\<close> is what a C
  function sees of it: the bytes up to the first NUL.
\<close>

definition bytes_of_string :: "string \<Rightarrow> u8 list" where
  "bytes_of_string = map (\<lambda>c. word_of_nat (of_char c))"

definition string_of_bytes :: "u8 list \<Rightarrow> string" where
  "string_of_bytes = map (\<lambda>b. char_of (unat b))"

definition c_str :: "string \<Rightarrow> string" where
  "c_str = takeWhile (\<lambda>c. c \<noteq> CHR 0x00)"

definition ends_with :: "string \<Rightarrow> string \<Rightarrow> bool" where
  "ends_with s suffix \<longleftrightarrow> length suffix \<le> length s \<and> drop (length s - length suffix) s = suffix"

definition starts_with :: "string \<Rightarrow> string \<Rightarrow> bool" where
  "starts_with s pre \<longleftrightarrow> take (length pre) s = pre"

lemma length_bytes_of_string [simp]: "length (bytes_of_string s) = length s"
  by (simp add: bytes_of_string_def)

lemma length_string_of_bytes [simp]: "length (string_of_bytes bs) = length bs"
  by (simp add: string_of_bytes_def)

lemma string_of_bytes_of_string [simp]: "string_of_bytes (bytes_of_string s) = s"
proof -
  have "char_of (unat (word_of_nat (of_char c) :: u8)) = c" for c
    by (simp add: unat_of_nat)
  then show ?thesis
    by (simp add: bytes_of_string_def string_of_bytes_def comp_def)
qed

lemma bytes_of_string_of_bytes [simp]: "bytes_of_string (string_of_bytes bs) = bs"
proof -
  have "word_of_nat (of_char (char_of (unat b) :: char)) = b" for b :: u8
    using unsigned_less [of b, where 'a = nat] by simp
  then show ?thesis
    by (simp add: bytes_of_string_def string_of_bytes_def comp_def)
qed

lemma c_str_id [simp]: "CHR 0x00 \<notin> set s \<Longrightarrow> c_str s = s"
  by (auto simp: c_str_def takeWhile_eq_all_conv)

end
