(* ===== verification/Serialization.thy ===== *)
theory Serialization
  imports Prelude
begin

text \<open>
  \<open>nandroid_shared/serialization.{hpp,cpp}\<close>: byte order, the buffered \<open>DataReader\<close> and the
  buffered \<open>DataWriter\<close>. The interfaces \<open>Readable\<close> and \<open>Writable\<close> are the arguments
  \<open>rd\<close> and \<open>wr\<close> of the operations, and their contract is the locale \<open>stream_object\<close>:
  inside it every read of the \<open>DataReader\<close> is shown to return exactly the next bytes of the
  incoming stream, whatever the sizes in which the stream delivers them, and every write of
  the \<open>DataWriter\<close> to append exactly its bytes to the outgoing stream.
\<close>

section \<open>Byte order\<close>

text \<open>
  \<open>bswap\<close> is the library's \<open>htons\<close>, \<open>htonl\<close> (and winsock's \<open>htonll\<close>) on a
  little-endian host: the same object bytes in the opposite order.
\<close>

definition bswap :: "'a::len word \<Rightarrow> 'a word" where
  "bswap w = of_le_bytes (rev (le_bytes (LENGTH('a) div 8) w))"

definition htons :: "u16 \<Rightarrow> u16" where
  "htons = bswap"

definition ntohs :: "u16 \<Rightarrow> u16" where
  "ntohs = bswap"

definition htonl :: "u32 \<Rightarrow> u32" where
  "htonl = bswap"

definition ntohl :: "u32 \<Rightarrow> u32" where
  "ntohl = bswap"

text \<open>The source's own \<open>htonll\<close>, used where winsock is not available.\<close>

definition htonll :: "u64 \<Rightarrow> u64" where
  "htonll v = push_bit 32 (ucast (htonl (ucast v))) OR ucast (htonl (ucast (drop_bit 32 v)))"

definition ntohll :: "u64 \<Rightarrow> u64" where
  "ntohll v = htonll v"

section \<open>Objects that hold a reader and a writer\<close>

text \<open>
  \<open>DataReader\<close> and \<open>DataWriter\<close> keep their arrays and counters; \<open>int\<close> fields are
  mathematical integers (all values stay between 0 and the buffer size, see the
  invariants). Both \<open>ClientHandler\<close> and \<open>Connection\<close> are at once the stream and the owner
  of a reader and a writer on it: \<open>endpoint\<close> is that common part, which their records
  extend. \<open>socket\<close> is the state of the operating system's socket.
\<close>

record data_reader =
  rd_buffer :: "u8 list"
  rd_buffer_size :: int
  read_into_buffer :: int
  position_in_buffer :: int

record data_writer =
  wr_buffer :: "u8 list"
  wr_buffer_size :: int
  buffer_bytes_filled :: int

record 's endpoint =
  socket :: 's
  reader :: data_reader
  writer :: data_writer

text \<open>\<open>Readable::read(buffer, length)\<close>: the bytes put at \<open>buffer\<close>; none means end of file.\<close>

type_synonym 'o readable = "int \<Rightarrow> ('o, u8 list) M"

text \<open>\<open>Writable::write(buffer, length)\<close>: \<open>buffer\<close> is the memory at the pointer.\<close>

type_synonym 'o writable = "u8 list \<Rightarrow> int \<Rightarrow> ('o, unit) M"

definition DataReader :: "int \<Rightarrow> data_reader" where
  "DataReader buffer_size = \<lparr>rd_buffer = replicate (nat buffer_size) 0, rd_buffer_size = buffer_size,
     read_into_buffer = 0, position_in_buffer = 0\<rparr>"

definition DataWriter :: "int \<Rightarrow> data_writer" where
  "DataWriter buffer_size = \<lparr>wr_buffer = replicate (nat buffer_size) 0, wr_buffer_size = buffer_size,
     buffer_bytes_filled = 0\<rparr>"

section \<open>DataReader\<close>

text \<open>\<open>memcpy(dst + at, src, n)\<close> on a destination array.\<close>

definition memcpy_at :: "u8 list \<Rightarrow> nat \<Rightarrow> u8 list \<Rightarrow> u8 list" where
  "memcpy_at dst at src = take at dst @ src @ drop (at + length src) dst"

text \<open>
  The inner loop of \<open>read_exact\<close>, which reads straight into the destination. \<open>into\<close>
  holds the bytes stored so far; the result is them and the number of bytes still wanted.
\<close>

partial_function (option) read_direct ::
  "('s, 'z) endpoint_scheme readable \<Rightarrow> u8 list \<Rightarrow> int \<Rightarrow> int
     \<Rightarrow> ('s, 'z) endpoint_scheme \<Rightarrow> ((exn + (u8 list \<times> int)) \<times> ('s, 'z) endpoint_scheme) option" where
  "read_direct rd into num_bytes bytes_read s =
     (if num_bytes \<ge> rd_buffer_size (reader s) \<and> bytes_read > 0
      then bindM (rd num_bytes)
             (\<lambda>bs. read_direct rd (into @ bs) (num_bytes - int (length bs)) (int (length bs))) s
      else returnM (into, num_bytes) s)"

declare read_direct.simps [code]

definition fill_buffer :: "('s, 'z) endpoint_scheme readable \<Rightarrow> (('s, 'z) endpoint_scheme, unit) M" where
  "fill_buffer rd =
     bindM (getM (\<lambda>s. rd_buffer_size (reader s))) (\<lambda>buffer_size.
     bindM (rd buffer_size) (\<lambda>bs.
       if bs = [] then throwM EOFException
       else modifyM (\<lambda>s. s\<lparr>reader := (reader s)\<lparr>rd_buffer := memcpy_at (rd_buffer (reader s)) 0 bs,
                           read_into_buffer := int (length bs), position_in_buffer := 0\<rparr>\<rparr>)))"

partial_function (option) read_exact_loop ::
  "('s, 'z) endpoint_scheme readable \<Rightarrow> u8 list \<Rightarrow> int
     \<Rightarrow> ('s, 'z) endpoint_scheme \<Rightarrow> ((exn + u8 list) \<times> ('s, 'z) endpoint_scheme) option" where
  "read_exact_loop rd into num_bytes s =
     (if num_bytes > 0
      then (let r = reader s;
                rem_bytes_in_buffer = read_into_buffer r - position_in_buffer r;
                bytes_to_copy = min num_bytes rem_bytes_in_buffer;
                copied = take (nat bytes_to_copy) (drop (nat (position_in_buffer r)) (rd_buffer r));
                s1 = s\<lparr>reader := r\<lparr>position_in_buffer := position_in_buffer r + bytes_to_copy\<rparr>\<rparr>
            in bindM (read_direct rd (into @ copied) (num_bytes - bytes_to_copy) 1)
                 (\<lambda>(into, num_bytes).
                    if num_bytes > 0
                    then bindM (fill_buffer rd) (\<lambda>_. read_exact_loop rd into num_bytes)
                    else read_exact_loop rd into num_bytes) s1)
      else returnM into s)"

declare read_exact_loop.simps [code]

definition read_exact :: "('s, 'z) endpoint_scheme readable \<Rightarrow> int \<Rightarrow> (('s, 'z) endpoint_scheme, u8 list) M" where
  "read_exact rd num_bytes = read_exact_loop rd [] num_bytes"

definition read_byte :: "('s, 'z) endpoint_scheme readable \<Rightarrow> (('s, 'z) endpoint_scheme, u8) M" where
  "read_byte rd = bindM (read_exact rd 1) (\<lambda>bs. returnM (of_le_bytes bs))"

definition read_u16 :: "('s, 'z) endpoint_scheme readable \<Rightarrow> (('s, 'z) endpoint_scheme, u16) M" where
  "read_u16 rd = bindM (read_exact rd 2) (\<lambda>bs. returnM (ntohs (of_le_bytes bs)))"

definition read_u32 :: "('s, 'z) endpoint_scheme readable \<Rightarrow> (('s, 'z) endpoint_scheme, u32) M" where
  "read_u32 rd = bindM (read_exact rd 4) (\<lambda>bs. returnM (ntohl (of_le_bytes bs)))"

definition read_u64 :: "('s, 'z) endpoint_scheme readable \<Rightarrow> (('s, 'z) endpoint_scheme, u64) M" where
  "read_u64 rd = bindM (read_exact rd 8) (\<lambda>bs. returnM (ntohll (of_le_bytes bs)))"

definition read_utf8_string :: "('s, 'z) endpoint_scheme readable \<Rightarrow> (('s, 'z) endpoint_scheme, string) M" where
  "read_utf8_string rd =
     bindM (read_u16 rd) (\<lambda>length.
     bindM (read_exact rd (uint length)) (\<lambda>bs.
     returnM (string_of_bytes bs)))"

section \<open>DataWriter\<close>

definition flush :: "('s, 'z) endpoint_scheme writable \<Rightarrow> (('s, 'z) endpoint_scheme, unit) M" where
  "flush wr =
     bindM (getM writer) (\<lambda>w.
     bindM (wr (wr_buffer w) (buffer_bytes_filled w)) (\<lambda>_.
     modifyM (\<lambda>s. s\<lparr>writer := (writer s)\<lparr>buffer_bytes_filled := 0\<rparr>\<rparr>)))"

definition append_to_buffer :: "u8 list \<Rightarrow> ('s, 'z) endpoint_scheme \<Rightarrow> ('s, 'z) endpoint_scheme" where
  "append_to_buffer bs s =
     s\<lparr>writer := (writer s)\<lparr>wr_buffer := memcpy_at (wr_buffer (writer s))
                                           (nat (buffer_bytes_filled (writer s))) bs,
                            buffer_bytes_filled := buffer_bytes_filled (writer s) + int (length bs)\<rparr>\<rparr>"

partial_function (option) write_exact ::
  "('s, 'z) endpoint_scheme writable \<Rightarrow> u8 list \<Rightarrow> int
     \<Rightarrow> ('s, 'z) endpoint_scheme \<Rightarrow> ((exn + unit) \<times> ('s, 'z) endpoint_scheme) option" where
  "write_exact wr data data_len s =
     (if data_len > 0
      then (let rem_buffer_len = wr_buffer_size (writer s) - buffer_bytes_filled (writer s);
                len_to_write = min data_len rem_buffer_len
            in if len_to_write = wr_buffer_size (writer s)
               then wr data data_len s
               else (let s1 = append_to_buffer (take (nat len_to_write) data) s;
                         data_ptr = drop (nat len_to_write) data;
                         data_len = data_len - len_to_write
                     in if data_len > 0
                        then bindM (flush wr) (\<lambda>_. write_exact wr data_ptr data_len) s1
                        else write_exact wr data_ptr data_len s1))
      else returnM () s)"

declare write_exact.simps [code]

definition write_byte :: "('s, 'z) endpoint_scheme writable \<Rightarrow> u8 \<Rightarrow> (('s, 'z) endpoint_scheme, unit) M" where
  "write_byte wr data = write_exact wr (le_bytes 1 data) 1"

definition write_u16 :: "('s, 'z) endpoint_scheme writable \<Rightarrow> u16 \<Rightarrow> (('s, 'z) endpoint_scheme, unit) M" where
  "write_u16 wr data = write_exact wr (le_bytes 2 (htons data)) 2"

definition write_u32 :: "('s, 'z) endpoint_scheme writable \<Rightarrow> u32 \<Rightarrow> (('s, 'z) endpoint_scheme, unit) M" where
  "write_u32 wr data = write_exact wr (le_bytes 4 (htonl data)) 4"

definition write_u64 :: "('s, 'z) endpoint_scheme writable \<Rightarrow> u64 \<Rightarrow> (('s, 'z) endpoint_scheme, unit) M" where
  "write_u64 wr data = write_exact wr (le_bytes 8 (htonll data)) 8"

definition write_utf8_string :: "('s, 'z) endpoint_scheme writable \<Rightarrow> string \<Rightarrow> (('s, 'z) endpoint_scheme, unit) M" where
  "write_utf8_string wr data =
     (if length data > 65535
      then throwM (RuntimeError ''String too long to write to stream. Was path length properly limited?'')
      else thenM (write_u16 wr (word_of_nat (length data)))
                 (write_exact wr (bytes_of_string data) (int (length data))))"

section \<open>The wire form of integers and strings\<close>

text \<open>Network byte order: most significant byte first.\<close>

definition be_bytes :: "nat \<Rightarrow> 'a::len word \<Rightarrow> u8 list" where
  "be_bytes n w = rev (le_bytes n w)"

definition utf8_bytes :: "string \<Rightarrow> u8 list" where
  "utf8_bytes s = be_bytes 2 (word_of_nat (length s) :: u16) @ bytes_of_string s"

lemma length_be_bytes [simp]: "length (be_bytes n w) = n"
  by (simp add: be_bytes_def)

lemma le_bytes_bswap:
  assumes "LENGTH('a::len) = 8 * n"
  shows "le_bytes n (bswap (w :: 'a word)) = be_bytes n w"
proof -
  have "le_bytes (length (rev (le_bytes n w))) (of_le_bytes (rev (le_bytes n w)) :: 'a word)
      = rev (le_bytes n w)"
    by (rule le_bytes_of_le_bytes) (simp add: assms)
  then show ?thesis by (simp add: bswap_def be_bytes_def assms)
qed

lemma le_bytes_inj:
  assumes "LENGTH('a::len) = 8 * n" and "le_bytes n v = le_bytes n (w :: 'a word)"
  shows "v = w"
proof -
  have "of_le_bytes (le_bytes n v) = (of_le_bytes (le_bytes n w) :: 'a word)"
    by (simp only: assms(2))
  then show ?thesis using assms(1)
    by (simp add: of_le_bytes_le_bytes take_bit_word_eq_self)
qed

lemma bswap_bswap:
  assumes "LENGTH('a::len) = 8 * n"
  shows "bswap (bswap (w :: 'a word)) = w"
proof -
  have "bswap (bswap w) = of_le_bytes (rev (le_bytes n (bswap w)))"
    by (simp add: bswap_def [of "bswap w"] assms)
  also have "\<dots> = of_le_bytes (le_bytes n w)"
    by (simp add: le_bytes_bswap [OF assms] be_bytes_def)
  finally show ?thesis
    by (simp add: of_le_bytes_le_bytes take_bit_word_eq_self assms)
qed

lemma bswap_of_le_be:
  assumes "LENGTH('a::len) = 8 * n"
  shows "bswap (of_le_bytes (be_bytes n (w :: 'a word))) = w"
proof -
  have "of_le_bytes (be_bytes n w) = bswap w"
    by (simp add: bswap_def be_bytes_def assms)
  then show ?thesis by (simp add: bswap_bswap [OF assms])
qed

lemma le_bytes_add: "le_bytes (m + n) w = le_bytes m w @ le_bytes n (drop_bit (8 * m) w)"
  by (induction m arbitrary: w) (auto simp: add.commute)

lemma le_bytes_ucast:
  assumes "8 * n \<le> LENGTH('b::len)" and "8 * n \<le> LENGTH('a::len)"
  shows "le_bytes n (ucast w :: 'b word) = le_bytes n (w :: 'a word)"
  using assms
proof (induction n arbitrary: w)
  case 0
  show ?case by simp
next
  case (Suc n)
  have "ucast (ucast w :: 'b word) = (ucast w :: u8)"
    using Suc.prems by (intro bit_word_eqI) (auto simp: bit_simps)
  moreover have "take_bit (8 * n) (drop_bit 8 (ucast w :: 'b word))
      = take_bit (8 * n) (ucast (drop_bit 8 w) :: 'b word)"
    using Suc.prems by (intro bit_word_eqI) (auto simp: bit_simps dest: bit_imp_le_length)
  then have "le_bytes n (drop_bit 8 (ucast w :: 'b word)) = le_bytes n (ucast (drop_bit 8 w) :: 'b word)"
    by (rule le_bytes_cong)
  moreover have "\<dots> = le_bytes n (drop_bit 8 w)"
    using Suc by simp
  ultimately show ?case by simp
qed

lemma le_bytes_u64: "le_bytes 8 (w :: u64) = le_bytes 4 (ucast w :: u32) @ le_bytes 4 (ucast (drop_bit 32 w) :: u32)"
  using le_bytes_add [of 4 4 w] by (simp add: le_bytes_ucast)

lemma le_bytes_htonll: "le_bytes 8 (htonll v) = be_bytes 8 v"
proof -
  have lo: "ucast (htonll v) = htonl (ucast (drop_bit 32 v))"
    by (rule bit_word_eqI) (auto simp: htonll_def bit_simps)
  have hi: "ucast (drop_bit 32 (htonll v)) = htonl (ucast v)"
    by (rule bit_word_eqI) (auto simp: htonll_def bit_simps dest: bit_imp_le_length)
  show ?thesis
    unfolding be_bytes_def le_bytes_u64 lo hi
    by (simp add: htonl_def le_bytes_bswap be_bytes_def)
qed

lemma htonll_bswap: "htonll v = bswap v"
  by (rule le_bytes_inj [where n = 8]) (simp_all add: le_bytes_htonll le_bytes_bswap)

lemmas wire_out [wire_simps] =
  le_bytes_bswap [where 'a = 16 and n = 2, simplified]
  le_bytes_bswap [where 'a = 32 and n = 4, simplified]
  le_bytes_htonll

lemma wire_in [wire_simps]:
  "of_le_bytes (be_bytes 1 (w8 :: u8)) = w8"
  "ntohs (of_le_bytes (be_bytes 2 w16)) = w16"
  "ntohl (of_le_bytes (be_bytes 4 w32)) = w32"
  "ntohll (of_le_bytes (be_bytes 8 w64)) = w64"
  by (simp_all add: ntohs_def ntohl_def ntohll_def htonll_bswap bswap_of_le_be)
     (simp add: be_bytes_def)

section \<open>The contract of the stream interfaces\<close>

text \<open>
  What an observer sees of a socket: the bytes it will still deliver, the bytes handed to
  it, and whether it is usable.
\<close>

record 's sock_view =
  incoming :: "'s \<Rightarrow> u8 list"
  outgoing :: "'s \<Rightarrow> u8 list"
  usable :: "'s \<Rightarrow> bool"

definition pending :: "data_reader \<Rightarrow> u8 list" where
  "pending r = take (nat (read_into_buffer r - position_in_buffer r))
                 (drop (nat (position_in_buffer r)) (rd_buffer r))"

definition reader_inv :: "data_reader \<Rightarrow> bool" where
  "reader_inv r \<longleftrightarrow> 0 < rd_buffer_size r \<and> int (length (rd_buffer r)) = rd_buffer_size r
     \<and> 0 \<le> position_in_buffer r \<and> position_in_buffer r \<le> read_into_buffer r
     \<and> read_into_buffer r \<le> rd_buffer_size r"

definition buffered :: "data_writer \<Rightarrow> u8 list" where
  "buffered w = take (nat (buffer_bytes_filled w)) (wr_buffer w)"

definition writer_inv :: "data_writer \<Rightarrow> bool" where
  "writer_inv w \<longleftrightarrow> 0 < wr_buffer_size w \<and> int (length (wr_buffer w)) = wr_buffer_size w
     \<and> 0 \<le> buffer_bytes_filled w \<and> buffer_bytes_filled w \<le> wr_buffer_size w"

text \<open>
  The logical input of an endpoint (what its reader holds, then what the socket will
  deliver) and its logical output (what the socket got, then what the writer holds).
\<close>

definition in_of :: "'s sock_view \<Rightarrow> ('s, 'z) endpoint_scheme \<Rightarrow> u8 list" where
  "in_of V s = pending (reader s) @ incoming V (socket s)"

definition out_of :: "'s sock_view \<Rightarrow> ('s, 'z) endpoint_scheme \<Rightarrow> u8 list" where
  "out_of V s = outgoing V (socket s) @ buffered (writer s)"

definition ep_ok :: "'s sock_view \<Rightarrow> ('s, 'z) endpoint_scheme \<Rightarrow> bool" where
  "ep_ok V s \<longleftrightarrow> usable V (socket s) \<and> reader_inv (reader s) \<and> writer_inv (writer s)"

text \<open>Only the socket, the reader and the writer may differ.\<close>

definition ep_frame :: "('s, 'z) endpoint_scheme \<Rightarrow> ('s, 'z) endpoint_scheme \<Rightarrow> bool" where
  "ep_frame s s' \<longleftrightarrow> s' = s\<lparr>socket := socket s', reader := reader s', writer := writer s'\<rparr>"

definition io_step :: "'s sock_view \<Rightarrow> u8 list \<Rightarrow> u8 list
    \<Rightarrow> ('s, 'z) endpoint_scheme \<Rightarrow> ('s, 'z) endpoint_scheme \<Rightarrow> bool" where
  "io_step V i out s s' \<longleftrightarrow> ep_ok V s' \<and> ep_frame s s' \<and> in_of V s' = i \<and> out_of V s' = out"

lemma ep_frame_refl [simp]: "ep_frame s s"
  by (simp add: ep_frame_def)

lemma ep_frame_trans: "ep_frame s t \<Longrightarrow> ep_frame t u \<Longrightarrow> ep_frame s u"
  unfolding ep_frame_def by (cases s, cases t, cases u) simp

lemma ep_frame_upd [simp]:
  "ep_frame s (s\<lparr>socket := t\<rparr>)" "ep_frame s (s\<lparr>reader := r\<rparr>)" "ep_frame s (s\<lparr>writer := w\<rparr>)"
  by (cases s, simp add: ep_frame_def)+

lemma io_step_trans: "io_step V i out s t \<Longrightarrow> io_step V i' out' t u \<Longrightarrow> io_step V i' out' s u"
  by (auto simp: io_step_def intro: ep_frame_trans)

lemma io_stepD:
  assumes "io_step V i out s s'"
  shows "ep_ok V s'" "ep_frame s s'" "in_of V s' = i" "out_of V s' = out"
  using assms by (simp_all add: io_step_def)

lemma ep_frame_more: "ep_frame s s' \<Longrightarrow> endpoint.more s' = endpoint.more s"
  by (cases s, cases s') (simp add: ep_frame_def)

lemma reader_inv_DataReader: "0 < n \<Longrightarrow> reader_inv (DataReader n)"
  by (simp add: reader_inv_def DataReader_def)

lemma writer_inv_DataWriter: "0 < n \<Longrightarrow> writer_inv (DataWriter n)"
  by (simp add: writer_inv_def DataWriter_def)

lemma pending_DataReader [simp]: "pending (DataReader n) = []"
  by (simp add: pending_def DataReader_def)

lemma buffered_DataWriter [simp]: "buffered (DataWriter n) = []"
  by (simp add: buffered_def DataWriter_def)

lemma length_pending: "reader_inv r \<Longrightarrow> int (length (pending r)) = read_into_buffer r - position_in_buffer r"
  by (auto simp: reader_inv_def pending_def)

text \<open>Consuming \<open>k\<close> bytes of the buffer, and refilling it.\<close>

lemma pending_advance:
  assumes "reader_inv r" and "0 \<le> k" and "k \<le> read_into_buffer r - position_in_buffer r"
  shows "reader_inv (r\<lparr>position_in_buffer := position_in_buffer r + k\<rparr>)"
    and "pending (r\<lparr>position_in_buffer := position_in_buffer r + k\<rparr>) = drop (nat k) (pending r)"
    and "take (nat k) (drop (nat (position_in_buffer r)) (rd_buffer r)) = take (nat k) (pending r)"
  using assms by (auto simp: reader_inv_def pending_def nat_add_distrib drop_take add.commute
      min_absorb1 algebra_simps nat_diff_distrib)

lemma pending_refill:
  assumes "reader_inv r" and "int (length bs) \<le> rd_buffer_size r" and "bs \<noteq> []"
  defines "r' \<equiv> r\<lparr>rd_buffer := memcpy_at (rd_buffer r) 0 bs, read_into_buffer := int (length bs),
                  position_in_buffer := 0\<rparr>"
  shows "reader_inv r'" and "pending r' = bs"
  using assms(1-3) by (auto simp: reader_inv_def pending_def memcpy_at_def r'_def)

lemma buffered_append:
  assumes "writer_inv w" and "buffer_bytes_filled w + int (length bs) \<le> wr_buffer_size w"
  defines "w' \<equiv> w\<lparr>wr_buffer := memcpy_at (wr_buffer w) (nat (buffer_bytes_filled w)) bs,
                  buffer_bytes_filled := buffer_bytes_filled w + int (length bs)\<rparr>"
  shows "writer_inv w'" and "buffered w' = buffered w @ bs"
  using assms(1,2) by (auto simp: writer_inv_def buffered_def memcpy_at_def w'_def nat_add_distrib)

text \<open>
  \<open>transacts V inp out m a\<close>: on any input that starts with \<open>inp\<close>, the computation \<open>m\<close>
  consumes exactly \<open>inp\<close>, appends exactly \<open>out\<close> to the output, touches nothing else of the
  object and returns \<open>a\<close>. Transactions compose along \<open>bindM\<close>.
\<close>

definition transacts :: "'s sock_view \<Rightarrow> u8 list \<Rightarrow> u8 list \<Rightarrow> (('s, 'z) endpoint_scheme, 'a) M \<Rightarrow> 'a \<Rightarrow> bool" where
  "transacts V inp out m a \<longleftrightarrow> (\<forall>s rest. ep_ok V s \<longrightarrow> in_of V s = inp @ rest \<longrightarrow>
     wp m (\<lambda>r s'. r = Inr a \<and> io_step V rest (out_of V s @ out) s s') s)"

lemma transactsI:
  assumes "\<And>s rest. ep_ok V s \<Longrightarrow> in_of V s = inp @ rest \<Longrightarrow>
     wp m (\<lambda>r s'. r = Inr a \<and> io_step V rest (out_of V s @ out) s s') s"
  shows "transacts V inp out m a"
  using assms by (auto simp: transacts_def)

lemma wp_transacts:
  assumes "transacts V inp out m a" and "ep_ok V s" and "in_of V s = inp @ rest"
    and "\<And>s'. io_step V rest (out_of V s @ out) s s' \<Longrightarrow> Q (Inr a) s'"
  shows "wp m Q s"
proof (rule wp_mono)
  show "wp m (\<lambda>r s'. r = Inr a \<and> io_step V rest (out_of V s @ out) s s') s"
    using assms(1-3) by (auto simp: transacts_def)
qed (use assms(4) in auto)

text \<open>Running one computation after others: the state before all of them stays the reference.\<close>

lemma io_step_refl: "ep_ok V s \<Longrightarrow> io_step V (in_of V s) (out_of V s) s s"
  by (simp add: io_step_def)

lemma transacts_run:
  assumes "transacts V inp out m a" and "io_step V (inp @ rest) done_out s0 s"
  obtains s1 where "m s = Some (Inr a, s1)" and "io_step V rest (done_out @ out) s0 s1"
proof -
  note s = io_stepD [OF assms(2)]
  have "wp m (\<lambda>r s'. r = Inr a \<and> io_step V rest (out_of V s @ out) s s') s"
    by (rule wp_transacts [OF assms(1) s(1,3)]) simp
  with that io_step_trans [OF assms(2)] show thesis by (auto simp: wp_iff s(4))
qed

lemma transacts_returnM [io_rules]: "transacts V [] [] (returnM a) a"
  by (auto intro!: transactsI simp: io_step_def)

lemma transacts_bindM:
  fixes m :: "(('s, 'z) endpoint_scheme, 'a) M"
  assumes m: "transacts V i out m a" and k: "transacts V i' out' (k a) b"
  shows "transacts V (i @ i') (out @ out') (bindM m k) b"
proof (rule transactsI)
  fix s :: "('s, 'z) endpoint_scheme" and rest
  assume s: "ep_ok V s" "in_of V s = (i @ i') @ rest"
  then have "in_of V s = i @ (i' @ rest)" by simp
  with s m show "wp (bindM m k) (\<lambda>r s'. r = Inr b \<and> io_step V rest (out_of V s @ out @ out') s s') s"
    unfolding wp_bindM
  proof (elim wp_transacts)
    fix s1
    assume s1: "io_step V (i' @ rest) (out_of V s @ out) s s1"
    show "case Inr a of Inl e \<Rightarrow> Inl e = Inr b \<and> io_step V rest (out_of V s @ out @ out') s s1
        | Inr a \<Rightarrow> wp (k a) (\<lambda>r s'. r = Inr b \<and> io_step V rest (out_of V s @ out @ out') s s') s1"
      using wp_transacts [OF k io_stepD(1,3) [OF s1]] io_step_trans [OF s1]
      by (simp add: io_stepD [OF s1])
  qed
qed

lemma transacts_thenM:
  "transacts V i out m a \<Longrightarrow> transacts V i' out' k b \<Longrightarrow> transacts V (i @ i') (out @ out') (thenM m k) b"
  unfolding thenM_def by (rule transacts_bindM)

text \<open>The forms used for a sequence of reads and for a sequence of writes.\<close>

lemma transacts_read:
  "transacts V i [] m a \<Longrightarrow> transacts V i' [] (k a) b \<Longrightarrow> transacts V (i @ i') [] (bindM m k) b"
  using transacts_bindM [of V i "[]" m a i' "[]" k b] by simp

lemma transacts_write:
  "transacts V [] out m a \<Longrightarrow> transacts V [] out' k b \<Longrightarrow> transacts V [] (out @ out') (thenM m k) b"
  using transacts_thenM [of V "[]" out m a "[]" out' k b] by simp

text \<open>
  \<open>Readable::read\<close> returns between 1 and \<open>length\<close> bytes, or none at end of file;
  \<open>Writable::write\<close> always writes the complete length given.
\<close>

definition delivers :: "'s sock_view \<Rightarrow> int \<Rightarrow> ('s, 'z) endpoint_scheme \<Rightarrow> exn + u8 list
    \<Rightarrow> ('s, 'z) endpoint_scheme \<Rightarrow> bool" where
  "delivers V n s r s' \<longleftrightarrow> (\<exists>bs t. r = Inr bs \<and> s' = s\<lparr>socket := t\<rparr> \<and> usable V t
     \<and> incoming V (socket s) = bs @ incoming V t \<and> outgoing V t = outgoing V (socket s)
     \<and> int (length bs) \<le> n \<and> (bs = [] \<longrightarrow> incoming V (socket s) = []))"

definition accepts :: "'s sock_view \<Rightarrow> u8 list \<Rightarrow> ('s, 'z) endpoint_scheme \<Rightarrow> exn + unit
    \<Rightarrow> ('s, 'z) endpoint_scheme \<Rightarrow> bool" where
  "accepts V bs s r s' \<longleftrightarrow> (\<exists>t. r = Inr () \<and> s' = s\<lparr>socket := t\<rparr> \<and> usable V t
     \<and> outgoing V t = outgoing V (socket s) @ bs \<and> incoming V t = incoming V (socket s))"

locale stream_object =
  fixes rd :: "('s, 'z) endpoint_scheme readable"
    and wr :: "('s, 'z) endpoint_scheme writable"
    and V :: "'s sock_view"
  assumes read_law: "usable V (socket s) \<Longrightarrow> 0 < n \<Longrightarrow> wp (rd n) (delivers V n s) s"
    and write_law: "usable V (socket s) \<Longrightarrow> 0 \<le> n \<Longrightarrow> n \<le> int (length bs)
      \<Longrightarrow> wp (wr bs n) (accepts V (take (nat n) bs) s) s"
begin

subsection \<open>Reading\<close>

lemma read_obtain:
  assumes "usable V (socket s)" and "0 < n"
  obtains bs t where "rd n s = Some (Inr bs, s\<lparr>socket := t\<rparr>)" and "usable V t"
    and "incoming V (socket s) = bs @ incoming V t" and "outgoing V t = outgoing V (socket s)"
    and "int (length bs) \<le> n" and "bs = [] \<longrightarrow> incoming V (socket s) = []"
  using read_law [OF assms] by (auto simp: wp_iff delivers_def)

text \<open>
  The direct-read loop stops with fewer bytes wanted than the buffer holds, or at end of
  file; what it stored is exactly what the stream delivered.
\<close>

definition direct_post where
  "direct_post into n s r s' \<longleftrightarrow> (\<exists>bs t. r = Inr (into @ bs, n - int (length bs)) \<and> s' = s\<lparr>socket := t\<rparr> \<and> usable V t
     \<and> incoming V (socket s) = bs @ incoming V t \<and> outgoing V t = outgoing V (socket s) \<and> int (length bs) \<le> n)"

lemma direct_post_stop: "usable V (socket s) \<Longrightarrow> 0 \<le> n \<Longrightarrow> direct_post into n s (Inr (into, n)) s"
  by (auto simp: direct_post_def intro!: exI [of _ "socket s"])

lemma direct_post_step:
  assumes "incoming V (socket s) = bs @ incoming V t" and "outgoing V t = outgoing V (socket s)"
    and "direct_post (into @ bs) (n - int (length bs)) (s\<lparr>socket := t\<rparr>) r s'"
  shows "direct_post into n s r s'"
  using assms by (auto simp: direct_post_def)

lemma read_direct_spec:
  assumes "usable V (socket s)" and "0 < rd_buffer_size (reader s)" and "0 \<le> n" and "0 < k"
  shows "wp (read_direct rd into n k) (direct_post into n s) s"
  using assms
proof (induction "nat n" arbitrary: s n k into rule: less_induct)
  case less
  show ?case
  proof (cases "n \<ge> rd_buffer_size (reader s)")
    case False
    with less.prems show ?thesis
      by (simp add: wp_def read_direct.simps [of rd into n] returnM_def direct_post_stop)
  next
    case True
    with less.prems have "0 < n" by simp
    with less.prems(1) obtain bs t where rd: "rd n s = Some (Inr bs, s\<lparr>socket := t\<rparr>)" and t: "usable V t"
      and io: "incoming V (socket s) = bs @ incoming V t" "outgoing V t = outgoing V (socket s)"
      and len: "int (length bs) \<le> n" by (rule read_obtain)
    let ?rest = "read_direct rd (into @ bs) (n - int (length bs)) (int (length bs))"
    have "wp ?rest (direct_post (into @ bs) (n - int (length bs)) (s\<lparr>socket := t\<rparr>)) (s\<lparr>socket := t\<rparr>)"
    proof (cases "bs = []")
      case True
      with t less.prems show ?thesis
        by (simp add: wp_def read_direct.simps [of rd into n 0] returnM_def direct_post_stop)
    next
      case False
      with less.prems len t \<open>0 < n\<close> show ?thesis by (intro less.hyps) auto
    qed
    from wp_mono [OF this direct_post_step [OF io]] have "wp ?rest (direct_post into n s) (s\<lparr>socket := t\<rparr>)" .
    with True less.prems rd show ?thesis
      by (simp add: wp_def read_direct.simps [of rd into n] bindM_def)
  qed
qed

lemma fill_buffer_spec:
  assumes "ep_ok V s" and "pending (reader s) = []"
  shows "wp (fill_buffer rd)
     (\<lambda>r s'. io_step V (in_of V s) (out_of V s) s s' \<and> writer s' = writer s
        \<and> (if incoming V (socket s) = [] then r = Inl EOFException else r = Inr () \<and> pending (reader s') \<noteq> [])) s"
proof -
  let ?n = "rd_buffer_size (reader s)"
  from assms have "usable V (socket s)" and inv: "reader_inv (reader s)" "writer_inv (writer s)" and "0 < ?n"
    by (auto simp: ep_ok_def reader_inv_def)
  then obtain bs t where rd: "rd ?n s = Some (Inr bs, s\<lparr>socket := t\<rparr>)" and t: "usable V t"
    and inc: "incoming V (socket s) = bs @ incoming V t"
    and out: "outgoing V t = outgoing V (socket s)" and len: "int (length bs) \<le> ?n"
    and eof: "bs = [] \<longrightarrow> incoming V (socket s) = []"
    using read_obtain by metis
  show ?thesis
  proof (cases "bs = []")
    case True
    with rd have "fill_buffer rd s = Some (Inl EOFException, s\<lparr>socket := t\<rparr>)"
      by (simp add: fill_buffer_def bindM_def getM_def throwM_def)
    with True eof t inv inc out assms(2) show ?thesis
      by (auto simp: wp_iff io_step_def ep_ok_def in_of_def out_of_def)
  next
    case False
    define r' where "r' = (reader s)\<lparr>rd_buffer := memcpy_at (rd_buffer (reader s)) 0 bs,
       read_into_buffer := int (length bs), position_in_buffer := 0\<rparr>"
    from False rd have "fill_buffer rd s = Some (Inr (), s\<lparr>socket := t, reader := r'\<rparr>)"
      by (simp add: fill_buffer_def bindM_def getM_def modifyM_def r'_def)
    moreover have "reader_inv r'" "pending r' = bs"
      using pending_refill [OF inv(1) len False] by (simp_all add: r'_def)
    moreover have "ep_frame s (s\<lparr>socket := t, reader := r'\<rparr>)"
      by (rule ep_frame_trans [of _ "s\<lparr>socket := t\<rparr>"]) simp_all
    ultimately show ?thesis
      using False assms(2) inc out t inv
      by (auto simp: wp_iff io_step_def ep_ok_def in_of_def out_of_def)
  qed
qed

text \<open>
  \<open>read_exact\<close> returns the next \<open>n\<close> bytes of the logical input, or throws
  \<open>EOFException\<close> when there are fewer, for every way the stream splits them.
\<close>

definition exact_post where
  "exact_post into n s r s' \<longleftrightarrow>
     io_step V (drop (nat n) (in_of V s)) (out_of V s) s s' \<and> writer s' = writer s
     \<and> r = (if nat n \<le> length (in_of V s) then Inr (into @ take (nat n) (in_of V s)) else Inl EOFException)"

lemma exact_post_step:
  assumes "io_step V (drop (nat m) (in_of V s)) (out_of V s) s u" and "writer u = writer s"
    and "exact_post (into @ take (nat m) (in_of V s)) (n - m) u r s'"
    and "0 \<le> m" and "m \<le> n" and "nat m \<le> length (in_of V s)"
  shows "exact_post into n s r s'"
proof -
  note u = io_stepD [OF assms(1)]
  have m: "nat n = nat m + nat (n - m)"
    using assms(4,5) by simp
  from assms(3) have r: "r = (if nat (n - m) \<le> length (in_of V u)
        then Inr ((into @ take (nat m) (in_of V s)) @ take (nat (n - m)) (in_of V u)) else Inl EOFException)"
    and s': "io_step V (drop (nat (n - m)) (in_of V u)) (out_of V u) u s'" and w: "writer s' = writer u"
    by (simp_all add: exact_post_def)
  have "nat (n - m) \<le> length (in_of V u) \<longleftrightarrow> nat n \<le> length (in_of V s)"
    using m assms(6) by (auto simp: u)
  moreover have "(into @ take (nat m) (in_of V s)) @ take (nat (n - m)) (in_of V u) = into @ take (nat n) (in_of V s)"
    by (simp add: u m take_add)
  moreover have "io_step V (drop (nat n) (in_of V s)) (out_of V s) s s'"
    using io_step_trans [OF assms(1) s'] by (simp add: u m add.commute)
  ultimately show ?thesis using r w assms(2) by (simp add: exact_post_def)
qed

text \<open>
  One round of the loop copies what the buffer has and reads directly what is left, and refills the
  buffer only when it is used up.
\<close>

lemma copy_from_buffer:
  assumes "ep_ok V s" and "0 < n"
    and k: "k = min n (read_into_buffer (reader s) - position_in_buffer (reader s))"
    and s1: "s1 = s\<lparr>reader := (reader s)\<lparr>position_in_buffer := position_in_buffer (reader s) + k\<rparr>\<rparr>"
  shows "io_step V (drop (nat k) (in_of V s)) (out_of V s) s s1"
    and "take (nat k) (drop (nat (position_in_buffer (reader s))) (rd_buffer (reader s))) = take (nat k) (in_of V s)"
    and "0 \<le> k" and "nat k \<le> length (in_of V s)"
    and "k < n \<Longrightarrow> pending (reader s1) = []" and "k = 0 \<Longrightarrow> pending (reader s) = []"
proof -
  let ?p = "pending (reader s)"
  from assms(1) have inv: "reader_inv (reader s)" by (simp add: ep_ok_def)
  from length_pending [OF inv] have kp: "k = min n (int (length ?p))" by (simp add: k)
  then have k0: "0 \<le> k" "nat k \<le> length ?p" using assms(2) by auto
  from k have "k \<le> read_into_buffer (reader s) - position_in_buffer (reader s)" by simp
  note adv = pending_advance [OF inv k0(1) this]
  from adv have p1: "pending (reader s1) = drop (nat k) ?p" by (simp add: s1)
  show "io_step V (drop (nat k) (in_of V s)) (out_of V s) s s1"
    using assms(1) adv k0 by (auto simp: io_step_def ep_ok_def in_of_def out_of_def s1)
  show "take (nat k) (drop (nat (position_in_buffer (reader s))) (rd_buffer (reader s))) = take (nat k) (in_of V s)"
    using adv k0 by (simp add: in_of_def)
  show "0 \<le> k" "nat k \<le> length (in_of V s)" using k0 by (simp_all add: in_of_def)
  show "k < n \<Longrightarrow> pending (reader s1) = []" "k = 0 \<Longrightarrow> ?p = []"
    using kp assms(2) by (auto simp: p1 min_def split: if_splits)
qed

lemma direct_post_io:
  assumes "direct_post into n s r u" and "ep_ok V s" and "0 < n \<Longrightarrow> pending (reader s) = []"
  obtains m where "r = Inr (into @ take (nat m) (in_of V s), n - m)"
    and "io_step V (drop (nat m) (in_of V s)) (out_of V s) s u" and "writer u = writer s" and "reader u = reader s"
    and "0 \<le> m" and "m \<le> n" and "nat m \<le> length (in_of V s)"
proof -
  from assms(1) obtain bs t where r: "r = Inr (into @ bs, n - int (length bs))" and u: "u = s\<lparr>socket := t\<rparr>" "usable V t"
    and io: "incoming V (socket s) = bs @ incoming V t" "outgoing V t = outgoing V (socket s)" and len: "int (length bs) \<le> n"
    by (auto simp: direct_post_def)
  have none: "bs = [] \<or> pending (reader s) = []" using assms(3) len by (cases bs) auto
  have ins: "in_of V s = pending (reader s) @ bs @ incoming V t" by (simp add: in_of_def io(1))
  have bs: "bs = take (length bs) (in_of V s)" "length bs \<le> length (in_of V s)"
      "pending (reader s) @ incoming V t = drop (length bs) (in_of V s)"
    using none by (auto simp: ins)
  show thesis
  proof (rule that [of "int (length bs)"])
    show "io_step V (drop (nat (int (length bs))) (in_of V s)) (out_of V s) s u"
      using assms(2) u io(2) by (simp add: io_step_def ep_ok_def bs(3) [symmetric]) (simp add: in_of_def out_of_def)
  qed (use r u len bs in auto)
qed

lemma read_round:
  assumes "ep_ok V s" and "0 < n"
  obtains m u where "read_exact_loop rd into n s
      = (if m < n then bindM (fill_buffer rd) (\<lambda>_. read_exact_loop rd (into @ take (nat m) (in_of V s)) (n - m))
         else read_exact_loop rd (into @ take (nat m) (in_of V s)) (n - m)) u"
    and "io_step V (drop (nat m) (in_of V s)) (out_of V s) s u" and "writer u = writer s"
    and "0 \<le> m" and "m \<le> n" and "nat m \<le> length (in_of V s)"
    and "m < n \<Longrightarrow> pending (reader u) = []" and "m = 0 \<Longrightarrow> pending (reader s) = []"
proof -
  define k where "k = min n (read_into_buffer (reader s) - position_in_buffer (reader s))"
  define s1 where "s1 = s\<lparr>reader := (reader s)\<lparr>position_in_buffer := position_in_buffer (reader s) + k\<rparr>\<rparr>"
  note copy = copy_from_buffer [OF assms k_def s1_def] and s1 = io_stepD [OF copy(1)]
  let ?into = "into @ take (nat k) (in_of V s)"
  have kn: "k \<le> n" by (simp add: k_def)
  have "wp (read_direct rd ?into (n - k) 1) (direct_post ?into (n - k) s1) s1"
    using s1(1) kn by (intro read_direct_spec) (auto simp: ep_ok_def reader_inv_def)
  then obtain r u where run: "read_direct rd ?into (n - k) 1 s1 = Some (r, u)" and post: "direct_post ?into (n - k) s1 r u"
    by (auto simp: wp_iff)
  from copy(5) have "0 < n - k \<Longrightarrow> pending (reader s1) = []" by simp
  from direct_post_io [OF post s1(1) this] obtain m where m: "r = Inr (?into @ take (nat m) (in_of V s1), n - k - m)"
    and u: "io_step V (drop (nat m) (in_of V s1)) (out_of V s1) s1 u" "writer u = writer s1" "reader u = reader s1"
    and le: "0 \<le> m" "m \<le> n - k" "nat m \<le> length (in_of V s1)" by blast
  have km: "nat (k + m) = nat k + nat m" using copy(3) le by (simp add: nat_add_distrib)
  have r: "r = Inr (into @ take (nat (k + m)) (in_of V s), n - (k + m))"
    using m by (simp add: s1 km take_add diff_diff_eq)
  show thesis
  proof (rule that [of "k + m" u])
    show "read_exact_loop rd into n s = (if k + m < n
        then bindM (fill_buffer rd) (\<lambda>_. read_exact_loop rd (into @ take (nat (k + m)) (in_of V s)) (n - (k + m)))
        else read_exact_loop rd (into @ take (nat (k + m)) (in_of V s)) (n - (k + m))) u"
      using assms(2) run copy(2)
      by (simp add: read_exact_loop.simps [of rd into n] Let_def bindM_def k_def [symmetric] s1_def [symmetric] r)
    show "io_step V (drop (nat (k + m)) (in_of V s)) (out_of V s) s u"
      using io_step_trans [OF copy(1) u(1)] by (simp add: s1 km add.commute)
    show "nat (k + m) \<le> length (in_of V s)" using le copy(4) by (simp add: s1 km)
    show "k + m = 0 \<Longrightarrow> pending (reader s) = []" using copy(3,6) le by simp
    show "k + m < n \<Longrightarrow> pending (reader u) = []" using copy(5) le u(3) by simp
    show "writer u = writer s" using u(2) by (simp add: s1_def)
  qed (use le copy(3) in auto)
qed

lemma exact_post_eof:
  assumes "io_step V (drop (nat m) (in_of V s)) (out_of V s) s u" and "in_of V u = []" and "writer u = writer s"
    and "nat m \<le> length (in_of V s)" and "0 \<le> m" and "m < n"
  shows "exact_post into n s (Inl EOFException) u"
proof -
  from io_stepD(3) [OF assms(1)] assms(2,4) have "length (in_of V s) = nat m" by simp
  with assms show ?thesis by (simp add: exact_post_def)
qed

text \<open>With an empty buffer \<open>fill_buffer\<close> either finds the end of the stream or gives the rest something to read.\<close>

lemma wp_fill_then:
  assumes "ep_ok V u" and "pending (reader u) = []"
    and eof: "\<And>v. io_step V (in_of V u) (out_of V u) u v \<Longrightarrow> writer v = writer u \<Longrightarrow> in_of V v = [] \<Longrightarrow> Q (Inl EOFException) v"
    and more: "\<And>v. io_step V (in_of V u) (out_of V u) u v \<Longrightarrow> writer v = writer u \<Longrightarrow> pending (reader v) \<noteq> [] \<Longrightarrow> wp k Q v"
  shows "wp (bindM (fill_buffer rd) (\<lambda>_. k)) Q u"
proof -
  from fill_buffer_spec [OF assms(1,2)] obtain r v where fb: "fill_buffer rd u = Some (r, v)"
    and v: "io_step V (in_of V u) (out_of V u) u v" "writer v = writer u"
    and post: "if incoming V (socket u) = [] then r = Inl EOFException else r = Inr () \<and> pending (reader v) \<noteq> []"
    by (auto simp: wp_iff)
  have "in_of V v = []" if "incoming V (socket u) = []"
    using that assms(2) io_stepD(3) [OF v(1)] by (simp add: in_of_def)
  with eof [OF v] more [OF v] fb post show ?thesis
    by (auto simp: wp_def bindM_def split: if_splits)
qed

lemma read_exact_loop_spec:
  assumes "ep_ok V s"
  shows "wp (read_exact_loop rd into n) (exact_post into n s) s"
  using assms
proof (induction "2 * nat n + (if pending (reader s) = [] then 1 else 0)" arbitrary: s n into
    rule: less_induct)
  case less
  show ?case
  proof (cases "0 < n")
    case False
    with less.prems show ?thesis
      by (auto simp: wp_def read_exact_loop.simps [of rd into n] returnM_def exact_post_def io_step_def)
  next
    case True
    let ?in = "in_of V s"
    from less.prems True obtain m u where run: "read_exact_loop rd into n s
        = (if m < n then bindM (fill_buffer rd) (\<lambda>_. read_exact_loop rd (into @ take (nat m) ?in) (n - m))
           else read_exact_loop rd (into @ take (nat m) ?in) (n - m)) u"
      and u: "io_step V (drop (nat m) ?in) (out_of V s) s u" and wu: "writer u = writer s"
      and m: "0 \<le> m" "m \<le> n" "nat m \<le> length ?in"
      and pu: "m < n \<Longrightarrow> pending (reader u) = []" and p0: "m = 0 \<Longrightarrow> pending (reader s) = []"
      by (rule read_round [of s n into]) blast
    let ?rest = "read_exact_loop rd (into @ take (nat m) ?in) (n - m)"
    note u' = io_stepD [OF u]
    have rest: "wp ?rest (exact_post into n s) v"
      if v: "io_step V (drop (nat m) ?in) (out_of V s) s v" "writer v = writer s" and "m < n \<Longrightarrow> pending (reader v) \<noteq> []" for v
    proof (rule wp_mono)
      show "wp ?rest (exact_post (into @ take (nat m) ?in) (n - m) v) v"
        using io_stepD(1) [OF v(1)] that(3) True m p0 by (intro less.hyps) (cases "m = n"; cases "m = 0"; auto)
    qed (rule exact_post_step [OF v _ m])
    show ?thesis
    proof (cases "m < n")
      case False
      with rest [OF u wu] run show ?thesis by (simp only: wp_def if_False)
    next
      case True
      have sv: "io_step V (drop (nat m) ?in) (out_of V s) s v" if "io_step V (in_of V u) (out_of V u) u v" for v
        using io_step_trans [OF u that] by (simp add: u')
      have "wp (bindM (fill_buffer rd) (\<lambda>_. ?rest)) (exact_post into n s) u"
        by (rule wp_fill_then [OF u'(1) pu [OF True]])
           (simp_all add: exact_post_eof [OF sv _ _ m(3,1) True] rest [OF sv] wu)
      with run True show ?thesis by (simp only: wp_def if_True)
    qed
  qed
qed

lemma read_exact_spec:
  assumes "ep_ok V s"
  shows "wp (read_exact rd n) (exact_post [] n s) s"
  unfolding read_exact_def by (rule read_exact_loop_spec [OF assms])

text \<open>Rules for the typed reads: the wire form of a value at the front of the input is read back as that value.\<close>

lemma wp_read_exact [wp_rules]:
  assumes "ep_ok V s" and "in_of V s = bs @ rest" and "n = int (length bs)"
    and "\<And>s'. io_step V rest (out_of V s) s s' \<Longrightarrow> Q (Inr bs) s'"
  shows "wp (read_exact rd n) Q s"
  using read_exact_spec [OF assms(1), of n]
  by (rule wp_mono) (use assms in \<open>auto simp: exact_post_def\<close>)

lemma wp_read_exact_eof:
  assumes "ep_ok V s" and "int (length (in_of V s)) < n"
    and "\<And>s'. io_step V [] (out_of V s) s s' \<Longrightarrow> writer s' = writer s \<Longrightarrow> Q (Inl EOFException) s'"
  shows "wp (read_exact rd n) Q s"
  using read_exact_spec [OF assms(1), of n]
  by (rule wp_mono) (use assms in \<open>auto simp: exact_post_def\<close>)

lemma wp_read_byte [wp_rules]:
  assumes "ep_ok V s" and "in_of V s = b # rest"
    and "\<And>s'. io_step V rest (out_of V s) s s' \<Longrightarrow> Q (Inr b) s'"
  shows "wp (read_byte rd) Q s"
  unfolding read_byte_def wp_bindM
  by (rule wp_read_exact [where bs = "[b]"]) (use assms in auto)

lemma wp_read_byte_eof:
  assumes "ep_ok V s" and "in_of V s = []"
    and "\<And>s'. io_step V [] (out_of V s) s s' \<Longrightarrow> writer s' = writer s \<Longrightarrow> Q (Inl EOFException) s'"
  shows "wp (read_byte rd) Q s"
  unfolding read_byte_def wp_bindM
  by (rule wp_read_exact_eof) (use assms in auto)

lemma transacts_read_exact [io_rules]:
  "n = int (length bs) \<Longrightarrow> transacts V bs [] (read_exact rd n) bs"
  by (rule transactsI) (auto intro: wp_read_exact)

lemma transacts_read_conv:
  assumes "n = int (length bs)" and "f bs = x"
  shows "transacts V bs [] (bindM (read_exact rd n) (\<lambda>bs. returnM (f bs))) x"
  using transacts_read [OF transacts_read_exact [OF assms(1)], where k = "\<lambda>bs. returnM (f bs)" and i' = "[]" and b = x]
    assms(2) transacts_returnM [of V x] by simp

lemma transacts_read_byte [io_rules]: "transacts V [b] [] (read_byte rd) b"
  by (rule transactsI) (auto intro: wp_read_byte)

lemma transacts_read_u16 [io_rules]: "transacts V (be_bytes 2 x) [] (read_u16 rd) x"
  unfolding read_u16_def
  by (rule transacts_read_conv [where n = 2 and bs = "be_bytes 2 x"]) (simp_all add: wire_simps)

lemma transacts_read_u32 [io_rules]: "transacts V (be_bytes 4 x) [] (read_u32 rd) x"
  unfolding read_u32_def
  by (rule transacts_read_conv [where n = 4 and bs = "be_bytes 4 x"]) (simp_all add: wire_simps)

lemma transacts_read_u64 [io_rules]: "transacts V (be_bytes 8 x) [] (read_u64 rd) x"
  unfolding read_u64_def
  by (rule transacts_read_conv [where n = 8 and bs = "be_bytes 8 x"]) (simp_all add: wire_simps)

lemma transacts_read_utf8_string [io_rules]:
  assumes "length x \<le> 65535"
  shows "transacts V (utf8_bytes x) [] (read_utf8_string rd) x"
proof -
  have len: "uint (word_of_nat (length x) :: u16) = int (length x)"
    using assms by (simp add: uint_nat unat_of_nat)
  have "transacts V (bytes_of_string x) []
      (bindM (read_exact rd (uint (word_of_nat (length x) :: u16))) (\<lambda>bs. returnM (string_of_bytes bs))) x"
    by (rule transacts_read_conv) (simp_all add: len)
  then show ?thesis
    unfolding read_utf8_string_def utf8_bytes_def by (rule transacts_read [OF transacts_read_u16])
qed

subsection \<open>Writing\<close>

lemma flush_spec:
  assumes "ep_ok V s"
  shows "wp (flush wr) (\<lambda>r s'. r = Inr () \<and> io_step V (in_of V s) (out_of V s) s s'
           \<and> buffer_bytes_filled (writer s') = 0) s"
proof -
  let ?w = "writer s"
  from assms have w: "usable V (socket s)" "writer_inv ?w" "reader_inv (reader s)"
    by (auto simp: ep_ok_def)
  then have "wp (wr (wr_buffer ?w) (buffer_bytes_filled ?w)) (accepts V (buffered ?w) s) s"
    unfolding buffered_def by (intro write_law) (auto simp: writer_inv_def)
  then obtain t where wr: "wr (wr_buffer ?w) (buffer_bytes_filled ?w) s = Some (Inr (), s\<lparr>socket := t\<rparr>)"
    and t: "usable V t" "outgoing V t = outgoing V (socket s) @ buffered ?w" "incoming V t = incoming V (socket s)"
    by (auto simp: wp_iff accepts_def)
  let ?s' = "s\<lparr>socket := t, writer := ?w\<lparr>buffer_bytes_filled := 0\<rparr>\<rparr>"
  have "flush wr s = Some (Inr (), ?s')"
    by (simp add: flush_def bindM_def getM_def modifyM_def wr)
  moreover have "ep_frame s ?s'"
    by (rule ep_frame_trans [of _ "s\<lparr>socket := t\<rparr>"]) simp_all
  ultimately show ?thesis
    using t w by (auto simp: wp_iff io_step_def ep_ok_def in_of_def out_of_def writer_inv_def buffered_def)
qed

lemma wp_flush [wp_rules]:
  assumes "ep_ok V s"
    and "\<And>s'. io_step V (in_of V s) (out_of V s) s s' \<Longrightarrow> buffer_bytes_filled (writer s') = 0 \<Longrightarrow> Q (Inr ()) s'"
  shows "wp (flush wr) Q s"
  using flush_spec [OF assms(1)] by (rule wp_mono) (use assms in auto)

lemma transacts_flush [io_rules]: "transacts V [] [] (flush wr) ()"
  by (rule transactsI) (auto intro: wp_flush)

lemma append_to_buffer_spec:
  assumes "ep_ok V s" and "buffer_bytes_filled (writer s) + int (length bs) \<le> wr_buffer_size (writer s)"
  shows "io_step V (in_of V s) (out_of V s @ bs) s (append_to_buffer bs s)"
  using assms buffered_append [of "writer s" bs]
  by (auto simp: io_step_def append_to_buffer_def ep_ok_def in_of_def out_of_def)

lemma write_exact_step:
  assumes "0 < n" and "min n (wr_buffer_size (writer s) - buffer_bytes_filled (writer s)) = k"
    and "k \<noteq> wr_buffer_size (writer s)"
  shows "write_exact wr data n s =
     (if 0 < n - k then bindM (flush wr) (\<lambda>_. write_exact wr (drop (nat k) data) (n - k))
      else write_exact wr (drop (nat k) data) (n - k)) (append_to_buffer (take (nat k) data) s)"
  using assms by (subst write_exact.simps) (simp add: Let_def)

text \<open>With an empty buffer that the data would fill, the data is handed over at once.\<close>

lemma write_exact_direct:
  assumes "ep_ok V s" and "0 < n" and "n \<le> int (length data)"
    and "min n (wr_buffer_size (writer s) - buffer_bytes_filled (writer s)) = wr_buffer_size (writer s)"
  shows "wp (write_exact wr data n)
     (\<lambda>r s'. r = Inr () \<and> io_step V (in_of V s) (out_of V s @ take (nat n) data) s s') s"
proof -
  from assms(1) have w: "usable V (socket s)" "writer_inv (writer s)" "reader_inv (reader s)"
    by (auto simp: ep_ok_def)
  with assms(4) have "buffered (writer s) = []" by (auto simp: writer_inv_def buffered_def)
  moreover have "wp (wr data n) (accepts V (take (nat n) data) s) s"
    using w assms(2,3) by (intro write_law) auto
  moreover have "write_exact wr data n s = wr data n s"
    using assms(2,4) by (simp add: write_exact.simps [of wr data n])
  ultimately show ?thesis
    using w by (auto simp: wp_iff accepts_def io_step_def ep_ok_def in_of_def out_of_def)
qed

text \<open>Otherwise a round fills the buffer, and flushes it when there is more to come.\<close>

lemma write_round:
  assumes "ep_ok V s" and "0 < n" and "n \<le> int (length data)"
    and k: "k = min n (wr_buffer_size (writer s) - buffer_bytes_filled (writer s))" "k \<noteq> wr_buffer_size (writer s)"
  obtains v where "write_exact wr data n s = write_exact wr (drop (nat k) data) (n - k) v"
    and "io_step V (in_of V s) (out_of V s @ take (nat k) data) s v"
    and "k < n \<Longrightarrow> buffer_bytes_filled (writer v) = 0"
proof -
  let ?s1 = "append_to_buffer (take (nat k) data) s"
  have "0 \<le> k" using assms(1,2) k by (auto simp: ep_ok_def writer_inv_def)
  then have s1: "io_step V (in_of V s) (out_of V s @ take (nat k) data) s ?s1"
    using assms(1,3) k(1) by (intro append_to_buffer_spec) auto
  note run = write_exact_step [OF assms(2) k(1) [symmetric] k(2), of data]
  show thesis
  proof (cases "k < n")
    case False
    with that [OF _ s1] run show thesis by simp
  next
    case True
    from flush_spec [OF io_stepD(1) [OF s1]] obtain v where fl: "flush wr ?s1 = Some (Inr (), v)"
      and v: "io_step V (in_of V ?s1) (out_of V ?s1) ?s1 v" and empty: "buffer_bytes_filled (writer v) = 0"
      by (auto simp: wp_iff)
    from io_step_trans [OF s1 v] have "io_step V (in_of V s) (out_of V s @ take (nat k) data) s v"
      by (simp add: io_stepD(3,4) [OF s1])
    with that True run fl empty show thesis by (simp add: bindM_def)
  qed
qed

text \<open>\<open>write_exact\<close> appends exactly the given bytes to the logical output, whatever is buffered already.\<close>

lemma write_exact_spec:
  assumes "ep_ok V s" and "n \<le> int (length data)"
  shows "wp (write_exact wr data n)
     (\<lambda>r s'. r = Inr () \<and> io_step V (in_of V s) (out_of V s @ take (nat n) data) s s') s"
  using assms
proof (induction "2 * nat n + (if buffer_bytes_filled (writer s) = wr_buffer_size (writer s) then 1 else 0)"
    arbitrary: s n data rule: less_induct)
  case less
  define k where "k = min n (wr_buffer_size (writer s) - buffer_bytes_filled (writer s))"
  show ?case
  proof (cases "0 < n \<and> k \<noteq> wr_buffer_size (writer s)")
    case False
    with less.prems write_exact_direct [OF less.prems(1) _ less.prems(2)] show ?thesis
      by (auto simp: wp_def write_exact.simps [of wr data n] returnM_def io_step_def k_def)
  next
    case True
    then obtain v where run: "write_exact wr data n s = write_exact wr (drop (nat k) data) (n - k) v"
      and v: "io_step V (in_of V s) (out_of V s @ take (nat k) data) s v"
      and empty: "k < n \<Longrightarrow> buffer_bytes_filled (writer v) = 0"
      using write_round [OF less.prems(1) _ less.prems(2) k_def] by metis
    have w: "writer_inv (writer s)" "writer_inv (writer v)"
      using less.prems(1) io_stepD(1) [OF v] by (simp_all add: ep_ok_def)
    then have k: "0 \<le> k" "k \<le> n" using True by (auto simp: k_def writer_inv_def)
    then have tk: "take (nat k) data @ take (nat (n - k)) (drop (nat k) data) = take (nat n) data"
      by (simp add: take_add [symmetric] nat_add_distrib [symmetric])
    have "wp (write_exact wr (drop (nat k) data) (n - k)) (\<lambda>r s'. r = Inr ()
        \<and> io_step V (in_of V v) (out_of V v @ take (nat (n - k)) (drop (nat k) data)) v s') v"
      using less.prems io_stepD(1) [OF v] k True w empty
      by (intro less.hyps) (cases "k = n"; cases "k = 0"; auto simp: k_def writer_inv_def)+
    from wp_mono [OF this] io_step_trans [OF v] tk show ?thesis
      by (simp add: wp_def run io_stepD(3,4) [OF v])
  qed
qed

lemma wp_write_exact [wp_rules]:
  assumes "ep_ok V s" and "n = int (length data)"
    and "\<And>s'. io_step V (in_of V s) (out_of V s @ data) s s' \<Longrightarrow> Q (Inr ()) s'"
  shows "wp (write_exact wr data n) Q s"
proof (rule wp_mono)
  show "wp (write_exact wr data n)
      (\<lambda>r s'. r = Inr () \<and> io_step V (in_of V s) (out_of V s @ take (nat n) data) s s') s"
    using assms(1,2) by (intro write_exact_spec) auto
qed (use assms in auto)

lemma transacts_write_exact [io_rules]:
  "n = int (length data) \<Longrightarrow> transacts V [] data (write_exact wr data n) ()"
  by (rule transactsI) (auto intro: wp_write_exact)

lemma transacts_write_byte [io_rules]: "transacts V [] [b] (write_byte wr b) ()"
  using transacts_write_exact [of 1 "[b]"] by (simp add: write_byte_def)

lemma transacts_write_u16 [io_rules]: "transacts V [] (be_bytes 2 x) (write_u16 wr x) ()"
  using transacts_write_exact [of 2 "be_bytes 2 x"] by (simp add: write_u16_def wire_simps htons_def)

lemma transacts_write_u32 [io_rules]: "transacts V [] (be_bytes 4 x) (write_u32 wr x) ()"
  using transacts_write_exact [of 4 "be_bytes 4 x"] by (simp add: write_u32_def wire_simps htonl_def)

lemma transacts_write_u64 [io_rules]: "transacts V [] (be_bytes 8 x) (write_u64 wr x) ()"
  using transacts_write_exact [of 8 "be_bytes 8 x"] by (simp add: write_u64_def wire_simps)

lemma transacts_write_utf8_string [io_rules]:
  assumes "length x \<le> 65535"
  shows "transacts V [] (utf8_bytes x) (write_utf8_string wr x) ()"
proof -
  have "transacts V [] (be_bytes 2 (word_of_nat (length x) :: u16) @ bytes_of_string x)
      (thenM (write_u16 wr (word_of_nat (length x))) (write_exact wr (bytes_of_string x) (int (length x)))) ()"
    by (rule transacts_write [OF transacts_write_u16 transacts_write_exact]) simp
  with assms show ?thesis by (simp add: write_utf8_string_def utf8_bytes_def)
qed

lemma wp_write_utf8_string_too_long:
  assumes "65535 < length x"
    and "Q (Inl (RuntimeError ''String too long to write to stream. Was path length properly limited?'')) s"
  shows "wp (write_utf8_string wr x) Q s"
  using assms by (simp add: write_utf8_string_def)

end

end
