(* ===== verification/Sockets.thy ===== *)
theory Sockets
  imports Serialization
begin

text \<open>
  The two stream objects of the program: \<open>ClientHandler::read\<close>/\<open>write\<close> on the device and
  \<open>Connection::read\<close>/\<open>write\<close> on the computer, with \<open>throw_unless\<close>
  (\<open>UnixException.cpp\<close>) and \<open>WinSockException.cpp\<close>. The operating system's \<open>recv\<close> and
  \<open>send\<close> are parameters; \<open>tcp_socket\<close> states what their documentation promises of a
  connected blocking stream socket, and both objects are shown to meet the contract
  \<open>stream_object\<close> on it. \<open>scripted_api\<close> is an executable socket whose chunk sizes are
  given by a script.
\<close>

section \<open>Sockets\<close>

text \<open>
  A system call that returns \<open>-1\<close> and an error code is \<open>Inl\<close> of the code, any other
  return is \<open>Inr\<close>. \<open>recv net t n\<close> gives the bytes stored (their number is the return
  value); \<open>send net t bs\<close> gets the bytes offered and returns how many were taken.
\<close>

record ('s, 'e) socket_api =
  recv :: "'s \<Rightarrow> int \<Rightarrow> ('e + u8 list) \<times> 's"
  send :: "'s \<Rightarrow> u8 list \<Rightarrow> ('e + int) \<times> 's"

definition throw_unless :: "errno + 'a \<Rightarrow> ('o, 'a) M" where
  "throw_unless return_val =
     (case return_val of Inl err_num \<Rightarrow> throwM (UnixException err_num) | Inr v \<Rightarrow> returnM v)"

definition throw_if_nonzero :: "int \<Rightarrow> ('o, unit) M" where
  "throw_if_nonzero return_value =
     (if return_value \<noteq> 0 then throwM (WinSockException return_value) else returnM ())"

section \<open>The stream objects\<close>

definition ClientHandler_read :: "('s, errno) socket_api \<Rightarrow> ('s, 'z) endpoint_scheme readable" where
  "ClientHandler_read net len s =
     (case recv net (socket s) len of (res, t) \<Rightarrow> throw_unless res (s\<lparr>socket := t\<rparr>))"

partial_function (option) ClientHandler_write ::
  "('s, errno) socket_api \<Rightarrow> u8 list \<Rightarrow> int
     \<Rightarrow> ('s, 'z) endpoint_scheme \<Rightarrow> ((exn + unit) \<times> ('s, 'z) endpoint_scheme) option" where
  "ClientHandler_write net buffer len s =
     (if len > 0
      then (case send net (socket s) (take (nat len) buffer) of (res, t) \<Rightarrow>
              bindM (throw_unless res)
                (\<lambda>bytes_sent. ClientHandler_write net (drop (nat bytes_sent) buffer) (len - bytes_sent))
                (s\<lparr>socket := t\<rparr>))
      else returnM () s)"

declare ClientHandler_write.simps [code]

definition Connection_read :: "('s, int) socket_api \<Rightarrow> ('s, 'z) endpoint_scheme readable" where
  "Connection_read net len s =
     (case recv net (socket s) len of
        (Inl err, t) \<Rightarrow> throwM (WinSockException err) (s\<lparr>socket := t\<rparr>)
      | (Inr bs, t) \<Rightarrow> returnM bs (s\<lparr>socket := t\<rparr>))"

partial_function (option) Connection_write ::
  "('s, int) socket_api \<Rightarrow> u8 list \<Rightarrow> int
     \<Rightarrow> ('s, 'z) endpoint_scheme \<Rightarrow> ((exn + unit) \<times> ('s, 'z) endpoint_scheme) option" where
  "Connection_write net buffer len s =
     (if len > 0
      then (case send net (socket s) (take (nat len) buffer) of (res, t) \<Rightarrow>
              (case res of
                 Inl err \<Rightarrow> throwM (WinSockException err) (s\<lparr>socket := t\<rparr>)
               | Inr result \<Rightarrow> Connection_write net (drop (nat result) buffer) (len - result)
                                 (s\<lparr>socket := t\<rparr>)))
      else returnM () s)"

declare Connection_write.simps [code]

section \<open>The contract of a connected stream socket\<close>

locale tcp_socket =
  fixes net :: "('s, 'e) socket_api"
    and V :: "'s sock_view"
  assumes recv_law: "usable V t \<Longrightarrow> 0 < n \<Longrightarrow>
      \<exists>bs t'. recv net t n = (Inr bs, t') \<and> usable V t' \<and> incoming V t = bs @ incoming V t'
        \<and> outgoing V t' = outgoing V t \<and> int (length bs) \<le> n \<and> (bs = [] \<longrightarrow> incoming V t = [])"
    and send_law: "usable V t \<Longrightarrow> bs \<noteq> [] \<Longrightarrow>
      \<exists>k t'. send net t bs = (Inr k, t') \<and> usable V t' \<and> 1 \<le> k \<and> k \<le> int (length bs)
        \<and> outgoing V t' = outgoing V t @ take (nat k) bs \<and> incoming V t' = incoming V t"

locale unix_socket = tcp_socket net V
  for net :: "('s, errno) socket_api" and V :: "'s sock_view"

locale win_socket = tcp_socket net V
  for net :: "('s, int) socket_api" and V :: "'s sock_view"

text \<open>
  A send loop that hands over a prefix at a time ends after all the bytes: each call takes
  at least one. \<open>step\<close> stands for either of the two loops.
\<close>

context tcp_socket
begin

lemma send_loop:
  fixes loop :: "u8 list \<Rightarrow> int \<Rightarrow> ('s, 'z) endpoint_scheme \<Rightarrow> ((exn + unit) \<times> ('s, 'z) endpoint_scheme) option"
  assumes stop: "\<And>buf s. loop buf 0 s = returnM () s"
    and step: "\<And>buf n s k t. 0 < n \<Longrightarrow> send net (socket s) (take (nat n) buf) = (Inr k, t)
        \<Longrightarrow> loop buf n s = loop (drop (nat k) buf) (n - k) (s\<lparr>socket := t\<rparr>)"
    and "usable V (socket s)" and "0 \<le> n" and "n \<le> int (length buf)"
  shows "wp (loop buf n) (accepts V (take (nat n) buf) s) s"
  using assms(3-5)
proof (induction "nat n" arbitrary: n buf s rule: less_induct)
  case less
  show ?case
  proof (cases "0 < n")
    case False
    with less.prems stop show ?thesis
      by (auto simp: wp_def returnM_def accepts_def intro!: exI [of _ "socket s"])
  next
    case True
    with less.prems have "take (nat n) buf \<noteq> []" by auto
    from send_law [OF less.prems(1) this] obtain k t where
      snd: "send net (socket s) (take (nat n) buf) = (Inr k, t)" and t: "usable V t"
      and k: "1 \<le> k" "k \<le> int (length (take (nat n) buf))"
      and out: "outgoing V t = outgoing V (socket s) @ take (nat k) (take (nat n) buf)"
      and inc: "incoming V t = incoming V (socket s)"
      by blast
    have kn: "k \<le> n" using k True by simp
    have "wp (loop (drop (nat k) buf) (n - k))
        (accepts V (take (nat (n - k)) (drop (nat k) buf)) (s\<lparr>socket := t\<rparr>)) (s\<lparr>socket := t\<rparr>)"
      using less.prems k kn t True by (intro less.hyps) auto
    moreover have "take (nat k) (take (nat n) buf) @ take (nat (n - k)) (drop (nat k) buf) = take (nat n) buf"
      using k kn by (simp add: min_absorb1 take_add [symmetric] nat_add_distrib [symmetric])
    ultimately show ?thesis
      using step [OF True snd] out inc by (auto simp: wp_iff accepts_def)
  qed
qed

end

sublocale unix_socket \<subseteq> handler: stream_object "ClientHandler_read net" "ClientHandler_write net" V
proof unfold_locales
  fix s :: "('s, 'z) endpoint_scheme" and n :: int
  assume "usable V (socket s)" and "0 < n"
  from recv_law [OF this] show "wp (ClientHandler_read net n) (delivers V n s) s"
    by (auto simp: wp_def ClientHandler_read_def throw_unless_def returnM_def delivers_def)
next
  fix s :: "('s, 'z) endpoint_scheme" and n :: int and bs :: "u8 list"
  assume "usable V (socket s)" and "0 \<le> n" and "n \<le> int (length bs)"
  then show "wp (ClientHandler_write net bs n) (accepts V (take (nat n) bs) s) s"
    by (intro send_loop [of "ClientHandler_write net"])
       (subst ClientHandler_write.simps, simp add: throw_unless_def)+
qed

sublocale win_socket \<subseteq> conn: stream_object "Connection_read net" "Connection_write net" V
proof unfold_locales
  fix s :: "('s, 'z) endpoint_scheme" and n :: int
  assume "usable V (socket s)" and "0 < n"
  from recv_law [OF this] show "wp (Connection_read net n) (delivers V n s) s"
    by (auto simp: wp_def Connection_read_def returnM_def delivers_def)
next
  fix s :: "('s, 'z) endpoint_scheme" and n :: int and bs :: "u8 list"
  assume "usable V (socket s)" and "0 \<le> n" and "n \<le> int (length bs)"
  then show "wp (Connection_write net bs n) (accepts V (take (nat n) bs) s) s"
    by (intro send_loop [of "Connection_write net"])
       (subst Connection_write.simps, simp)+
qed

section \<open>An executable socket\<close>

text \<open>
  \<open>sk_chunks\<close> is the script: the number of bytes the next calls move (at least 1, at most
  what was asked for). Every behaviour of a reliable stream is that of some script.
\<close>

record sock =
  sk_in :: "u8 list"
  sk_out :: "u8 list"
  sk_chunks :: "nat list"

definition next_chunk :: "sock \<Rightarrow> nat \<Rightarrow> nat" where
  "next_chunk t n = (case sk_chunks t of [] \<Rightarrow> n | c # _ \<Rightarrow> min n (max 1 c))"

definition scripted_api :: "(sock, 'e) socket_api" where
  "scripted_api = \<lparr>
     recv = (\<lambda>t n. let k = next_chunk t (nat n) in
        (Inr (take k (sk_in t)), t\<lparr>sk_in := drop k (sk_in t), sk_chunks := tl (sk_chunks t)\<rparr>)),
     send = (\<lambda>t bs. let k = next_chunk t (length bs) in
        (Inr (int k), t\<lparr>sk_out := sk_out t @ take k bs, sk_chunks := tl (sk_chunks t)\<rparr>))\<rparr>"

definition scripted_view :: "sock sock_view" where
  "scripted_view = \<lparr>incoming = sk_in, outgoing = sk_out, usable = (\<lambda>_. True)\<rparr>"

lemma next_chunk_bounds: "0 < n \<Longrightarrow> 0 < next_chunk t n \<and> next_chunk t n \<le> n"
  by (auto simp: next_chunk_def split: list.splits)

lemma scripted_tcp: "tcp_socket scripted_api scripted_view"
proof
  fix t :: sock and n :: int
  assume "0 < n"
  then show "\<exists>bs t'. recv scripted_api t n = (Inr bs, t') \<and> usable scripted_view t'
      \<and> incoming scripted_view t = bs @ incoming scripted_view t'
      \<and> outgoing scripted_view t' = outgoing scripted_view t \<and> int (length bs) \<le> n
      \<and> (bs = [] \<longrightarrow> incoming scripted_view t = [])"
    using next_chunk_bounds [of "nat n" t]
    by (auto simp: scripted_api_def scripted_view_def Let_def)
next
  fix t :: sock and bs :: "u8 list"
  assume "bs \<noteq> []"
  then show "\<exists>k t'. send scripted_api t bs = (Inr k, t') \<and> usable scripted_view t' \<and> 1 \<le> k
      \<and> k \<le> int (length bs) \<and> outgoing scripted_view t' = outgoing scripted_view t @ take (nat k) bs
      \<and> incoming scripted_view t' = incoming scripted_view t"
    using next_chunk_bounds [of "length bs" t]
    by (auto simp: scripted_api_def scripted_view_def Let_def)
qed

interpretation scripted_unix: unix_socket scripted_api scripted_view
  by (rule unix_socket.intro) (rule scripted_tcp)

interpretation scripted_win: win_socket scripted_api scripted_view
  by (rule win_socket.intro) (rule scripted_tcp)

end
