(* ===== verification/Requests.thy ===== *)
theory Requests
  imports Serialization
begin

text \<open>
  \<open>nandroid_shared/requests.{hpp,cpp}\<close>: the request codes, the open modes and the argument
  structures with their reading constructors and \<open>write\<close> methods. An \<open>enum class\<close> with a
  fixed underlying type can hold any value of that type, so each enumeration has one more
  constructor for the values without a name. Each structure has its byte form (\<open>*_bytes\<close>):
  \<open>write\<close> appends that form and the reading constructor parses it back. The constructor from
  values is \<open>*_init\<close>.
\<close>

unbundle bit_operations_syntax

section \<open>Enumerations\<close>

definition AGENT_PORT :: u16 where
  "AGENT_PORT = 28933"

definition AGENT_READY_MSG :: string where
  "AGENT_READY_MSG = ''NANDROID_READY_FOR_CONNECTION''"

type_synonym FILE_HANDLE = u32

datatype RequestType =
    StatFile | ListDirectory | CreateDirectory | CheckRemoveFile | CheckRemoveDirectory
  | RemoveFile | RemoveDirectory | MoveEntry | OpenHandle | CloseHandle | ReadHandle
  | WriteHandle | TruncateHandle | SetFileTime | GetDiskStats | OtherRequest u8

fun u8_of_RequestType :: "RequestType \<Rightarrow> u8" where
  "u8_of_RequestType StatFile = 0"
| "u8_of_RequestType ListDirectory = 1"
| "u8_of_RequestType CreateDirectory = 2"
| "u8_of_RequestType CheckRemoveFile = 3"
| "u8_of_RequestType CheckRemoveDirectory = 4"
| "u8_of_RequestType RemoveFile = 5"
| "u8_of_RequestType RemoveDirectory = 6"
| "u8_of_RequestType MoveEntry = 7"
| "u8_of_RequestType OpenHandle = 8"
| "u8_of_RequestType CloseHandle = 9"
| "u8_of_RequestType ReadHandle = 10"
| "u8_of_RequestType WriteHandle = 11"
| "u8_of_RequestType TruncateHandle = 12"
| "u8_of_RequestType SetFileTime = 13"
| "u8_of_RequestType GetDiskStats = 14"
| "u8_of_RequestType (OtherRequest b) = b"

definition RequestType_of_u8 :: "u8 \<Rightarrow> RequestType" where
  "RequestType_of_u8 b =
     (if b = 0 then StatFile else if b = 1 then ListDirectory else if b = 2 then CreateDirectory
      else if b = 3 then CheckRemoveFile else if b = 4 then CheckRemoveDirectory
      else if b = 5 then RemoveFile else if b = 6 then RemoveDirectory else if b = 7 then MoveEntry
      else if b = 8 then OpenHandle else if b = 9 then CloseHandle else if b = 10 then ReadHandle
      else if b = 11 then WriteHandle else if b = 12 then TruncateHandle else if b = 13 then SetFileTime
      else if b = 14 then GetDiskStats else OtherRequest b)"

datatype OpenMode =
    OpenOnly | CreateIfNotExist | Truncate | CreateOrTruncate | CreateAlways | OtherMode u8

fun u8_of_OpenMode :: "OpenMode \<Rightarrow> u8" where
  "u8_of_OpenMode OpenOnly = 0"
| "u8_of_OpenMode CreateIfNotExist = 1"
| "u8_of_OpenMode Truncate = 2"
| "u8_of_OpenMode CreateOrTruncate = 3"
| "u8_of_OpenMode CreateAlways = 4"
| "u8_of_OpenMode (OtherMode b) = b"

definition OpenMode_of_u8 :: "u8 \<Rightarrow> OpenMode" where
  "OpenMode_of_u8 b =
     (if b = 0 then OpenOnly else if b = 1 then CreateIfNotExist else if b = 2 then Truncate
      else if b = 3 then CreateOrTruncate else if b = 4 then CreateAlways else OtherMode b)"

section \<open>Argument structures\<close>

record OpenHandleArgs =
  oh_path :: string
  oh_mode :: OpenMode
  oh_read_access :: bool
  oh_write_access :: bool

definition OpenHandleArgs_read :: "('s, 'z) endpoint_scheme readable \<Rightarrow> (('s, 'z) endpoint_scheme, OpenHandleArgs) M" where
  "OpenHandleArgs_read rd =
     bindM (read_utf8_string rd) (\<lambda>path.
     bindM (read_byte rd) (\<lambda>mode_and_perms.
     returnM \<lparr>oh_path = path,
              oh_mode = OpenMode_of_u8 (mode_and_perms AND 0b00111111),
              oh_read_access = (mode_and_perms AND 0b10000000 \<noteq> 0),
              oh_write_access = (mode_and_perms AND 0b01000000 \<noteq> 0)\<rparr>))"

abbreviation OpenHandleArgs_init :: "string \<Rightarrow> OpenMode \<Rightarrow> bool \<Rightarrow> bool \<Rightarrow> OpenHandleArgs" where
  "OpenHandleArgs_init path mode read_access write_access \<equiv> \<lparr>oh_path = path, oh_mode = mode, oh_read_access = read_access, oh_write_access = write_access\<rparr>"

definition mode_and_perms :: "OpenHandleArgs \<Rightarrow> u8" where
  "mode_and_perms args = (u8_of_OpenMode (oh_mode args)
     OR (if oh_read_access args then 0b10000000 else 0))
     OR (if oh_write_access args then 0b01000000 else 0)"

definition OpenHandleArgs_write :: "('s, 'z) endpoint_scheme writable \<Rightarrow> OpenHandleArgs \<Rightarrow> (('s, 'z) endpoint_scheme, unit) M" where
  "OpenHandleArgs_write wr args =
     thenM (write_utf8_string wr (oh_path args))
           (write_byte wr (mode_and_perms args))"

record ReadHandleArgs =
  rh_handle :: FILE_HANDLE
  rh_data_len :: u32
  rh_offset :: u64

definition ReadHandleArgs_read :: "('s, 'z) endpoint_scheme readable \<Rightarrow> (('s, 'z) endpoint_scheme, ReadHandleArgs) M" where
  "ReadHandleArgs_read rd =
     bindM (read_u32 rd) (\<lambda>handle.
     bindM (read_u32 rd) (\<lambda>data_len.
     bindM (read_u64 rd) (\<lambda>offset.
     returnM \<lparr>rh_handle = handle, rh_data_len = data_len, rh_offset = offset\<rparr>)))"

abbreviation ReadHandleArgs_init :: "FILE_HANDLE \<Rightarrow> u32 \<Rightarrow> u64 \<Rightarrow> ReadHandleArgs" where
  "ReadHandleArgs_init handle data_len offset \<equiv> \<lparr>rh_handle = handle, rh_data_len = data_len, rh_offset = offset\<rparr>"

definition ReadHandleArgs_write :: "('s, 'z) endpoint_scheme writable \<Rightarrow> ReadHandleArgs \<Rightarrow> (('s, 'z) endpoint_scheme, unit) M" where
  "ReadHandleArgs_write wr args =
     thenM (write_u32 wr (rh_handle args))
    (thenM (write_u32 wr (rh_data_len args))
           (write_u64 wr (rh_offset args)))"

record WriteHandleInitArgs =
  wh_handle :: FILE_HANDLE
  wh_offset :: u64
  wh_data_len :: u32

definition WriteHandleInitArgs_read :: "('s, 'z) endpoint_scheme readable \<Rightarrow> (('s, 'z) endpoint_scheme, WriteHandleInitArgs) M" where
  "WriteHandleInitArgs_read rd =
     bindM (read_u32 rd) (\<lambda>handle.
     bindM (read_u64 rd) (\<lambda>offset.
     bindM (read_u32 rd) (\<lambda>data_len.
     returnM \<lparr>wh_handle = handle, wh_offset = offset, wh_data_len = data_len\<rparr>)))"

abbreviation WriteHandleInitArgs_init :: "FILE_HANDLE \<Rightarrow> u64 \<Rightarrow> u32 \<Rightarrow> WriteHandleInitArgs" where
  "WriteHandleInitArgs_init handle offset data_len \<equiv> \<lparr>wh_handle = handle, wh_offset = offset, wh_data_len = data_len\<rparr>"

definition WriteHandleInitArgs_write :: "('s, 'z) endpoint_scheme writable \<Rightarrow> WriteHandleInitArgs \<Rightarrow> (('s, 'z) endpoint_scheme, unit) M" where
  "WriteHandleInitArgs_write wr args =
     thenM (write_u32 wr (wh_handle args))
    (thenM (write_u64 wr (wh_offset args))
           (write_u32 wr (wh_data_len args)))"

record MoveEntryArgs =
  from_path :: string
  to_path :: string
  overwrite :: bool

definition MoveEntryArgs_read :: "('s, 'z) endpoint_scheme readable \<Rightarrow> (('s, 'z) endpoint_scheme, MoveEntryArgs) M" where
  "MoveEntryArgs_read rd =
     bindM (read_utf8_string rd) (\<lambda>from.
     bindM (read_utf8_string rd) (\<lambda>to.
     bindM (read_byte rd) (\<lambda>overw.
     returnM \<lparr>from_path = from, to_path = to, overwrite = (overw \<noteq> 0)\<rparr>)))"

abbreviation MoveEntryArgs_init :: "string \<Rightarrow> string \<Rightarrow> bool \<Rightarrow> MoveEntryArgs" where
  "MoveEntryArgs_init source target replaces \<equiv> \<lparr>from_path = source, to_path = target, overwrite = replaces\<rparr>"

definition MoveEntryArgs_write :: "('s, 'z) endpoint_scheme writable \<Rightarrow> MoveEntryArgs \<Rightarrow> (('s, 'z) endpoint_scheme, unit) M" where
  "MoveEntryArgs_write wr args =
     thenM (write_utf8_string wr (from_path args))
    (thenM (write_utf8_string wr (to_path args))
           (write_byte wr (of_bool (overwrite args))))"

record TruncateHandleArgs =
  th_handle :: FILE_HANDLE
  new_length :: u64

definition TruncateHandleArgs_read :: "('s, 'z) endpoint_scheme readable \<Rightarrow> (('s, 'z) endpoint_scheme, TruncateHandleArgs) M" where
  "TruncateHandleArgs_read rd =
     bindM (read_u32 rd) (\<lambda>handle.
     bindM (read_u64 rd) (\<lambda>len.
     returnM \<lparr>th_handle = handle, new_length = len\<rparr>))"

abbreviation TruncateHandleArgs_init :: "FILE_HANDLE \<Rightarrow> u64 \<Rightarrow> TruncateHandleArgs" where
  "TruncateHandleArgs_init handle len \<equiv> \<lparr>th_handle = handle, new_length = len\<rparr>"

definition TruncateHandleArgs_write :: "('s, 'z) endpoint_scheme writable \<Rightarrow> TruncateHandleArgs \<Rightarrow> (('s, 'z) endpoint_scheme, unit) M" where
  "TruncateHandleArgs_write wr args =
     thenM (write_u32 wr (th_handle args))
           (write_u64 wr (new_length args))"

text \<open>The times are \<open>int64_t\<close>, kept as their 64 bits; \<open>-1\<close> means "do not set".\<close>

record SetFileTimeArgs =
  st_path :: string
  st_access_time :: u64
  st_write_time :: u64

definition SetFileTimeArgs_read :: "('s, 'z) endpoint_scheme readable \<Rightarrow> (('s, 'z) endpoint_scheme, SetFileTimeArgs) M" where
  "SetFileTimeArgs_read rd =
     bindM (read_utf8_string rd) (\<lambda>path.
     bindM (read_u64 rd) (\<lambda>atime.
     bindM (read_u64 rd) (\<lambda>wtime.
     returnM \<lparr>st_path = path, st_access_time = atime, st_write_time = wtime\<rparr>)))"

abbreviation SetFileTimeArgs_init :: "string \<Rightarrow> u64 \<Rightarrow> u64 \<Rightarrow> SetFileTimeArgs" where
  "SetFileTimeArgs_init path access_time write_time \<equiv> \<lparr>st_path = path, st_access_time = access_time, st_write_time = write_time\<rparr>"

definition SetFileTimeArgs_write :: "('s, 'z) endpoint_scheme writable \<Rightarrow> SetFileTimeArgs \<Rightarrow> (('s, 'z) endpoint_scheme, unit) M" where
  "SetFileTimeArgs_write wr args =
     thenM (write_utf8_string wr (st_path args))
    (thenM (write_u64 wr (st_access_time args))
           (write_u64 wr (st_write_time args)))"

section \<open>Byte forms\<close>

definition OpenHandleArgs_bytes :: "OpenHandleArgs \<Rightarrow> u8 list" where
  "OpenHandleArgs_bytes args = utf8_bytes (oh_path args) @ [mode_and_perms args]"

definition ReadHandleArgs_bytes :: "ReadHandleArgs \<Rightarrow> u8 list" where
  "ReadHandleArgs_bytes args =
     be_bytes 4 (rh_handle args) @ be_bytes 4 (rh_data_len args) @ be_bytes 8 (rh_offset args)"

definition WriteHandleInitArgs_bytes :: "WriteHandleInitArgs \<Rightarrow> u8 list" where
  "WriteHandleInitArgs_bytes args =
     be_bytes 4 (wh_handle args) @ be_bytes 8 (wh_offset args) @ be_bytes 4 (wh_data_len args)"

definition MoveEntryArgs_bytes :: "MoveEntryArgs \<Rightarrow> u8 list" where
  "MoveEntryArgs_bytes args =
     utf8_bytes (from_path args) @ utf8_bytes (to_path args) @ [of_bool (overwrite args)]"

definition TruncateHandleArgs_bytes :: "TruncateHandleArgs \<Rightarrow> u8 list" where
  "TruncateHandleArgs_bytes args = be_bytes 4 (th_handle args) @ be_bytes 8 (new_length args)"

definition SetFileTimeArgs_bytes :: "SetFileTimeArgs \<Rightarrow> u8 list" where
  "SetFileTimeArgs_bytes args =
     utf8_bytes (st_path args) @ be_bytes 8 (st_access_time args) @ be_bytes 8 (st_write_time args)"

section \<open>Enumeration values\<close>

lemma u8_of_RequestType_of_u8 [simp]: "u8_of_RequestType (RequestType_of_u8 b) = b"
  by (simp add: RequestType_of_u8_def)

lemma u8_of_OpenMode_of_u8 [simp]: "u8_of_OpenMode (OpenMode_of_u8 b) = b"
  by (simp add: OpenMode_of_u8_def)

lemma RequestType_of_u8_of: "(\<And>b. t \<noteq> OtherRequest b) \<Longrightarrow> RequestType_of_u8 (u8_of_RequestType t) = t"
  by (cases t) (simp_all add: RequestType_of_u8_def)

definition named_mode :: "OpenMode \<Rightarrow> bool" where
  "named_mode m = (case m of OtherMode _ \<Rightarrow> False | _ \<Rightarrow> True)"

text \<open>The mode and the two access bits share a byte without interfering.\<close>

lemma mode_and_perms_fields:
  assumes "named_mode (oh_mode args)"
  shows "OpenMode_of_u8 (mode_and_perms args AND 0b00111111) = oh_mode args"
    and "mode_and_perms args AND 0b10000000 \<noteq> 0 \<longleftrightarrow> oh_read_access args"
    and "mode_and_perms args AND 0b01000000 \<noteq> 0 \<longleftrightarrow> oh_write_access args"
  using assms
  by (cases "oh_mode args"; simp add: mode_and_perms_def named_mode_def OpenMode_of_u8_def)+

section \<open>Reading and writing the structures\<close>

definition named_request :: "RequestType \<Rightarrow> bool" where
  "named_request t = (case t of OtherRequest _ \<Rightarrow> False | _ \<Rightarrow> True)"

lemma RequestType_of_named [simp]: "named_request t \<Longrightarrow> RequestType_of_u8 (u8_of_RequestType t) = t"
  by (cases t) (simp_all add: RequestType_of_u8_def named_request_def)

context stream_object
begin

lemma OpenHandleArgs_write_spec [io_rules]:
  assumes "length (oh_path a) \<le> 65535"
  shows "transacts V [] (OpenHandleArgs_bytes a) (OpenHandleArgs_write wr a) ()"
  unfolding OpenHandleArgs_write_def OpenHandleArgs_bytes_def
  by (rule transacts_write io_rules assms)+

lemma ReadHandleArgs_write_spec [io_rules]:
  "transacts V [] (ReadHandleArgs_bytes a) (ReadHandleArgs_write wr a) ()"
  unfolding ReadHandleArgs_write_def ReadHandleArgs_bytes_def
  by (rule transacts_write io_rules)+

lemma WriteHandleInitArgs_write_spec [io_rules]:
  "transacts V [] (WriteHandleInitArgs_bytes a) (WriteHandleInitArgs_write wr a) ()"
  unfolding WriteHandleInitArgs_write_def WriteHandleInitArgs_bytes_def
  by (rule transacts_write io_rules)+

lemma MoveEntryArgs_write_spec [io_rules]:
  assumes "length (from_path a) \<le> 65535" "length (to_path a) \<le> 65535"
  shows "transacts V [] (MoveEntryArgs_bytes a) (MoveEntryArgs_write wr a) ()"
  unfolding MoveEntryArgs_write_def MoveEntryArgs_bytes_def
  by (rule transacts_write io_rules assms)+

lemma TruncateHandleArgs_write_spec [io_rules]:
  "transacts V [] (TruncateHandleArgs_bytes a) (TruncateHandleArgs_write wr a) ()"
  unfolding TruncateHandleArgs_write_def TruncateHandleArgs_bytes_def
  by (rule transacts_write io_rules)+

lemma SetFileTimeArgs_write_spec [io_rules]:
  assumes "length (st_path a) \<le> 65535"
  shows "transacts V [] (SetFileTimeArgs_bytes a) (SetFileTimeArgs_write wr a) ()"
  unfolding SetFileTimeArgs_write_def SetFileTimeArgs_bytes_def
  by (rule transacts_write io_rules assms)+

text \<open>
  A reading constructor is a sequence of reads ending in the structure built from them: the
  last step is a \<open>returnM\<close> of a value that equals the structure written.
\<close>

lemma transacts_built: "x = a \<Longrightarrow> transacts V [] [] (returnM x) a"
  by (simp add: io_rules)

lemma OpenHandleArgs_read_spec [io_rules]:
  assumes "length (oh_path a) \<le> 65535" and "named_mode (oh_mode a)"
  shows "transacts V (OpenHandleArgs_bytes a) [] (OpenHandleArgs_read rd) a"
proof -
  have "transacts V (utf8_bytes (oh_path a) @ [mode_and_perms a] @ []) [] (OpenHandleArgs_read rd) a"
    unfolding OpenHandleArgs_read_def
    by (rule transacts_read transacts_read_utf8_string transacts_read_byte transacts_built assms(1))+
       (simp add: mode_and_perms_fields [OF assms(2)])
  then show ?thesis by (simp add: OpenHandleArgs_bytes_def)
qed

lemma ReadHandleArgs_read_spec [io_rules]:
  "transacts V (ReadHandleArgs_bytes a) [] (ReadHandleArgs_read rd) a"
proof -
  have "transacts V (be_bytes 4 (rh_handle a) @ be_bytes 4 (rh_data_len a) @ be_bytes 8 (rh_offset a) @ [])
      [] (ReadHandleArgs_read rd) a"
    unfolding ReadHandleArgs_read_def
    by (rule transacts_read transacts_read_u32 transacts_read_u64 transacts_built)+ simp
  then show ?thesis by (simp add: ReadHandleArgs_bytes_def)
qed

lemma WriteHandleInitArgs_read_spec [io_rules]:
  "transacts V (WriteHandleInitArgs_bytes a) [] (WriteHandleInitArgs_read rd) a"
proof -
  have "transacts V (be_bytes 4 (wh_handle a) @ be_bytes 8 (wh_offset a) @ be_bytes 4 (wh_data_len a) @ [])
      [] (WriteHandleInitArgs_read rd) a"
    unfolding WriteHandleInitArgs_read_def
    by (rule transacts_read transacts_read_u32 transacts_read_u64 transacts_built)+ simp
  then show ?thesis by (simp add: WriteHandleInitArgs_bytes_def)
qed

lemma MoveEntryArgs_read_spec [io_rules]:
  assumes "length (from_path a) \<le> 65535" and "length (to_path a) \<le> 65535"
  shows "transacts V (MoveEntryArgs_bytes a) [] (MoveEntryArgs_read rd) a"
proof -
  have "transacts V (utf8_bytes (from_path a) @ utf8_bytes (to_path a) @ [of_bool (overwrite a)] @ [])
      [] (MoveEntryArgs_read rd) a"
    unfolding MoveEntryArgs_read_def
    by (rule transacts_read transacts_read_utf8_string transacts_read_byte transacts_built assms)+ simp
  then show ?thesis by (simp add: MoveEntryArgs_bytes_def)
qed

lemma TruncateHandleArgs_read_spec [io_rules]:
  "transacts V (TruncateHandleArgs_bytes a) [] (TruncateHandleArgs_read rd) a"
proof -
  have "transacts V (be_bytes 4 (th_handle a) @ be_bytes 8 (new_length a) @ []) [] (TruncateHandleArgs_read rd) a"
    unfolding TruncateHandleArgs_read_def
    by (rule transacts_read transacts_read_u32 transacts_read_u64 transacts_built)+ simp
  then show ?thesis by (simp add: TruncateHandleArgs_bytes_def)
qed

lemma SetFileTimeArgs_read_spec [io_rules]:
  assumes "length (st_path a) \<le> 65535"
  shows "transacts V (SetFileTimeArgs_bytes a) [] (SetFileTimeArgs_read rd) a"
proof -
  have "transacts V (utf8_bytes (st_path a) @ be_bytes 8 (st_access_time a) @ be_bytes 8 (st_write_time a) @ [])
      [] (SetFileTimeArgs_read rd) a"
    unfolding SetFileTimeArgs_read_def
    by (rule transacts_read transacts_read_utf8_string transacts_read_u64 transacts_built assms)+ simp
  then show ?thesis by (simp add: SetFileTimeArgs_bytes_def)
qed

end

end
