(* ===== verification/Responses.thy ===== *)
theory Responses
  imports Requests
begin

text \<open>
  \<open>nandroid_shared/responses.{hpp,cpp}\<close>: the response codes, \<open>FileStat\<close> and \<open>DiskStats\<close>
  with their reading constructors, \<open>write\<close> methods and byte forms.
\<close>

datatype ResponseStatus =
    Success | GenericFailure | AccessDenied | NotADirectory | NotAFile | FileNotFound
  | FileExists | DirectoryNotEmpty | NoMoreEntries | OtherStatus u8

fun u8_of_ResponseStatus :: "ResponseStatus \<Rightarrow> u8" where
  "u8_of_ResponseStatus Success = 0"
| "u8_of_ResponseStatus GenericFailure = 1"
| "u8_of_ResponseStatus AccessDenied = 2"
| "u8_of_ResponseStatus NotADirectory = 3"
| "u8_of_ResponseStatus NotAFile = 4"
| "u8_of_ResponseStatus FileNotFound = 5"
| "u8_of_ResponseStatus FileExists = 6"
| "u8_of_ResponseStatus DirectoryNotEmpty = 7"
| "u8_of_ResponseStatus NoMoreEntries = 8"
| "u8_of_ResponseStatus (OtherStatus b) = b"

definition ResponseStatus_of_u8 :: "u8 \<Rightarrow> ResponseStatus" where
  "ResponseStatus_of_u8 b =
     (if b = 0 then Success else if b = 1 then GenericFailure else if b = 2 then AccessDenied
      else if b = 3 then NotADirectory else if b = 4 then NotAFile else if b = 5 then FileNotFound
      else if b = 6 then FileExists else if b = 7 then DirectoryNotEmpty
      else if b = 8 then NoMoreEntries else OtherStatus b)"

definition named_status :: "ResponseStatus \<Rightarrow> bool" where
  "named_status st = (case st of OtherStatus _ \<Rightarrow> False | _ \<Rightarrow> True)"

lemma ResponseStatus_of_u8_of [simp]:
  "named_status st \<Longrightarrow> ResponseStatus_of_u8 (u8_of_ResponseStatus st) = st"
  by (cases st) (simp_all add: named_status_def ResponseStatus_of_u8_def)

lemma u8_of_ResponseStatus_of_u8 [simp]: "u8_of_ResponseStatus (ResponseStatus_of_u8 b) = b"
  by (simp add: ResponseStatus_of_u8_def)

record FileStat =
  fs_mode :: u16
  fs_size :: u64
  fs_access_time :: u64
  fs_write_time :: u64

definition FileStat_default :: FileStat where
  "FileStat_default = \<lparr>fs_mode = 0, fs_size = 0, fs_access_time = 0, fs_write_time = 0\<rparr>"

definition FileStat_write :: "('s, 'z) endpoint_scheme writable \<Rightarrow> FileStat \<Rightarrow> (('s, 'z) endpoint_scheme, unit) M" where
  "FileStat_write wr st =
     thenM (write_u16 wr (fs_mode st))
    (thenM (write_u64 wr (fs_size st))
    (thenM (write_u64 wr (fs_access_time st))
           (write_u64 wr (fs_write_time st))))"

abbreviation FileStat_init :: "u16 \<Rightarrow> u64 \<Rightarrow> u64 \<Rightarrow> u64 \<Rightarrow> FileStat" where
  "FileStat_init mode len access_time write_time \<equiv> \<lparr>fs_mode = mode, fs_size = len, fs_access_time = access_time, fs_write_time = write_time\<rparr>"

definition FileStat_read :: "('s, 'z) endpoint_scheme readable \<Rightarrow> (('s, 'z) endpoint_scheme, FileStat) M" where
  "FileStat_read rd =
     bindM (read_u16 rd) (\<lambda>mode.
     bindM (read_u64 rd) (\<lambda>size.
     bindM (read_u64 rd) (\<lambda>atime.
     bindM (read_u64 rd) (\<lambda>wtime.
     returnM \<lparr>fs_mode = mode, fs_size = size, fs_access_time = atime, fs_write_time = wtime\<rparr>))))"

record DiskStats =
  free_bytes :: u64
  available_bytes :: u64
  total_bytes :: u64

definition DiskStats_default :: DiskStats where
  "DiskStats_default = \<lparr>free_bytes = 0, available_bytes = 0, total_bytes = 0\<rparr>"

abbreviation DiskStats_init :: "u64 \<Rightarrow> u64 \<Rightarrow> u64 \<Rightarrow> DiskStats" where
  "DiskStats_init free_b available_b total_b \<equiv> \<lparr>free_bytes = free_b, available_bytes = available_b, total_bytes = total_b\<rparr>"

definition DiskStats_read :: "('s, 'z) endpoint_scheme readable \<Rightarrow> (('s, 'z) endpoint_scheme, DiskStats) M" where
  "DiskStats_read rd =
     bindM (read_u64 rd) (\<lambda>free.
     bindM (read_u64 rd) (\<lambda>available.
     bindM (read_u64 rd) (\<lambda>total.
     returnM \<lparr>free_bytes = free, available_bytes = available, total_bytes = total\<rparr>)))"

definition DiskStats_write :: "('s, 'z) endpoint_scheme writable \<Rightarrow> DiskStats \<Rightarrow> (('s, 'z) endpoint_scheme, unit) M" where
  "DiskStats_write wr st =
     thenM (write_u64 wr (free_bytes st))
    (thenM (write_u64 wr (available_bytes st))
           (write_u64 wr (total_bytes st)))"

definition FileStat_bytes :: "FileStat \<Rightarrow> u8 list" where
  "FileStat_bytes st = be_bytes 2 (fs_mode st) @ be_bytes 8 (fs_size st)
     @ be_bytes 8 (fs_access_time st) @ be_bytes 8 (fs_write_time st)"

definition DiskStats_bytes :: "DiskStats \<Rightarrow> u8 list" where
  "DiskStats_bytes st = be_bytes 8 (free_bytes st) @ be_bytes 8 (available_bytes st)
     @ be_bytes 8 (total_bytes st)"

context stream_object
begin

lemma FileStat_write_spec [io_rules]: "transacts V [] (FileStat_bytes a) (FileStat_write wr a) ()"
  unfolding FileStat_write_def FileStat_bytes_def
  by (rule transacts_write io_rules)+

lemma DiskStats_write_spec [io_rules]: "transacts V [] (DiskStats_bytes a) (DiskStats_write wr a) ()"
  unfolding DiskStats_write_def DiskStats_bytes_def
  by (rule transacts_write io_rules)+

lemma FileStat_read_spec [io_rules]: "transacts V (FileStat_bytes a) [] (FileStat_read rd) a"
proof -
  have "transacts V (be_bytes 2 (fs_mode a) @ be_bytes 8 (fs_size a) @ be_bytes 8 (fs_access_time a)
      @ be_bytes 8 (fs_write_time a) @ []) [] (FileStat_read rd) a"
    unfolding FileStat_read_def
    by (rule transacts_read transacts_read_u16 transacts_read_u64 transacts_built)+ simp
  then show ?thesis by (simp add: FileStat_bytes_def)
qed

lemma DiskStats_read_spec [io_rules]: "transacts V (DiskStats_bytes a) [] (DiskStats_read rd) a"
proof -
  have "transacts V (be_bytes 8 (free_bytes a) @ be_bytes 8 (available_bytes a) @ be_bytes 8 (total_bytes a) @ [])
      [] (DiskStats_read rd) a"
    unfolding DiskStats_read_def
    by (rule transacts_read transacts_read_u64 transacts_built)+ simp
  then show ?thesis by (simp add: DiskStats_bytes_def)
qed

end

text \<open>From here on the codes are opaque: proofs compare statuses, not numbers.\<close>

declare u8_of_ResponseStatus.simps [simp del]

end
