(* ===== verification/Path_Utils.thy ===== *)
theory Path_Utils
  imports Prelude
begin

text \<open>
  \<open>nandroid_shared/path_utils.cpp\<close>: joining a directory and an entry name, and finding the
  parent of a path. The lemmas relate the two: which joins the parent function undoes, what
  the parent is in general, and which paths have none.
\<close>

section \<open>Definitions\<close>

text \<open>\<open>std::string::find_last_of(c)\<close>; \<open>None\<close> is \<open>npos\<close>.\<close>

definition find_last_of :: "string \<Rightarrow> char \<Rightarrow> nat option" where
  "find_last_of s c =
     (if c \<in> set s then Some (length s - 1 - length (takeWhile (\<lambda>x. x \<noteq> c) (rev s))) else None)"

definition get_full_path :: "string \<Rightarrow> string \<Rightarrow> string" where
  "get_full_path dir_path file_name =
     (let dir_path = (if \<not> ends_with dir_path ''/'' then dir_path @ ''/'' else dir_path)
      in dir_path @ file_name)"

definition get_parent_path :: "string \<Rightarrow> string option" where
  "get_parent_path path =
     (let path = (if ends_with path ''/'' then butlast path else path)
      in case find_last_of path (CHR ''/'') of
           None \<Rightarrow> None
         | Some last_separator_offset \<Rightarrow>
             (let path = take last_separator_offset path
              in if length path = 0 then None else Some path))"

section \<open>Lemmas\<close>

lemma ends_with_char: "ends_with s [c] \<longleftrightarrow> s \<noteq> [] \<and> last s = c"
proof (cases s rule: rev_cases)
  case Nil
  then show ?thesis by (simp add: ends_with_def)
next
  case (snoc t d)
  then show ?thesis by (auto simp: ends_with_def)
qed

lemma find_last_of_append:
  assumes "c \<notin> set t"
  shows "find_last_of (s @ c # t) c = Some (length s)"
proof -
  have "takeWhile (\<lambda>x. x \<noteq> c) (rev t @ c # rev s) = rev t"
    using assms by (subst takeWhile_append2) auto
  then show ?thesis by (simp add: find_last_of_def)
qed

lemma find_last_of_None: "find_last_of s c = None \<longleftrightarrow> c \<notin> set s"
  by (simp add: find_last_of_def)

lemma find_last_of_Some:
  assumes "find_last_of s c = Some n"
  obtains t u where "s = t @ c # u" and "c \<notin> set u" and "n = length t"
proof -
  have "c \<in> set s" using assms by (auto simp: find_last_of_def split: if_splits)
  then obtain t u where s: "s = t @ c # u" "c \<notin> set u"
    by (meson split_list_last)
  with find_last_of_append [of c u t] assms show thesis
    by (intro that) auto
qed

text \<open>The trailing separator that \<open>get_parent_path\<close> removes.\<close>

definition strip_slash :: "string \<Rightarrow> string" where
  "strip_slash path = (if ends_with path ''/'' then butlast path else path)"

lemma get_parent_path_join:
  assumes "CHR ''/'' \<notin> set f" and "f \<noteq> []"
  shows "get_parent_path (d @ CHR ''/'' # f) = (if d = [] then None else Some d)"
proof -
  have "last f \<noteq> CHR ''/''" using assms by (metis last_in_set)
  with assms show ?thesis
    by (simp add: get_parent_path_def ends_with_char find_last_of_append Let_def)
qed

lemma get_parent_path_Some:
  assumes "get_parent_path p = Some q"
  obtains f where "strip_slash p = q @ CHR ''/'' # f" and "CHR ''/'' \<notin> set f" and "q \<noteq> []"
proof -
  from assms obtain n where n: "find_last_of (strip_slash p) (CHR ''/'') = Some n"
    and q: "q = take n (strip_slash p)" "q \<noteq> []"
    by (auto simp: get_parent_path_def strip_slash_def Let_def split: option.splits if_splits)
  from n obtain t u where "strip_slash p = t @ CHR ''/'' # u" "CHR ''/'' \<notin> set u" "n = length t"
    by (rule find_last_of_Some)
  with q that show thesis by auto
qed

lemma length_strip_slash: "length (strip_slash p) \<le> length p"
  by (simp add: strip_slash_def)

text \<open>
  The parent of a path is a proper, non-empty prefix of it that ends right before the
  last separator of the path (a final separator not counted): parents are always shorter.
\<close>

lemma get_parent_path_prefix:
  assumes "get_parent_path p = Some q"
  shows "\<exists>f. strip_slash p = q @ CHR ''/'' # f \<and> CHR ''/'' \<notin> set f \<and> q \<noteq> [] \<and> length q < length p"
proof -
  from assms obtain f where f: "strip_slash p = q @ CHR ''/'' # f" "CHR ''/'' \<notin> set f" "q \<noteq> []"
    by (rule get_parent_path_Some)
  from arg_cong [OF f(1), of length] length_strip_slash [of p] have "length q < length p" by simp
  with f show ?thesis by blast
qed

text \<open>
  Joining an entry name to a directory and taking the parent gives the directory back,
  for every directory that does not end in a separator and every plain entry name; for the
  root directory the code finds no parent at all.
\<close>

lemma get_parent_of_full_path:
  assumes "CHR ''/'' \<notin> set f" and "f \<noteq> []" and "d \<noteq> []"
  shows "get_parent_path (get_full_path d f)
    = (if last d \<noteq> CHR ''/'' then Some d else if d = ''/'' then None else Some (butlast d))"
proof (cases "last d = CHR ''/''")
  case False
  then show ?thesis
    using assms by (simp add: get_full_path_def ends_with_char get_parent_path_join)
next
  case True
  then have d: "d = butlast d @ ''/''"
    using assms(3) by (metis append_butlast_last_id)
  have "get_full_path d f = butlast d @ CHR ''/'' # f"
    using True assms(3) d by (simp add: get_full_path_def ends_with_char)
  moreover have "butlast d = [] \<longleftrightarrow> d = ''/''"
    using d by auto
  ultimately show ?thesis
    using True assms by (simp add: get_parent_path_join)
qed

end
