(* ===== verification/Conversion.thy ===== *)
theory Conversion
  imports Responses
begin

text \<open>
  \<open>nandroidfs/conversion.cpp\<close>: response codes to \<open>NTSTATUS\<close>, file modes to attributes, Unix
  times to and from \<open>FILETIME\<close>, and path conversion. The transcoding between UTF-16 and
  UTF-8 (\<open>WideCharToMultiByte\<close> and the \<open>codecvt\<close> facet) is a parameter.
\<close>

unbundle bit_operations_syntax

section \<open>Definitions\<close>

text \<open>The \<open>NTSTATUS\<close> codes the program returns, by their names.\<close>

datatype NTSTATUS =
    STATUS_SUCCESS | STATUS_OBJECT_NAME_NOT_FOUND | STATUS_ACCESS_DENIED
  | STATUS_OBJECT_NAME_COLLISION | STATUS_NOT_A_DIRECTORY | STATUS_DIRECTORY_NOT_EMPTY
  | STATUS_UNSUCCESSFUL | STATUS_FILE_IS_A_DIRECTORY | STATUS_NOT_IMPLEMENTED

fun ntstatus_from_respstatus :: "ResponseStatus \<Rightarrow> NTSTATUS" where
  "ntstatus_from_respstatus Success = STATUS_SUCCESS"
| "ntstatus_from_respstatus FileNotFound = STATUS_OBJECT_NAME_NOT_FOUND"
| "ntstatus_from_respstatus AccessDenied = STATUS_ACCESS_DENIED"
| "ntstatus_from_respstatus FileExists = STATUS_OBJECT_NAME_COLLISION"
| "ntstatus_from_respstatus NotADirectory = STATUS_NOT_A_DIRECTORY"
| "ntstatus_from_respstatus DirectoryNotEmpty = STATUS_DIRECTORY_NOT_EMPTY"
| "ntstatus_from_respstatus _ = STATUS_UNSUCCESSFUL"

definition FILE_ATTRIBUTE_DIRECTORY :: u32 where
  "FILE_ATTRIBUTE_DIRECTORY = 0x10"

definition FILE_ATTRIBUTE_NORMAL :: u32 where
  "FILE_ATTRIBUTE_NORMAL = 0x80"

definition file_attributes_from_st_mode :: "u16 \<Rightarrow> u32" where
  "file_attributes_from_st_mode st_mode =
     (let file_type = st_mode AND 0xF000
      in if file_type = 0x4000 then FILE_ATTRIBUTE_DIRECTORY else FILE_ATTRIBUTE_NORMAL)"

record FILETIME =
  dwLowDateTime :: u32
  dwHighDateTime :: u32

definition EPOCH_DIFFERENCE :: u64 where
  "EPOCH_DIFFERENCE = 11644473600"

definition filetime_from_unix_time :: "u64 \<Rightarrow> FILETIME" where
  "filetime_from_unix_time unix_time =
     (let since_windows_epoch = unix_time + EPOCH_DIFFERENCE;
          win_epoch_valid_res = 10000000 * since_windows_epoch
      in \<lparr>dwLowDateTime = ucast win_epoch_valid_res,
          dwHighDateTime = ucast (drop_bit 32 win_epoch_valid_res)\<rparr>)"

definition unix_time_from_filetime :: "FILETIME \<Rightarrow> u64" where
  "unix_time_from_filetime file_time =
     (let file_time_u64 = push_bit 32 (ucast (dwHighDateTime file_time)) OR ucast (dwLowDateTime file_time);
          file_time_u64 = file_time_u64 div 10000000;
          signed_file_time = file_time_u64 - EPOCH_DIFFERENCE
      in word_of_int (max (sint signed_file_time) 0))"

text \<open>
  \<open>to_utf8\<close> is \<open>WideCharToMultiByte(CP_UTF8, 0, ..)\<close> without the terminator. A NUL-terminated
  \<open>LPCWSTR\<close> is the list of its units.
\<close>

definition replace_char :: "'a \<Rightarrow> 'a \<Rightarrow> 'a list \<Rightarrow> 'a list" where
  "replace_char old new = map (\<lambda>c. if c = old then new else c)"

definition win32_path_to_unix :: "(wstring \<Rightarrow> string) \<Rightarrow> wstring \<Rightarrow> string" where
  "win32_path_to_unix to_utf8 win32_path =
     (let unix_path = replace_char (CHR 0x5C) (CHR ''/'') (to_utf8 win32_path)
      in if length unix_path > 1 \<and> ends_with unix_path ''/'' then butlast unix_path else unix_path)"

text \<open>\<open>from_utf8\<close> is \<open>wstring_convert::from_bytes\<close>, which throws \<open>std::range_error\<close> on invalid input.\<close>

definition wstring_from_string :: "(string \<Rightarrow> wstring option) \<Rightarrow> string \<Rightarrow> exn + wstring" where
  "wstring_from_string from_utf8 str =
     (case from_utf8 str of None \<Rightarrow> Inl (RuntimeError ''bad conversion'') | Some w \<Rightarrow> Inr w)"

definition unix_path_to_win32 :: "(string \<Rightarrow> wstring option) \<Rightarrow> string \<Rightarrow> exn + wstring" where
  "unix_path_to_win32 from_utf8 unix_path =
     map_sum id (replace_char 0x2F 0x5C) (wstring_from_string from_utf8 unix_path)"

section \<open>Lemmas\<close>

lemma u64_halves: "push_bit 32 (ucast (ucast (drop_bit 32 w) :: u32)) OR ucast (ucast w :: u32) = (w :: u64)"
  by (rule bit_word_eqI) (auto simp: bit_simps)

lemma word_mult_div_cancel:
  fixes t :: u64
  assumes "uint t * 10000000 < 2 ^ 64"
  shows "(10000000 * t) div 10000000 = t"
proof -
  have "uint (10000000 * t) = uint t * 10000000"
    using assms by (simp add: uint_word_ariths mult.commute)
  then show ?thesis
    by (intro word_uint_eqI) (simp add: uint_div)
qed

lemma sint_word_of_int_u64: "- (2 ^ 63) \<le> d \<Longrightarrow> d < 2 ^ 63 \<Longrightarrow> sint (word_of_int d :: u64) = d"
  by (simp add: int_word_sint)

lemma uint_since_windows_epoch:
  assumes "uint t < 1833029933770"
  shows "uint (t + EPOCH_DIFFERENCE) = uint t + 11644473600"
  using assms by (simp add: EPOCH_DIFFERENCE_def uint_word_ariths)

text \<open>
  C39: a Unix time survives the trip to a Windows \<open>FILETIME\<close> and back, for every time
  before the year 60056 (where \<open>FILETIME\<close>'s 64 bits of 100 ns end).
\<close>

theorem unix_time_roundtrip:
  assumes "uint t < 1833029933770"
  shows "unix_time_from_filetime (filetime_from_unix_time t) = t"
proof -
  let ?w = "t + EPOCH_DIFFERENCE"
  have "uint ?w * 10000000 < 2 ^ 64"
    using assms uint_since_windows_epoch [OF assms] by simp
  then have "(10000000 * ?w) div 10000000 - EPOCH_DIFFERENCE = t"
    by (simp only: word_mult_div_cancel) simp
  moreover have "max (sint t) 0 = uint t"
    using assms sint_word_of_int_u64 [of "uint t"] unsigned_greater_eq [of t, where 'a = int] by simp
  ultimately show ?thesis
    by (simp add: unix_time_from_filetime_def filetime_from_unix_time_def Let_def u64_halves)
qed

theorem unix_time_roundtrip_witness:
  "uint (1700000000 :: u64) < 1833029933770
   \<and> unix_time_from_filetime (filetime_from_unix_time 1700000000) = 1700000000"
  using unix_time_roundtrip [of 1700000000] by simp

lemma uint_u64_of_halves:
  "uint (push_bit 32 (ucast (hi :: u32)) OR ucast (lo :: u32) :: u64) = uint hi * 2 ^ 32 + uint lo"
proof -
  have "push_bit 32 (ucast hi) OR ucast lo = (push_bit 32 (ucast hi) + ucast lo :: u64)"
    by (rule disjunctive_add [symmetric]) (auto simp: bit_simps dest: bit_imp_le_length)
  moreover have b: "uint hi < 2 ^ 32" "uint lo < 2 ^ 32"
    using uint_bounded [of hi] uint_bounded [of lo] by simp_all
  moreover have "uint (ucast hi :: u64) = uint hi" "uint (ucast lo :: u64) = uint lo"
    using b by (simp_all add: unsigned_ucast_eq take_bit_int_eq_self)
  ultimately show ?thesis
    by (simp add: push_bit_eq_mult uint_word_ariths)
qed

text \<open>
  A \<open>FILETIME\<close> is converted to whole seconds since 1970, clamped to 0 before 1970;
  the result, read as a signed time, is never negative, so it never collides with the
  value \<open>-1\<close> that means "do not set".
\<close>

lemma unix_time_from_filetime_value:
  "uint (unix_time_from_filetime ft)
     = max 0 ((uint (dwHighDateTime ft) * 2 ^ 32 + uint (dwLowDateTime ft)) div 10000000 - 11644473600)
   \<and> sint (unix_time_from_filetime ft) \<ge> 0"
proof -
  let ?x = "push_bit 32 (ucast (dwHighDateTime ft)) OR ucast (dwLowDateTime ft) :: u64"
  define d where "d = (uint (dwHighDateTime ft) * 2 ^ 32 + uint (dwLowDateTime ft)) div 10000000 - 11644473600"
  have d: "uint (?x div 10000000) - 11644473600 = d"
    by (simp add: uint_div uint_u64_of_halves d_def)
  have b: "0 \<le> uint (?x div 10000000)" "uint (?x div 10000000) < 2 ^ 62"
    using uint_bounded [of ?x] by (simp, simp add: uint_div)
  have "- (2 ^ 63) \<le> y - 11644473600 \<and> y - 11644473600 < (2 ^ 63 :: int)"
    if "0 \<le> y" "y < 2 ^ 62" for y :: int
    using that by simp
  from this [OF b] have bd: "- (2 ^ 63) \<le> d" "d < 2 ^ 63"
    by (simp_all only: d)
  have "?x div 10000000 - EPOCH_DIFFERENCE = word_of_int d"
    unfolding d [symmetric] by (simp add: EPOCH_DIFFERENCE_def)
  then have "unix_time_from_filetime ft = word_of_int (max 0 d)"
    using bd by (simp add: unix_time_from_filetime_def sint_word_of_int_u64 max.commute)
  moreover have "uint (word_of_int (max 0 d) :: u64) = max 0 d"
    using bd by (simp add: uint_word_of_int)
  ultimately show ?thesis
    using bd by (simp add: d_def sint_word_of_int_u64)
qed

end
