(* ===== verification/Timed_Cache.thy ===== *)
theory Timed_Cache
  imports Prelude "HOL-Library.AList"
begin

text \<open>
  \<open>nandroidfs/TimedCache.hpp\<close>: the cache whose entries expire. Times are the nanosecond
  ticks of \<open>steady_clock\<close>, durations are milliseconds; a method that reads the clock takes
  the readings as arguments. The \<open>unordered_map\<close> is an association list in its iteration
  order. The interface its client relies on is the locale \<open>expiring_cache\<close>, which says
  what a lookup returns after each operation; the main theorem is that after any history of
  operations a lookup returns the last value stored for the key, unless it was invalidated
  since or is older than the validity period, so the periodic cleaning is never observable.
\<close>

section \<open>Definitions\<close>

record 'v CachedData =
  data :: 'v
  fetched_at :: int

record 'v TimedCache =
  cache_scan_interval :: int
  cached_item_valid_for :: int
  total_cache_hits :: u64
  total_data_fetched :: u64
  last_cache_scan :: int
  cached_data :: "(string \<times> 'v CachedData) list"

record CacheStatistics =
  st_total_cache_hits :: u64
  st_total_data_fetched :: u64

text \<open>A duration in milliseconds, in clock ticks.\<close>

definition ms :: "int \<Rightarrow> int" where
  "ms n = 1000000 * n"

definition TimedCache_new :: "int \<Rightarrow> int \<Rightarrow> int \<Rightarrow> 'v TimedCache" where
  "TimedCache_new now scan_interval valid_for =
     \<lparr>cache_scan_interval = scan_interval, cached_item_valid_for = valid_for,
      total_cache_hits = 0, total_data_fetched = 0, last_cache_scan = now, cached_data = []\<rparr>"

fun clean_entries :: "int \<Rightarrow> int \<Rightarrow> (string \<times> 'v CachedData) list \<Rightarrow> (string \<times> 'v CachedData) list" where
  "clean_entries now valid_for [] = []"
| "clean_entries now valid_for ((key, datum) # rest) =
     (if now - fetched_at datum > ms valid_for then clean_entries now valid_for rest
      else (key, datum) # clean_entries now valid_for rest)"

definition clean_cache :: "int \<Rightarrow> 'v TimedCache \<Rightarrow> 'v TimedCache" where
  "clean_cache now c = c\<lparr>cached_data := clean_entries now (cached_item_valid_for c) (cached_data c)\<rparr>"

definition get_cached :: "int \<Rightarrow> string \<Rightarrow> 'v TimedCache \<Rightarrow> 'v option \<times> 'v TimedCache" where
  "get_cached now file_path c =
     (let c = c\<lparr>total_data_fetched := total_data_fetched c + 1\<rparr>
      in case map_of (cached_data c) file_path of
           Some cached \<Rightarrow>
             (if now - fetched_at cached \<le> ms (cached_item_valid_for c)
              then (Some (data cached), c\<lparr>total_cache_hits := total_cache_hits c + 1\<rparr>)
              else (None, c))
         | None \<Rightarrow> (None, c))"

text \<open>\<open>now2\<close> is the second clock reading, made by \<open>clean_cache\<close> when it is called.\<close>

definition cache :: "int \<Rightarrow> int \<Rightarrow> string \<Rightarrow> 'v \<Rightarrow> 'v TimedCache \<Rightarrow> 'v TimedCache" where
  "cache now now2 file_path datum c =
     (let c = c\<lparr>cached_data := AList.update file_path \<lparr>data = datum, fetched_at = now\<rparr> (cached_data c)\<rparr>
      in if now - last_cache_scan c > ms (cache_scan_interval c)
         then clean_cache now2 (c\<lparr>last_cache_scan := now\<rparr>)
         else c)"

definition invalidate :: "string \<Rightarrow> 'v TimedCache \<Rightarrow> 'v TimedCache" where
  "invalidate file_path c =
     (if map_of (cached_data c) file_path = None then c
      else c\<lparr>cached_data := AList.delete file_path (cached_data c)\<rparr>)"

definition get_cache_statistics :: "'v TimedCache \<Rightarrow> CacheStatistics" where
  "get_cache_statistics c =
     \<lparr>st_total_cache_hits = total_cache_hits c, st_total_data_fetched = total_data_fetched c\<rparr>"

section \<open>The interface\<close>

text \<open>
  \<open>entry c k\<close> is the stored value of a key with the time it was stored, whether it has
  expired or not; \<open>window c\<close> is the validity period. A \<open>get\<close> or \<open>put\<close> may drop entries, but
  only expired ones; the caches of \<open>keeping_cache\<close> drop nothing on a \<open>get\<close>.
\<close>

locale expiring_cache =
  fixes get :: "int \<Rightarrow> string \<Rightarrow> 'c \<Rightarrow> 'v option \<times> 'c"
    and put :: "int \<Rightarrow> int \<Rightarrow> string \<Rightarrow> 'v \<Rightarrow> 'c \<Rightarrow> 'c"
    and drop_key :: "string \<Rightarrow> 'c \<Rightarrow> 'c"
    and entry :: "'c \<Rightarrow> string \<Rightarrow> ('v \<times> int) option"
    and window :: "'c \<Rightarrow> int"
    and inv :: "'c \<Rightarrow> bool"
  assumes get_value: "inv c \<Longrightarrow> fst (get now k c)
      = (case entry c k of None \<Rightarrow> None | Some (v, t) \<Rightarrow> if now - t \<le> window c then Some v else None)"
    and get_entry: "inv c \<Longrightarrow> entry (snd (get now k c)) k' = entry c k'
      \<or> (entry (snd (get now k c)) k' = None \<and> (\<exists>w t. entry c k' = Some (w, t) \<and> now - t > window c))"
    and get_inv: "inv c \<Longrightarrow> inv (snd (get now k c)) \<and> window (snd (get now k c)) = window c"
    and put_entry: "inv c \<Longrightarrow> entry (put now now2 k v c) k' = ((entry c)(k \<mapsto> (v, now))) k'
      \<or> (entry (put now now2 k v c) k' = None
         \<and> (\<exists>w t. ((entry c)(k \<mapsto> (v, now))) k' = Some (w, t) \<and> now2 - t > window c))"
    and put_keeps: "inv c \<Longrightarrow> inv (put now now2 k v c) \<and> window (put now now2 k v c) = window c"
    and drop_entry: "inv c \<Longrightarrow> entry (drop_key k c) = (entry c)(k := None)"
    and drop_keeps: "inv c \<Longrightarrow> inv (drop_key k c) \<and> window (drop_key k c) = window c"

locale keeping_cache = expiring_cache +
  assumes get_same: "inv c \<Longrightarrow> entry (snd (get now k c)) = entry c"
begin

lemma get_keeps: "inv c \<Longrightarrow> inv (snd (get now k c)) \<and> entry (snd (get now k c)) = entry c
    \<and> window (snd (get now k c)) = window c"
  by (simp add: get_same get_inv)

end

text \<open>Histories: the operations of a client in order, with the clock readings they made.\<close>

datatype 'v cache_op = Lookup int string | Store int int string 'v | Invalidate string

text \<open>The clock readings of a history, oldest first.\<close>

fun readings :: "'v cache_op list \<Rightarrow> int list" where
  "readings [] = []"
| "readings (Lookup now k # ops) = now # readings ops"
| "readings (Store now now2 k v # ops) = now # now2 # readings ops"
| "readings (Invalidate k # ops) = readings ops"

text \<open>The specification: the last value stored for a key and not invalidated since.\<close>

fun last_stored :: "('v \<times> int) option \<Rightarrow> string \<Rightarrow> 'v cache_op list \<Rightarrow> ('v \<times> int) option" where
  "last_stored cur k [] = cur"
| "last_stored cur k (Lookup now k' # ops) = last_stored cur k ops"
| "last_stored cur k (Store now now2 k' v # ops) = last_stored (if k' = k then Some (v, now) else cur) k ops"
| "last_stored cur k (Invalidate k' # ops) = last_stored (if k' = k then None else cur) k ops"

definition fresh_value :: "int \<Rightarrow> int \<Rightarrow> ('v \<times> int) option \<Rightarrow> 'v option" where
  "fresh_value w now e = (case e of None \<Rightarrow> None | Some (v, t) \<Rightarrow> if now - t \<le> w then Some v else None)"

text \<open>The results of the lookups of a history, by the specification.\<close>

fun spec_answers :: "int \<Rightarrow> (string \<Rightarrow> ('v \<times> int) option) \<Rightarrow> 'v cache_op list \<Rightarrow> 'v option list" where
  "spec_answers w cur [] = []"
| "spec_answers w cur (Lookup now k # ops) = fresh_value w now (cur k) # spec_answers w cur ops"
| "spec_answers w cur (Store now now2 k v # ops) = spec_answers w (cur(k \<mapsto> (v, now))) ops"
| "spec_answers w cur (Invalidate k # ops) = spec_answers w (cur(k := None)) ops"

context expiring_cache
begin

fun answers :: "'v cache_op list \<Rightarrow> 'c \<Rightarrow> 'v option list" where
  "answers [] c = []"
| "answers (Lookup now k # ops) c = fst (get now k c) # answers ops (snd (get now k c))"
| "answers (Store now now2 k v # ops) c = answers ops (put now now2 k v c)"
| "answers (Invalidate k # ops) c = answers ops (drop_key k c)"

fun run :: "'v cache_op list \<Rightarrow> 'c \<Rightarrow> 'c" where
  "run [] c = c"
| "run (Lookup now k # ops) c = run ops (snd (get now k c))"
| "run (Store now now2 k v # ops) c = run ops (put now now2 k v c)"
| "run (Invalidate k # ops) c = run ops (drop_key k c)"

text \<open>
  An entry agrees with the specification up to an expired entry having been dropped:
  \<open>T\<close> is the latest reading so far.
\<close>

definition agrees :: "int \<Rightarrow> int \<Rightarrow> ('v \<times> int) option \<Rightarrow> ('v \<times> int) option \<Rightarrow> bool" where
  "agrees w T e cur \<longleftrightarrow> e = cur \<or> (e = None \<and> (\<exists>v t. cur = Some (v, t) \<and> T - t > w))"

lemma agrees_later: "agrees w T e cur \<Longrightarrow> T \<le> T' \<Longrightarrow> agrees w T' e cur"
  by (auto simp: agrees_def)

lemma agrees_fresh: "agrees w T e cur \<Longrightarrow> T \<le> now \<Longrightarrow> fresh_value w now e = fresh_value w now cur"
  by (auto simp: agrees_def fresh_value_def)

lemma agrees_put:
  assumes "inv c" and "agrees (window c) T (entry c k') cur" and "T \<le> now" and "now \<le> now2"
  shows "agrees (window c) now2 (entry (put now now2 k v c) k') (if k = k' then Some (v, now) else cur)"
  using put_entry [OF assms(1), of now now2 k v k'] assms(2-4)
  by (fastforce simp: agrees_def split: if_splits)

lemma agrees_get:
  assumes "inv c" and "agrees (window c) T (entry c k') cur" and "T \<le> now"
  shows "agrees (window c) now (entry (snd (get now k c)) k') cur"
  using get_entry [OF assms(1), of now k k'] assms(2,3) by (fastforce simp: agrees_def)

lemma agrees_drop:
  assumes "inv c" and "agrees (window c) T (entry c k') cur"
  shows "agrees (window c) T (entry (drop_key k c) k') (if k = k' then None else cur)"
  using assms by (auto simp: drop_entry agrees_def)

lemma get_fresh:
  assumes "inv c" and "agrees (window c) T (entry c k) cur" and "T \<le> now"
  shows "fst (get now k c) = fresh_value (window c) now cur"
  using agrees_fresh [OF assms(2,3)] get_value [OF assms(1), of now k] by (simp add: fresh_value_def)

theorem run_refines:
  assumes "inv c" and "agrees (window c) T (entry c k) cur"
    and "sorted (T # readings ops @ [now])"
  shows "inv (run ops c) \<and> window (run ops c) = window c
    \<and> fst (get now k (run ops c)) = fresh_value (window c) now (last_stored cur k ops)"
  using assms
proof (induction ops arbitrary: c T cur)
  case Nil
  then show ?case
    by (simp add: get_fresh)
next
  case (Cons op ops)
  show ?case
  proof (cases op)
    case (Lookup t k')
    with Cons.prems have "agrees (window c) t (entry (snd (get t k' c)) k) cur"
      by (intro agrees_get) auto
    with Cons.prems Lookup show ?thesis
      using get_inv [OF Cons.prems(1), of t k'] Cons.IH [of "snd (get t k' c)" t cur] by simp
  next
    case (Store t t2 k' v)
    have "agrees (window c) t2 (entry (put t t2 k' v c) k) (if k' = k then Some (v, t) else cur)"
      using Cons.prems Store by (intro agrees_put) auto
    then show ?thesis
      using Cons.prems Store put_keeps [OF Cons.prems(1), of t t2 k' v]
        Cons.IH [of "put t t2 k' v c" t2 "if k' = k then Some (v, t) else cur"] by simp
  next
    case (Invalidate k')
    have "agrees (window c) T (entry (drop_key k' c) k) (if k' = k then None else cur)"
      using Cons.prems by (intro agrees_drop)
    then show ?thesis
      using Cons.prems Invalidate drop_keeps [OF Cons.prems(1), of k']
        Cons.IH [of "drop_key k' c" T "if k' = k then None else cur"] by simp
  qed
qed

theorem answers_spec:
  assumes "inv c" and "\<And>k. agrees (window c) T (entry c k) (cur k)" and "sorted (T # readings ops)"
  shows "answers ops c = spec_answers (window c) cur ops"
  using assms
proof (induction ops arbitrary: c T cur)
  case (Cons op ops)
  show ?case
  proof (cases op)
    case (Lookup t k)
    with Cons.prems have "agrees (window c) t (entry (snd (get t k c)) k') (cur k')" for k'
      by (intro agrees_get) auto
    moreover from Cons.prems Lookup have "fst (get t k c) = fresh_value (window c) t (cur k)"
      by (intro get_fresh) auto
    ultimately show ?thesis
      using Cons.prems Lookup get_inv [OF Cons.prems(1), of t k] Cons.IH [of "snd (get t k c)" t cur] by simp
  next
    case (Store t t2 k v)
    have "agrees (window c) t2 (entry (put t t2 k v c) k') ((cur(k \<mapsto> (v, t))) k')" for k'
      using Cons.prems Store agrees_put [of c T k' "cur k'" t t2 k v] by auto
    then show ?thesis
      using Cons.prems Store put_keeps [OF Cons.prems(1), of t t2 k v]
        Cons.IH [of "put t t2 k v c" t2 "cur(k \<mapsto> (v, t))"] by (simp add: fun_upd_def)
  next
    case (Invalidate k)
    have "agrees (window c) T (entry (drop_key k c) k') ((cur(k := None)) k')" for k'
      using Cons.prems agrees_drop [of c T k' "cur k'" k] by auto
    then show ?thesis
      using Cons.prems Invalidate drop_keeps [OF Cons.prems(1), of k]
        Cons.IH [of "drop_key k c" T "cur(k := None)"] by (simp add: fun_upd_def)
  qed
qed simp

end

section \<open>TimedCache implements the interface\<close>

definition cache_entry :: "'v TimedCache \<Rightarrow> string \<Rightarrow> ('v \<times> int) option" where
  "cache_entry c k = map_option (\<lambda>d. (data d, fetched_at d)) (map_of (cached_data c) k)"

definition cache_window :: "'v TimedCache \<Rightarrow> int" where
  "cache_window c = ms (cached_item_valid_for c)"

text \<open>An \<open>unordered_map\<close> has one entry per key.\<close>

definition cache_inv :: "'v TimedCache \<Rightarrow> bool" where
  "cache_inv c \<longleftrightarrow> distinct (map fst (cached_data c))"

lemma clean_entries_filter:
  "clean_entries now valid_for es = filter (\<lambda>(k, d). \<not> now - fetched_at d > ms valid_for) es"
  by (induction now valid_for es rule: clean_entries.induct) auto

lemma distinct_clean_entries: "distinct (map fst es) \<Longrightarrow> distinct (map fst (clean_entries now valid_for es))"
  by (simp add: clean_entries_filter distinct_map_filter)

lemma map_of_clean_entries:
  "distinct (map fst es) \<Longrightarrow> map_of (clean_entries now valid_for es) k
     = (case map_of es k of None \<Rightarrow> None
        | Some d \<Rightarrow> if now - fetched_at d > ms valid_for then None else Some d)"
proof (induction now valid_for es rule: clean_entries.induct)
  case (2 now valid_for key datum rest)
  then have "key \<notin> dom (map_of rest)" by (auto simp: dom_map_of_conv_image_fst)
  with 2 show ?case by (auto simp: domIff split: option.splits)
qed simp

lemma cache_inv_ops:
  assumes "cache_inv c"
  shows "cache_inv (snd (get_cached now k c))" and "cache_inv (cache now now2 k v c)"
    and "cache_inv (invalidate k c)"
  using assms
  by (auto simp: cache_inv_def get_cached_def cache_def clean_cache_def invalidate_def Let_def
      distinct_clean_entries distinct_update AList.distinct_delete split: option.splits)

interpretation timed: keeping_cache get_cached cache invalidate cache_entry cache_window cache_inv
proof
  fix c :: "'v TimedCache" and now now2 :: int and k k' :: string and v :: 'v
  assume inv: "cache_inv c"
  show "fst (get_cached now k c) = (case cache_entry c k of None \<Rightarrow> None
      | Some (v, t) \<Rightarrow> if now - t \<le> cache_window c then Some v else None)"
    by (auto simp: get_cached_def cache_entry_def cache_window_def Let_def split: option.splits)
  show same: "cache_entry (snd (get_cached now k c)) = cache_entry c"
    by (auto simp: get_cached_def cache_entry_def Let_def fun_eq_iff split: option.splits)
  then show "cache_entry (snd (get_cached now k c)) k' = cache_entry c k'
      \<or> (cache_entry (snd (get_cached now k c)) k' = None
         \<and> (\<exists>w t. cache_entry c k' = Some (w, t) \<and> now - t > cache_window c))"
    by simp
  show "cache_inv (snd (get_cached now k c)) \<and> cache_window (snd (get_cached now k c)) = cache_window c"
    using cache_inv_ops(1) [OF inv] by (auto simp: get_cached_def cache_window_def Let_def split: option.splits)
  show "cache_entry (cache now now2 k v c) k' = ((cache_entry c)(k \<mapsto> (v, now))) k'
      \<or> (cache_entry (cache now now2 k v c) k' = None
         \<and> (\<exists>w t. ((cache_entry c)(k \<mapsto> (v, now))) k' = Some (w, t) \<and> now2 - t > cache_window c))"
    using inv by (auto simp: cache_def clean_cache_def cache_inv_def cache_entry_def cache_window_def Let_def
        map_of_clean_entries distinct_update update_conv' split: option.splits)
  show "cache_inv (cache now now2 k v c) \<and> cache_window (cache now now2 k v c) = cache_window c"
    using cache_inv_ops(2) [OF inv] by (simp add: cache_def clean_cache_def cache_window_def Let_def)
  show "cache_entry (invalidate k c) = (cache_entry c)(k := None)"
    by (auto simp: invalidate_def cache_entry_def fun_eq_iff delete_conv')
  show "cache_inv (invalidate k c) \<and> cache_window (invalidate k c) = cache_window c"
    using cache_inv_ops(3) [OF inv] by (simp add: invalidate_def cache_window_def)
qed

text \<open>
  \<open>invalidate\<close> looks for the key under the shared lock, releases it, and takes the unique lock to
  erase the entry, so another thread may change the cache in between. Whatever it does, the
  invalidation is one step: of the cache that was looked at when the key was missing, and of the
  cache that is there when the entry is erased otherwise.
\<close>

definition invalidate_erase :: "string \<Rightarrow> 'v TimedCache \<Rightarrow> 'v TimedCache" where
  "invalidate_erase file_path c = c\<lparr>cached_data := AList.delete file_path (cached_data c)\<rparr>"

lemma invalidate_one_step:
  "invalidate k c = c" if "map_of (cached_data c) k = None"
  "invalidate_erase k c' = invalidate k c'"
  using that by (auto simp: invalidate_def invalidate_erase_def map_of_eq_None_iff delete_id)

section \<open>Histories of a TimedCache\<close>

fun run_ops :: "'v cache_op list \<Rightarrow> 'v TimedCache \<Rightarrow> 'v TimedCache" where
  "run_ops [] c = c"
| "run_ops (Lookup now k # ops) c = run_ops ops (snd (get_cached now k c))"
| "run_ops (Store now now2 k v # ops) c = run_ops ops (cache now now2 k v c)"
| "run_ops (Invalidate k # ops) c = run_ops ops (invalidate k c)"

lemma run_ops_timed: "run_ops ops c = timed.run ops c"
  by (induction ops c rule: run_ops.induct) auto

text \<open>
  C4: for a new cache and any history of lookups, stores and invalidations whose clock
  readings never go back, a lookup returns exactly the last value stored for its key since
  the last invalidation of that key, provided it was stored at most the validity period ago,
  and nothing otherwise; in particular cleaning never removes an entry that could be returned.
\<close>

theorem TimedCache_lookup:
  fixes ops :: "'v cache_op list"
  assumes "sorted (t0 # readings ops @ [now])"
  shows "fst (get_cached now k (run_ops ops (TimedCache_new t0 scan_interval valid_for)))
    = fresh_value (ms valid_for) now (last_stored None k ops)"
proof -
  let ?c = "TimedCache_new t0 scan_interval valid_for :: 'v TimedCache"
  have "cache_inv ?c" "cache_entry ?c k = None" "cache_window ?c = ms valid_for"
    by (simp_all add: cache_inv_def cache_entry_def cache_window_def TimedCache_new_def)
  with timed.run_refines [of ?c t0 k None ops now] assms show ?thesis
    by (simp add: run_ops_timed timed.agrees_def)
qed

theorem TimedCache_lookup_witness:
  "fst (get_cached 150000000 ''/a'' (run_ops [Store 0 0 ''/a'' (1::nat), Store 10 10 ''/b'' 2,
      Lookup 20 ''/a'', Invalidate ''/b''] (TimedCache_new 0 5000 200))) = Some 1
   \<and> fst (get_cached 300000000 ''/a'' (run_ops [Store 0 0 ''/a'' (1::nat)] (TimedCache_new 0 5000 200))) = None"
proof -
  have "sorted (0 # readings [Store 0 0 ''/a'' (1::nat), Store 10 10 ''/b'' 2,
      Lookup 20 ''/a'', Invalidate ''/b''] @ [150000000])" by simp
  from TimedCache_lookup [OF this, of "''/a''" 5000 200]
  have "fst (get_cached 150000000 ''/a'' (run_ops [Store 0 0 ''/a'' (1::nat), Store 10 10 ''/b'' 2,
      Lookup 20 ''/a'', Invalidate ''/b''] (TimedCache_new 0 5000 200))) = Some 1"
    by (simp add: fresh_value_def ms_def)
  moreover have "sorted (0 # readings [Store 0 0 ''/a'' (1::nat)] @ [300000000])" by simp
  from TimedCache_lookup [OF this, of "''/a''" 5000 200]
  have "fst (get_cached 300000000 ''/a'' (run_ops [Store 0 0 ''/a'' (1::nat)] (TimedCache_new 0 5000 200))) = None"
    by (simp add: fresh_value_def ms_def)
  ultimately show ?thesis by simp
qed

text \<open>
  The statistics of a cache count what they say: every lookup adds one to the requests
  and one to the hits exactly when it returns a value, and changes nothing else (an entry
  that is found to be out of date is not removed by the lookup).
\<close>

lemma get_cached_statistics:
  "get_cache_statistics (snd (get_cached now k c)) =
     \<lparr>st_total_cache_hits = total_cache_hits c + of_bool (fst (get_cached now k c) \<noteq> None),
      st_total_data_fetched = total_data_fetched c + 1\<rparr>
   \<and> cached_data (snd (get_cached now k c)) = cached_data c
   \<and> last_cache_scan (snd (get_cached now k c)) = last_cache_scan c"
  by (auto simp: get_cached_def get_cache_statistics_def Let_def split: option.splits)

end
