(* ===== verification/Connection.thy ===== *)
theory Connection
  imports Sockets Responses Path_Utils Conversion Timed_Cache
begin

text \<open>
  \<open>nandroidfs/Connection.cpp\<close>: the computer's side of the protocol, with the stat cache and
  the directory listing cache in front of it. Each request function is one computation; the
  theories \<open>Request_Programs\<close> and \<open>Concurrency\<close> cut it into its actions and interleave those
  of several threads. The clock is a parameter:
  \<open>steady_clock env n\<close> is the value of its \<open>n\<close>-th reading.
\<close>

section \<open>State\<close>

record 's Connection = "'s endpoint" +
  stat_cache :: "FileStat TimedCache"
  dir_list_cache :: "string list TimedCache"
  clock_reads :: nat

record 's conn_env =
  winsock :: "('s, int) socket_api"
  steady_clock :: "nat \<Rightarrow> int"
  to_utf8 :: "wstring \<Rightarrow> string"
  from_utf8 :: "string \<Rightarrow> wstring option"

definition STAT_CACHE_PERIOD :: int where
  "STAT_CACHE_PERIOD = 200"

definition STAT_SCAN_PERIOD :: int where
  "STAT_SCAN_PERIOD = 5000"

definition CONN_BUFFER_SIZE :: int where
  "CONN_BUFFER_SIZE = 8192"

definition HANDSHAKE_DATA :: u32 where
  "HANDSHAKE_DATA = 0xFAFE5ABE"

text \<open>The member initialisers of the constructor, on the connected socket.\<close>

definition Connection_init :: "'s conn_env \<Rightarrow> 's \<Rightarrow> 's Connection" where
  "Connection_init env sock =
     \<lparr>socket = sock, reader = DataReader CONN_BUFFER_SIZE, writer = DataWriter CONN_BUFFER_SIZE,
      stat_cache = TimedCache_new (steady_clock env 0) STAT_SCAN_PERIOD STAT_CACHE_PERIOD,
      dir_list_cache = TimedCache_new (steady_clock env 1) STAT_SCAN_PERIOD STAT_CACHE_PERIOD,
      clock_reads = 2\<rparr>"

abbreviation conn_read :: "'s conn_env \<Rightarrow> ('s, 'z) endpoint_scheme readable" where
  "conn_read env \<equiv> Connection_read (winsock env)"

abbreviation conn_write :: "'s conn_env \<Rightarrow> ('s, 'z) endpoint_scheme writable" where
  "conn_write env \<equiv> Connection_write (winsock env)"

section \<open>Cache accesses\<close>

definition stat_cache_get :: "'s conn_env \<Rightarrow> string \<Rightarrow> ('s Connection, FileStat option) M" where
  "stat_cache_get env path = (\<lambda>s.
     case get_cached (steady_clock env (clock_reads s)) path (stat_cache s) of
       (res, c) \<Rightarrow> Some (Inr res, s\<lparr>stat_cache := c, clock_reads := clock_reads s + 1\<rparr>))"

definition stat_cache_put :: "'s conn_env \<Rightarrow> string \<Rightarrow> FileStat \<Rightarrow> ('s Connection, unit) M" where
  "stat_cache_put env path st = modifyM (\<lambda>s.
     s\<lparr>stat_cache := cache (steady_clock env (clock_reads s)) (steady_clock env (clock_reads s + 1)) path st (stat_cache s),
       clock_reads := clock_reads s + 2\<rparr>)"

definition stat_cache_invalidate :: "string \<Rightarrow> ('s Connection, unit) M" where
  "stat_cache_invalidate path = modifyM (\<lambda>s. s\<lparr>stat_cache := invalidate path (stat_cache s)\<rparr>)"

definition dir_cache_get :: "'s conn_env \<Rightarrow> string \<Rightarrow> ('s Connection, string list option) M" where
  "dir_cache_get env path = (\<lambda>s.
     case get_cached (steady_clock env (clock_reads s)) path (dir_list_cache s) of
       (res, c) \<Rightarrow> Some (Inr res, s\<lparr>dir_list_cache := c, clock_reads := clock_reads s + 1\<rparr>))"

definition dir_cache_put :: "'s conn_env \<Rightarrow> string \<Rightarrow> string list \<Rightarrow> ('s Connection, unit) M" where
  "dir_cache_put env path names = modifyM (\<lambda>s.
     s\<lparr>dir_list_cache := cache (steady_clock env (clock_reads s)) (steady_clock env (clock_reads s + 1)) path names (dir_list_cache s),
       clock_reads := clock_reads s + 2\<rparr>)"

definition invalidate_parent_dir :: "string \<Rightarrow> ('s Connection, unit) M" where
  "invalidate_parent_dir path =
     (case get_parent_path path of
        None \<Rightarrow> returnM ()
      | Some parent \<Rightarrow> modifyM (\<lambda>s. s\<lparr>dir_list_cache := invalidate parent (dir_list_cache s)\<rparr>))"

section \<open>Requests\<close>

definition handshake :: "'s conn_env \<Rightarrow> ('s Connection, unit) M" where
  "handshake env =
     thenM (write_u32 (conn_write env) HANDSHAKE_DATA)
    (thenM (flush (conn_write env))
    (bindM (read_u32 (conn_read env)) (\<lambda>received_data.
       if received_data = HANDSHAKE_DATA then returnM ()
       else throwM (RuntimeError ''Failed handshake! Did not receive same bytes that were sent''))))"

definition read_status :: "'s conn_env \<Rightarrow> ('s Connection, ResponseStatus) M" where
  "read_status env = bindM (read_byte (conn_read env)) (\<lambda>b. returnM (ResponseStatus_of_u8 b))"

definition write_request :: "'s conn_env \<Rightarrow> RequestType \<Rightarrow> ('s Connection, unit) M" where
  "write_request env req = write_byte (conn_write env) (u8_of_RequestType req)"

text \<open>The result is the status and what is stored through \<open>out_file_stat\<close> (nothing on failure).\<close>

definition req_stat_file :: "'s conn_env \<Rightarrow> wstring \<Rightarrow> ('s Connection, ResponseStatus \<times> FileStat option) M" where
  "req_stat_file env path =
     (let unix_path = win32_path_to_unix (to_utf8 env) path in
      bindM (stat_cache_get env unix_path) (\<lambda>cached_stat.
        case cached_stat of
          Some st \<Rightarrow> returnM (Success, Some st)
        | None \<Rightarrow>
      bindM (stat_cache_get env unix_path) (\<lambda>cached_stat.
        case cached_stat of
          Some st \<Rightarrow> returnM (Success, Some st)
        | None \<Rightarrow>
            if ends_with unix_path ''desktop.ini'' then returnM (FileNotFound, None)
            else thenM (write_request env StatFile)
                (thenM (write_utf8_string (conn_write env) unix_path)
                (thenM (flush (conn_write env))
                (bindM (read_status env) (\<lambda>status.
                   if status \<noteq> Success then returnM (status, None)
                   else bindM (FileStat_read (conn_read env)) (\<lambda>st.
                        thenM (stat_cache_put env unix_path st)
                              (returnM (Success, Some st))))))))))"

text \<open>
  The loop over the entries of a listing. \<open>entries\<close> are the names pushed so far and
  \<open>consumed\<close> the arguments of the calls of \<open>consume_stat\<close> so far.
\<close>

partial_function (option) list_stats_loop ::
  "'s conn_env \<Rightarrow> string \<Rightarrow> string list \<Rightarrow> (FileStat \<times> wstring) list
     \<Rightarrow> 's Connection \<Rightarrow> ((exn + (string list \<times> (FileStat \<times> wstring) list)) \<times> 's Connection) option" where
  "list_stats_loop env unix_dir_path entries consumed s =
     bindM (read_status env) (\<lambda>entry_status.
       if entry_status = NoMoreEntries then returnM (entries, consumed)
       else if entry_status = Success
       then bindM (read_utf8_string (conn_read env)) (\<lambda>file_name.
            bindM (FileStat_read (conn_read env)) (\<lambda>entry_stat.
            bindM (stat_cache_put env (get_full_path unix_dir_path file_name) entry_stat) (\<lambda>_.
            case unix_path_to_win32 (from_utf8 env) file_name of
              Inl e \<Rightarrow> throwM e
            | Inr win_name \<Rightarrow>
                list_stats_loop env unix_dir_path (entries @ [file_name]) (consumed @ [(entry_stat, win_name)]))))
       else list_stats_loop env unix_dir_path entries consumed) s"

declare list_stats_loop.simps [code]

fun cached_listing :: "'s conn_env \<Rightarrow> string \<Rightarrow> string list \<Rightarrow> ('s Connection, (FileStat \<times> wstring) list) M" where
  "cached_listing env unix_dir_path [] = returnM []"
| "cached_listing env unix_dir_path (name # names) =
     bindM (stat_cache_get env (get_full_path unix_dir_path name)) (\<lambda>cached.
       case cached of
         Some st \<Rightarrow>
           (case unix_path_to_win32 (from_utf8 env) name of
              Inl e \<Rightarrow> throwM e
            | Inr win_name \<Rightarrow> bindM (cached_listing env unix_dir_path names) (\<lambda>rest. returnM ((st, win_name) # rest)))
       | None \<Rightarrow> cached_listing env unix_dir_path names)"

text \<open>\<open>None\<close> is the return of \<open>false\<close>; otherwise the calls of \<open>consume_stat\<close>.\<close>

definition try_use_cached_dir_listing ::
  "'s conn_env \<Rightarrow> string \<Rightarrow> ('s Connection, (FileStat \<times> wstring) list option) M" where
  "try_use_cached_dir_listing env unix_dir_path =
     bindM (dir_cache_get env unix_dir_path) (\<lambda>opt_cached_dir.
       case opt_cached_dir of
         None \<Rightarrow> returnM None
       | Some cached_dir \<Rightarrow> bindM (cached_listing env unix_dir_path cached_dir) (\<lambda>calls. returnM (Some calls)))"

text \<open>The result is the status and the arguments of the calls of \<open>consume_stat\<close>, in order.\<close>

definition req_list_file_stats ::
  "'s conn_env \<Rightarrow> wstring \<Rightarrow> ('s Connection, ResponseStatus \<times> (FileStat \<times> wstring) list) M" where
  "req_list_file_stats env path =
     (let unix_dir_path = win32_path_to_unix (to_utf8 env) path in
      bindM (try_use_cached_dir_listing env unix_dir_path) (\<lambda>cached.
        case cached of
          Some calls \<Rightarrow> returnM (Success, calls)
        | None \<Rightarrow>
            thenM (write_request env ListDirectory)
           (thenM (write_utf8_string (conn_write env) unix_dir_path)
           (thenM (flush (conn_write env))
           (bindM (read_status env) (\<lambda>status.
              if status \<noteq> Success then returnM (status, [])
              else bindM (list_stats_loop env unix_dir_path [] []) (\<lambda>(entries, calls).
                   thenM (dir_cache_put env unix_dir_path entries)
                         (returnM (Success, calls)))))))))"

definition req_move_entry :: "'s conn_env \<Rightarrow> wstring \<Rightarrow> wstring \<Rightarrow> bool \<Rightarrow> ('s Connection, ResponseStatus) M" where
  "req_move_entry env from to replace_if_exists =
     (let unix_from_path = win32_path_to_unix (to_utf8 env) from;
          unix_to_path = win32_path_to_unix (to_utf8 env) to in
      thenM (stat_cache_invalidate unix_from_path)
     (thenM (invalidate_parent_dir unix_from_path)
     (thenM (stat_cache_invalidate unix_to_path)
     (thenM (invalidate_parent_dir unix_to_path)
     (thenM (write_request env MoveEntry)
     (thenM (MoveEntryArgs_write (conn_write env)
              (MoveEntryArgs_init unix_from_path unix_to_path replace_if_exists))
     (thenM (flush (conn_write env))
            (read_status env))))))))"

text \<open>The requests that name a path they change: the caches are invalidated first.\<close>

definition req_remove_file :: "'s conn_env \<Rightarrow> wstring \<Rightarrow> ('s Connection, ResponseStatus) M" where
  "req_remove_file env path =
     (let unix_path = win32_path_to_unix (to_utf8 env) path in
      thenM (stat_cache_invalidate unix_path)
     (thenM (invalidate_parent_dir unix_path)
     (thenM (write_request env RemoveFile)
     (thenM (write_utf8_string (conn_write env) unix_path)
     (thenM (flush (conn_write env))
            (read_status env))))))"

definition req_can_remove_file :: "'s conn_env \<Rightarrow> wstring \<Rightarrow> ('s Connection, ResponseStatus) M" where
  "req_can_remove_file env path =
      thenM (write_request env CheckRemoveFile)
     (thenM (write_utf8_string (conn_write env) (win32_path_to_unix (to_utf8 env) path))
     (thenM (flush (conn_write env))
            (read_status env)))"

definition req_remove_directory :: "'s conn_env \<Rightarrow> wstring \<Rightarrow> ('s Connection, ResponseStatus) M" where
  "req_remove_directory env path =
     (let unix_path = win32_path_to_unix (to_utf8 env) path in
      thenM (stat_cache_invalidate unix_path)
     (thenM (invalidate_parent_dir unix_path)
     (thenM (write_request env RemoveDirectory)
     (thenM (write_utf8_string (conn_write env) unix_path)
     (thenM (flush (conn_write env))
            (read_status env))))))"

definition req_can_remove_directory :: "'s conn_env \<Rightarrow> wstring \<Rightarrow> ('s Connection, ResponseStatus) M" where
  "req_can_remove_directory env path =
      thenM (write_request env CheckRemoveDirectory)
     (thenM (write_utf8_string (conn_write env) (win32_path_to_unix (to_utf8 env) path))
     (thenM (flush (conn_write env))
            (read_status env)))"

definition req_create_directory :: "'s conn_env \<Rightarrow> wstring \<Rightarrow> ('s Connection, ResponseStatus) M" where
  "req_create_directory env path =
     (let unix_path = win32_path_to_unix (to_utf8 env) path in
      thenM (stat_cache_invalidate unix_path)
     (thenM (invalidate_parent_dir unix_path)
     (thenM (write_request env CreateDirectory)
     (thenM (write_utf8_string (conn_write env) unix_path)
     (thenM (flush (conn_write env))
            (read_status env))))))"

text \<open>The result is the status and what is stored through \<open>out_file_handle\<close>.\<close>

definition req_open_file ::
  "'s conn_env \<Rightarrow> wstring \<Rightarrow> OpenMode \<Rightarrow> bool \<Rightarrow> bool \<Rightarrow> ('s Connection, ResponseStatus \<times> FILE_HANDLE option) M" where
  "req_open_file env path mode read_access write_access =
     (let unix_path = win32_path_to_unix (to_utf8 env) path in
      if ends_with unix_path ''desktop.ini'' then returnM (GenericFailure, None)
      else thenM (write_request env OpenHandle)
          (thenM (OpenHandleArgs_write (conn_write env)
                    (OpenHandleArgs_init unix_path mode read_access write_access))
          (thenM (flush (conn_write env))
          (bindM (read_status env) (\<lambda>status.
           bindM (if status = Success then bindM (read_u32 (conn_read env)) (\<lambda>h. returnM (Some h)) else returnM None)
             (\<lambda>out_file_handle.
           thenM (if mode = CreateAlways \<or> mode = CreateIfNotExist \<or> mode = CreateOrTruncate
                  then invalidate_parent_dir unix_path else returnM ())
                 (returnM (status, out_file_handle))))))))"

definition req_close_file :: "'s conn_env \<Rightarrow> FILE_HANDLE \<Rightarrow> ('s Connection, ResponseStatus) M" where
  "req_close_file env file_handle =
      thenM (write_request env CloseHandle)
     (thenM (write_u32 (conn_write env) file_handle)
     (thenM (flush (conn_write env))
            (read_status env)))"

text \<open>\<open>buf\<close> is the memory at the pointer; \<open>write_exact\<close> takes the length as an \<open>int\<close>.\<close>

definition req_write_to_file ::
  "'s conn_env \<Rightarrow> FILE_HANDLE \<Rightarrow> u64 \<Rightarrow> u8 list \<Rightarrow> u32 \<Rightarrow> ('s Connection, ResponseStatus) M" where
  "req_write_to_file env file_handle file_offset buf data_len =
      thenM (write_request env WriteHandle)
     (thenM (WriteHandleInitArgs_write (conn_write env)
               (WriteHandleInitArgs_init file_handle file_offset data_len))
     (thenM (write_exact (conn_write env) buf (sint data_len))
     (thenM (flush (conn_write env))
            (read_status env))))"

text \<open>
  The result is the status, and the bytes stored at \<open>buffer\<close> whose number is \<open>bytes_read\<close>. The
  length comes from the daemon; more than \<open>buffer_len\<close> bytes would be stored past the end.
\<close>

definition req_read_from_file ::
  "'s conn_env \<Rightarrow> FILE_HANDLE \<Rightarrow> u64 \<Rightarrow> u32 \<Rightarrow> ('s Connection, ResponseStatus \<times> (int \<times> u8 list) option) M" where
  "req_read_from_file env file_handle file_offset buffer_len =
      thenM (write_request env ReadHandle)
     (thenM (ReadHandleArgs_write (conn_write env)
               (ReadHandleArgs_init file_handle buffer_len file_offset))
     (thenM (flush (conn_write env))
     (bindM (read_status env) (\<lambda>status.
        if status = Success
        then bindM (read_u32 (conn_read env)) (\<lambda>n.
             let bytes_read = sint n in
             if bytes_read > uint buffer_len then throwM UndefinedBehaviour
             else bindM (read_exact (conn_read env) bytes_read) (\<lambda>bs. returnM (status, Some (bytes_read, bs))))
        else returnM (status, None)))))"

definition req_set_file_len :: "'s conn_env \<Rightarrow> FILE_HANDLE \<Rightarrow> u64 \<Rightarrow> ('s Connection, ResponseStatus) M" where
  "req_set_file_len env file_handle file_len =
      thenM (write_request env TruncateHandle)
     (thenM (TruncateHandleArgs_write (conn_write env) (TruncateHandleArgs_init file_handle file_len))
     (thenM (flush (conn_write env))
            (read_status env)))"

definition req_set_file_time :: "'s conn_env \<Rightarrow> wstring \<Rightarrow> u64 \<Rightarrow> u64 \<Rightarrow> ('s Connection, ResponseStatus) M" where
  "req_set_file_time env path access_time write_time =
     (let unix_path = win32_path_to_unix (to_utf8 env) path in
      thenM (stat_cache_invalidate unix_path)
     (thenM (write_request env SetFileTime)
     (thenM (SetFileTimeArgs_write (conn_write env)
               (SetFileTimeArgs_init unix_path access_time write_time))
     (thenM (flush (conn_write env))
            (read_status env)))))"

definition req_get_disk_stats :: "'s conn_env \<Rightarrow> ('s Connection, ResponseStatus \<times> DiskStats option) M" where
  "req_get_disk_stats env =
      thenM (write_request env GetDiskStats)
     (thenM (flush (conn_write env))
     (bindM (read_status env) (\<lambda>status.
        if status = Success
        then bindM (DiskStats_read (conn_read env)) (\<lambda>stats. returnM (status, Some stats))
        else returnM (status, None))))"

end
