(* ===== verification/Operations.thy ===== *)
theory Operations
  imports Connection
begin

text \<open>
  \<open>nandroidfs/operations.cpp\<close>: the callbacks that Dokan, the user-mode file system driver,
  calls for every operation on the mounted drive. A callback works on the connection of its
  \<open>Nandroid\<close> object and on the \<open>DOKAN_FILE_INFO\<close> of the open file, which carries the
  \<open>FileContext\<close> that \<open>create_file\<close> allocates. What a callback stores through its out
  pointers is part of its result. \<open>DokanMapKernelToUserCreateFileFlags\<close> belongs to Dokan and is
  a parameter.
\<close>

unbundle bit_operations_syntax

section \<open>Constants of the Windows headers\<close>

definition CREATE_NEW :: u32 where "CREATE_NEW = 1"
definition CREATE_ALWAYS :: u32 where "CREATE_ALWAYS = 2"
definition OPEN_EXISTING :: u32 where "OPEN_EXISTING = 3"
definition OPEN_ALWAYS :: u32 where "OPEN_ALWAYS = 4"
definition TRUNCATE_EXISTING :: u32 where "TRUNCATE_EXISTING = 5"
definition GENERIC_READ :: u32 where "GENERIC_READ = 0x80000000"
definition GENERIC_WRITE :: u32 where "GENERIC_WRITE = 0x40000000"
definition FILE_FLAG_DELETE_ON_CLOSE :: u32 where "FILE_FLAG_DELETE_ON_CLOSE = 0x04000000"
definition FILE_NON_DIRECTORY_FILE :: u32 where "FILE_NON_DIRECTORY_FILE = 0x40"
definition FILE_CASE_SENSITIVE_SEARCH :: u32 where "FILE_CASE_SENSITIVE_SEARCH = 1"
definition FILE_CASE_PRESERVED_NAMES :: u32 where "FILE_CASE_PRESERVED_NAMES = 2"
definition FILE_UNICODE_ON_DISK :: u32 where "FILE_UNICODE_ON_DISK = 4"
definition MAX_PATH :: nat where "MAX_PATH = 260"

lemmas disposition_defs = CREATE_NEW_def CREATE_ALWAYS_def OPEN_EXISTING_def OPEN_ALWAYS_def TRUNCATE_EXISTING_def

section \<open>State\<close>

text \<open>The handle \<open>-1\<close>, converted to the unsigned \<open>FILE_HANDLE\<close>.\<close>

definition NO_HANDLE :: FILE_HANDLE where
  "NO_HANDLE = 0xFFFFFFFF"

record FileContext =
  fc_handle :: FILE_HANDLE
  fc_read_access :: bool
  fc_write_access :: bool

text \<open>\<open>Context\<close> is \<open>None\<close> before \<open>create_file\<close> has stored a context and after \<open>close_file\<close> has freed it.\<close>

record DOKAN_FILE_INFO =
  Context :: "FileContext option"
  DeleteOnClose :: bool
  IsDirectory :: bool

text \<open>
  What a callback sees: the connection of the \<open>Nandroid\<close> object (\<open>None\<close> is the null pointer),
  the file information, and whether \<open>Nandroid::unmount\<close> has been called. \<open>unmount\<close> destroys the
  object and its connection (\<open>unmount_device\<close> in \<open>Device_Tracker\<close>); \<open>NAN_CTX\<close> dangles from then on.
\<close>

record 's callback =
  connection :: "'s Connection option"
  file_info :: DOKAN_FILE_INFO
  unmount_called :: bool

text \<open>\<open>Nandroid::get_conn\<close>, and a request on the connection it returns.\<close>

definition get_conn :: "('s callback, unit) M" where
  "get_conn = (\<lambda>s. case connection s of
     None \<Rightarrow> if unmount_called s then throwM UndefinedBehaviour s
             else throwM (RuntimeError ''Attempting to get connection when not yet connected/mounted'') s
   | Some _ \<Rightarrow> returnM () s)"

definition connM :: "('s Connection, 'a) M \<Rightarrow> ('s callback, 'a) M" where
  "connM m = (\<lambda>s. case connection s of
     None \<Rightarrow> throwM UndefinedBehaviour s
   | Some c \<Rightarrow> (case m c of None \<Rightarrow> None | Some (r, c') \<Rightarrow> Some (r, s\<lparr>connection := Some c'\<rparr>)))"

text \<open>\<open>NAN_FILE_CTX\<close>, dereferenced.\<close>

definition file_ctx :: "('s callback, FileContext) M" where
  "file_ctx = (\<lambda>s. case Context (file_info s) of None \<Rightarrow> throwM UndefinedBehaviour s | Some c \<Rightarrow> returnM c s)"

definition set_file_info :: "(DOKAN_FILE_INFO \<Rightarrow> DOKAN_FILE_INFO) \<Rightarrow> ('s callback, unit) M" where
  "set_file_info f = modifyM (\<lambda>s. s\<lparr>file_info := f (file_info s)\<rparr>)"

definition set_file_ctx :: "FileContext \<Rightarrow> ('s callback, unit) M" where
  "set_file_ctx c = set_file_info (\<lambda>fi. fi\<lparr>Context := Some c\<rparr>)"

text \<open>
  \<open>NAN_HANDLER_START .. NAN_HANDLER_END\<close>: every exception is caught, the device is unmounted
  and the callback gives \<open>STATUS_UNSUCCESSFUL\<close>; \<open>a\<close> is that result. The call of \<open>unmount\<close> stands
  behind the \<open>try\<close> block; what it does to the tracker is in \<open>Device_Tracker\<close>.
\<close>

definition nan_handler :: "'a \<Rightarrow> ('s callback, 'a) M \<Rightarrow> ('s callback, 'a) M" where
  "nan_handler a m = catchM m (\<lambda>e.
     if is_exception e then thenM (modifyM (\<lambda>s. s\<lparr>unmount_called := True, connection := None\<rparr>)) (returnM a) else throwM e)"

section \<open>Opening\<close>

definition op_handle_create_directory ::
  "'s conn_env \<Rightarrow> wstring \<Rightarrow> u32 \<Rightarrow> bool \<Rightarrow> bool \<Rightarrow> ('s callback, NTSTATUS) M" where
  "op_handle_create_directory env path creation_disposition entry_exists entry_is_directory =
     (if creation_disposition = OPEN_ALWAYS \<or> creation_disposition = CREATE_NEW \<or> creation_disposition = CREATE_ALWAYS
      then bindM (connM (req_create_directory env path)) (\<lambda>status. returnM (ntstatus_from_respstatus status))
      else if entry_exists \<and> entry_is_directory then returnM STATUS_SUCCESS
      else if \<not> entry_exists then returnM STATUS_OBJECT_NAME_NOT_FOUND
      else if \<not> entry_is_directory then returnM STATUS_NOT_A_DIRECTORY
      else returnM STATUS_UNSUCCESSFUL)"

text \<open>
  The switch on the disposition: an early return, or the mode to open with.
\<close>

definition open_mode_for :: "u32 \<Rightarrow> bool \<Rightarrow> FileContext \<Rightarrow> NTSTATUS + OpenMode" where
  "open_mode_for creation_disposition file_exists ctx =
     (let no_access = \<not> fc_read_access ctx \<and> \<not> fc_write_access ctx in
      if creation_disposition = CREATE_ALWAYS then Inr CreateOrTruncate
      else if creation_disposition = CREATE_NEW then Inr CreateAlways
      else if creation_disposition = OPEN_ALWAYS
        then (if no_access \<and> file_exists then Inl STATUS_SUCCESS else Inr CreateIfNotExist)
      else if creation_disposition = OPEN_EXISTING
        then (if no_access \<and> file_exists then Inl STATUS_SUCCESS
              else if \<not> file_exists then Inl STATUS_OBJECT_NAME_NOT_FOUND else Inr OpenOnly)
      else if creation_disposition = TRUNCATE_EXISTING then Inr Truncate
      else Inl STATUS_UNSUCCESSFUL)"

definition handle_create_file :: "'s conn_env \<Rightarrow> wstring \<Rightarrow> u32 \<Rightarrow> bool \<Rightarrow> ('s callback, NTSTATUS) M" where
  "handle_create_file env path creation_disposition file_exists =
     bindM file_ctx (\<lambda>ctx.
       case open_mode_for creation_disposition file_exists ctx of
         Inl status \<Rightarrow> returnM status
       | Inr mode \<Rightarrow>
           (let ctx = (if \<not> fc_read_access ctx \<and> \<not> fc_write_access ctx then ctx\<lparr>fc_read_access := True\<rparr> else ctx) in
            thenM (set_file_ctx ctx)
           (bindM (connM (req_open_file env path mode (fc_read_access ctx) (fc_write_access ctx))) (\<lambda>(status, out_handle).
              thenM (case out_handle of None \<Rightarrow> returnM () | Some h \<Rightarrow> set_file_ctx (ctx\<lparr>fc_handle := h\<rparr>))
                (returnM (if status = Success
                          then (if file_exists \<and> (creation_disposition = OPEN_ALWAYS \<or> creation_disposition = CREATE_ALWAYS)
                                then STATUS_OBJECT_NAME_COLLISION else STATUS_SUCCESS)
                          else ntstatus_from_respstatus status))))))"

text \<open>
  \<open>map_flags\<close> is \<open>DokanMapKernelToUserCreateFileFlags\<close>: from the desired access, the attributes,
  the options and the disposition of the kernel it gives the access mask, the attributes and
  flags, and the disposition of the user-mode interface.
\<close>

type_synonym flag_map = "u32 \<Rightarrow> u32 \<Rightarrow> u32 \<Rightarrow> u32 \<Rightarrow> u32 \<times> u32 \<times> u32"

definition is_directory_mode :: "u16 \<Rightarrow> bool" where
  "is_directory_mode mode \<longleftrightarrow> file_attributes_from_st_mode mode AND FILE_ATTRIBUTE_DIRECTORY \<noteq> 0"

text \<open>The choice between a directory and a file, once the entry's stat is known.\<close>

definition create_entry :: "'s conn_env \<Rightarrow> wstring \<Rightarrow> u32 \<Rightarrow> u32 \<Rightarrow> bool \<Rightarrow> FileStat \<Rightarrow> ('s callback, NTSTATUS) M" where
  "create_entry env file_name creation_disposition create_options entry_exists stat =
     (let entry_is_directory = is_directory_mode (fs_mode stat)
      in if entry_exists \<and> entry_is_directory \<and> create_options AND FILE_NON_DIRECTORY_FILE \<noteq> 0
         then returnM STATUS_FILE_IS_A_DIRECTORY
         else thenM (if entry_exists \<and> entry_is_directory
                     then set_file_info (\<lambda>fi. fi\<lparr>IsDirectory := True\<rparr>) else returnM ())
             (bindM (getM (\<lambda>s. IsDirectory (file_info s))) (\<lambda>is_dir.
                if is_dir
                then op_handle_create_directory env file_name creation_disposition entry_exists entry_is_directory
                else handle_create_file env file_name creation_disposition entry_exists)))"

definition create_file ::
  "'s conn_env \<Rightarrow> flag_map \<Rightarrow> wstring \<Rightarrow> u32 \<Rightarrow> u32 \<Rightarrow> u32 \<Rightarrow> u32 \<Rightarrow> ('s callback, NTSTATUS) M" where
  "create_file env map_flags file_name desired_access file_attributes create_disposition create_options =
     nan_handler STATUS_UNSUCCESSFUL
     (case map_flags desired_access file_attributes create_options create_disposition of
        (generic_desiredaccess, file_attributes_and_flags, creation_disposition) \<Rightarrow>
        thenM (set_file_info (\<lambda>fi. fi\<lparr>DeleteOnClose := file_attributes_and_flags AND FILE_FLAG_DELETE_ON_CLOSE \<noteq> 0\<rparr>))
       (thenM (set_file_ctx \<lparr>fc_handle = NO_HANDLE,
                  fc_read_access = generic_desiredaccess AND GENERIC_READ \<noteq> 0,
                  fc_write_access = generic_desiredaccess AND GENERIC_WRITE \<noteq> 0\<rparr>)
       (thenM get_conn
       (bindM (connM (req_stat_file env file_name)) (\<lambda>(status, out_stat).
          if status \<noteq> Success \<and> status \<noteq> FileNotFound then returnM (ntstatus_from_respstatus status)
          else create_entry env file_name creation_disposition create_options (status = Success)
                 (case out_stat of None \<Rightarrow> FileStat_default | Some stat \<Rightarrow> stat))))))"

section \<open>Closing\<close>

definition clean_up :: "'s conn_env \<Rightarrow> wstring \<Rightarrow> ('s callback, unit) M" where
  "clean_up env file_name = nan_handler ()
     (thenM get_conn
     (bindM (getM file_info) (\<lambda>fi.
        if DeleteOnClose fi
        then (if IsDirectory fi
              then bindM (connM (req_remove_directory env file_name)) (\<lambda>_. returnM ())
              else bindM (connM (req_remove_file env file_name)) (\<lambda>_. returnM ()))
        else returnM ())))"

definition close_file :: "'s conn_env \<Rightarrow> ('s callback, unit) M" where
  "close_file env = nan_handler ()
     (thenM get_conn
     (bindM file_ctx (\<lambda>ctx.
      thenM (if fc_handle ctx \<noteq> NO_HANDLE
             then bindM (connM (req_close_file env (fc_handle ctx))) (\<lambda>_. returnM ()) else returnM ())
            (set_file_info (\<lambda>fi. fi\<lparr>Context := None\<rparr>)))))"

section \<open>Data\<close>

text \<open>The result of a read is the status, and on success \<open>*read_len\<close> and the bytes stored in the buffer.\<close>

definition read_file :: "'s conn_env \<Rightarrow> u32 \<Rightarrow> u64 \<Rightarrow> ('s callback, NTSTATUS \<times> (u32 \<times> u8 list) option) M" where
  "read_file env buffer_len offset = nan_handler (STATUS_UNSUCCESSFUL, None)
     (thenM get_conn
     (bindM file_ctx (\<lambda>context.
        if \<not> fc_read_access context \<or> fc_handle context = NO_HANDLE then returnM (STATUS_ACCESS_DENIED, None)
        else bindM (connM (req_read_from_file env (fc_handle context) offset buffer_len)) (\<lambda>(status, res).
               returnM (case res of
                          Some (bytes_read, bs) \<Rightarrow> (STATUS_SUCCESS, Some (word_of_int bytes_read, bs))
                        | None \<Rightarrow> (ntstatus_from_respstatus status, None))))))"

text \<open>The result of a write is the status, and on success \<open>*number_of_bytes_written\<close>.\<close>

definition write_file :: "'s conn_env \<Rightarrow> u8 list \<Rightarrow> u32 \<Rightarrow> u64 \<Rightarrow> ('s callback, NTSTATUS \<times> u32 option) M" where
  "write_file env buffer number_of_bytes_to_write offset = nan_handler (STATUS_UNSUCCESSFUL, None)
     (thenM get_conn
     (bindM file_ctx (\<lambda>context.
        if \<not> fc_write_access context \<or> fc_handle context = NO_HANDLE then returnM (STATUS_ACCESS_DENIED, None)
        else bindM (connM (req_write_to_file env (fc_handle context) offset buffer number_of_bytes_to_write)) (\<lambda>status.
               returnM (if status = Success then (STATUS_SUCCESS, Some number_of_bytes_to_write)
                        else (ntstatus_from_respstatus status, None))))))"

definition flush_file_buffers :: "('s callback, NTSTATUS) M" where
  "flush_file_buffers = returnM STATUS_SUCCESS"

definition set_end_of_file :: "'s conn_env \<Rightarrow> u64 \<Rightarrow> ('s callback, NTSTATUS) M" where
  "set_end_of_file env byte_offset = nan_handler STATUS_UNSUCCESSFUL
     (thenM get_conn
     (bindM file_ctx (\<lambda>ctx.
        if fc_write_access ctx
        then bindM (connM (req_set_file_len env (fc_handle ctx) byte_offset)) (\<lambda>status. returnM (ntstatus_from_respstatus status))
        else returnM STATUS_ACCESS_DENIED)))"

definition set_allocation_size :: "'s conn_env \<Rightarrow> u64 \<Rightarrow> ('s callback, NTSTATUS) M" where
  "set_allocation_size env byte_offset = set_end_of_file env byte_offset"

section \<open>Attributes and listings\<close>

text \<open>The fields of \<open>BY_HANDLE_FILE_INFORMATION\<close> and of \<open>WIN32_FIND_DATAW\<close> that the callbacks fill.\<close>

record file_data =
  dwFileAttributes :: u32
  nFileSizeLow :: u32
  nFileSizeHigh :: u32
  ftLastAccessTime :: FILETIME
  ftLastWriteTime :: FILETIME

definition file_data_of :: "FileStat \<Rightarrow> file_data" where
  "file_data_of stat =
     \<lparr>dwFileAttributes = file_attributes_from_st_mode (fs_mode stat),
      nFileSizeLow = ucast (fs_size stat), nFileSizeHigh = ucast (drop_bit 32 (fs_size stat)),
      ftLastAccessTime = filetime_from_unix_time (fs_access_time stat),
      ftLastWriteTime = filetime_from_unix_time (fs_write_time stat)\<rparr>"

definition get_file_information :: "'s conn_env \<Rightarrow> wstring \<Rightarrow> ('s callback, NTSTATUS \<times> file_data option) M" where
  "get_file_information env filename = nan_handler (STATUS_UNSUCCESSFUL, None)
     (thenM get_conn
     (bindM (connM (req_stat_file env filename)) (\<lambda>(status, out_stat).
        case out_stat of
          None \<Rightarrow> returnM (ntstatus_from_respstatus status, None)
        | Some stat \<Rightarrow>
            thenM (if is_directory_mode (fs_mode stat) then set_file_info (\<lambda>fi. fi\<lparr>IsDirectory := True\<rparr>) else returnM ())
                  (returnM (STATUS_SUCCESS, Some (file_data_of stat))))))"

text \<open>
  The function passed to \<open>req_list_file_stats\<close>: the entry handed to \<open>fill_finddata\<close>.
  \<open>wcscpy_s\<close> ends the process when the name with its terminator does not fit in \<open>cFileName\<close>.
\<close>

definition find_data_of :: "FileStat \<times> wstring \<Rightarrow> (file_data \<times> wstring) option" where
  "find_data_of = (\<lambda>(stat, file_name). if length file_name < MAX_PATH then Some (file_data_of stat, file_name) else None)"

text \<open>The result is the status and the entries given to \<open>fill_finddata\<close>, in order.\<close>

definition find_files :: "'s conn_env \<Rightarrow> wstring \<Rightarrow> ('s callback, NTSTATUS \<times> (file_data \<times> wstring) list) M" where
  "find_files env filename = nan_handler (STATUS_UNSUCCESSFUL, [])
     (thenM get_conn
     (bindM (connM (req_list_file_stats env filename)) (\<lambda>(status, calls).
        case those (map find_data_of calls) of
          None \<Rightarrow> throwM ProcessAbort
        | Some entries \<Rightarrow> returnM (ntstatus_from_respstatus status, entries))))"

definition set_file_attributes :: "'s conn_env \<Rightarrow> wstring \<Rightarrow> u32 \<Rightarrow> ('s callback, NTSTATUS) M" where
  "set_file_attributes env file_name file_attributes = nan_handler STATUS_UNSUCCESSFUL
     (thenM get_conn
     (bindM (connM (req_stat_file env file_name)) (\<lambda>(stat_status, out_stat).
        case out_stat of
          None \<Rightarrow> returnM (ntstatus_from_respstatus stat_status)
        | Some stat \<Rightarrow>
            let entry_is_dir = is_directory_mode (fs_mode stat) in
            returnM (if file_attributes = 0 \<or> file_attributes = FILE_ATTRIBUTE_NORMAL
                     then (if entry_is_dir then STATUS_UNSUCCESSFUL else STATUS_SUCCESS)
                     else if file_attributes = FILE_ATTRIBUTE_DIRECTORY
                     then (if entry_is_dir then STATUS_SUCCESS else STATUS_UNSUCCESSFUL)
                     else STATUS_UNSUCCESSFUL))))"

text \<open>The \<open>int64_t\<close> result, as its bits; \<open>None\<close> is the null pointer.\<close>

definition signed_time_from_ptr :: "FILETIME option \<Rightarrow> u64" where
  "signed_time_from_ptr file_time =
     (case file_time of
        None \<Rightarrow> - 1
      | Some t \<Rightarrow> if dwHighDateTime t = 0 \<and> dwLowDateTime t = 0 then - 1 else unix_time_from_filetime t)"

definition set_file_time :: "'s conn_env \<Rightarrow> wstring \<Rightarrow> FILETIME option \<Rightarrow> FILETIME option \<Rightarrow> ('s callback, NTSTATUS) M" where
  "set_file_time env file_name last_access_time last_write_time = nan_handler STATUS_UNSUCCESSFUL
     (thenM get_conn
     (bindM (connM (req_set_file_time env file_name
               (signed_time_from_ptr last_access_time) (signed_time_from_ptr last_write_time)))
        (\<lambda>status. returnM (ntstatus_from_respstatus status))))"

section \<open>Removing and moving\<close>

definition delete_file :: "'s conn_env \<Rightarrow> wstring \<Rightarrow> ('s callback, NTSTATUS) M" where
  "delete_file env file_name = nan_handler STATUS_UNSUCCESSFUL
     (thenM get_conn
     (bindM (connM (req_can_remove_file env file_name)) (\<lambda>status. returnM (ntstatus_from_respstatus status))))"

definition delete_directory :: "'s conn_env \<Rightarrow> wstring \<Rightarrow> ('s callback, NTSTATUS) M" where
  "delete_directory env file_name = nan_handler STATUS_UNSUCCESSFUL
     (thenM get_conn
     (bindM (connM (req_can_remove_directory env file_name)) (\<lambda>status. returnM (ntstatus_from_respstatus status))))"

definition move_file :: "'s conn_env \<Rightarrow> wstring \<Rightarrow> wstring \<Rightarrow> bool \<Rightarrow> ('s callback, NTSTATUS) M" where
  "move_file env file_name new_file_name replace_if_existing = nan_handler STATUS_UNSUCCESSFUL
     (thenM get_conn
     (bindM (connM (req_move_entry env file_name new_file_name replace_if_existing))
        (\<lambda>status. returnM (ntstatus_from_respstatus status))))"

section \<open>The volume and the callbacks that do nothing\<close>

text \<open>The result is the status, and on success total, free and available bytes.\<close>

definition get_disk_free_space :: "'s conn_env \<Rightarrow> ('s callback, NTSTATUS \<times> (u64 \<times> u64 \<times> u64) option) M" where
  "get_disk_free_space env = nan_handler (STATUS_UNSUCCESSFUL, None)
     (thenM get_conn
     (bindM (connM (req_get_disk_stats env)) (\<lambda>(status, out_stats).
        returnM (case out_stats of
                   Some stats \<Rightarrow> (STATUS_SUCCESS, Some (total_bytes stats, free_bytes stats, available_bytes stats))
                 | None \<Rightarrow> (ntstatus_from_respstatus status, None)))))"

definition nandroid_volume_serial :: u32 where
  "nandroid_volume_serial = 0x20233838"

record volume_information =
  volume_name :: wstring
  volume_serialnumber :: u32
  maximum_component_length :: u32
  fs_flags :: u32
  fs_name :: wstring

text \<open>\<open>serial\<close> is \<open>Nandroid::get_device_serial_wide\<close>; the name buffers hold \<open>*_size\<close> units.\<close>

definition get_volume_information :: "wstring \<Rightarrow> u32 \<Rightarrow> u32 \<Rightarrow> ('s callback, NTSTATUS \<times> volume_information option) M" where
  "get_volume_information serial volume_name_size fs_name_size = nan_handler (STATUS_UNSUCCESSFUL, None)
     (bindM (getM unmount_called) (\<lambda>destroyed.
      let ntfs = [0x4E, 0x54, 0x46, 0x53] in
      if destroyed then throwM UndefinedBehaviour
      else if length serial \<ge> unat volume_name_size \<or> length ntfs \<ge> unat fs_name_size then throwM ProcessAbort
      else returnM (STATUS_SUCCESS, Some \<lparr>volume_name = serial, volume_serialnumber = nandroid_volume_serial,
             maximum_component_length = 255,
             fs_flags = FILE_CASE_SENSITIVE_SEARCH OR FILE_CASE_PRESERVED_NAMES OR FILE_UNICODE_ON_DISK,
             fs_name = ntfs\<rparr>)))"

definition lock_file :: "('s callback, NTSTATUS) M" where "lock_file = returnM STATUS_NOT_IMPLEMENTED"
definition unlock_file :: "('s callback, NTSTATUS) M" where "unlock_file = returnM STATUS_NOT_IMPLEMENTED"
definition mounted :: "('s callback, NTSTATUS) M" where "mounted = returnM STATUS_SUCCESS"
definition unmounted :: "('s callback, NTSTATUS) M" where "unmounted = returnM STATUS_SUCCESS"
definition get_file_security :: "('s callback, NTSTATUS) M" where "get_file_security = returnM STATUS_NOT_IMPLEMENTED"
definition set_file_security :: "('s callback, NTSTATUS) M" where "set_file_security = returnM STATUS_NOT_IMPLEMENTED"
definition find_streams :: "('s callback, NTSTATUS) M" where "find_streams = returnM STATUS_NOT_IMPLEMENTED"

section \<open>The table of callbacks\<close>

text \<open>
  \<open>nandroid_operations\<close>, the structure given to Dokan: one call per entry with the arguments
  the callback uses (\<open>FindFilesWithPattern\<close> is null). The result is the \<open>NTSTATUS\<close>, \<open>None\<close>
  for the two callbacks without one.
\<close>

datatype dokan_op =
    OpCreateFile wstring u32 u32 u32 u32 | OpCleanup wstring | OpCloseFile
  | OpReadFile u32 u64 | OpWriteFile "u8 list" u32 u64 | OpFlushFileBuffers
  | OpGetFileInformation wstring | OpFindFiles wstring
  | OpSetFileAttributes wstring u32 | OpSetFileTime wstring "FILETIME option" "FILETIME option"
  | OpDeleteFile wstring | OpDeleteDirectory wstring | OpMoveFile wstring wstring bool
  | OpSetEndOfFile u64 | OpSetAllocationSize u64 | OpLockFile | OpUnlockFile
  | OpGetDiskFreeSpace | OpGetVolumeInformation u32 u32 | OpMounted | OpUnmounted
  | OpGetFileSecurity | OpSetFileSecurity | OpFindStreams

definition mapM :: "('a \<Rightarrow> 'b) \<Rightarrow> ('s, 'a) M \<Rightarrow> ('s, 'b) M" where
  "mapM f m = bindM m (\<lambda>a. returnM (f a))"

fun nandroid_operations :: "'s conn_env \<Rightarrow> flag_map \<Rightarrow> wstring \<Rightarrow> dokan_op \<Rightarrow> ('s callback, NTSTATUS option) M" where
  "nandroid_operations env fm serial (OpCreateFile name access attributes disposition options) =
     mapM Some (create_file env fm name access attributes disposition options)"
| "nandroid_operations env fm serial (OpCleanup name) = mapM (\<lambda>_. None) (clean_up env name)"
| "nandroid_operations env fm serial OpCloseFile = mapM (\<lambda>_. None) (close_file env)"
| "nandroid_operations env fm serial (OpReadFile n offset) = mapM (Some \<circ> fst) (read_file env n offset)"
| "nandroid_operations env fm serial (OpWriteFile buffer n offset) = mapM (Some \<circ> fst) (write_file env buffer n offset)"
| "nandroid_operations env fm serial OpFlushFileBuffers = mapM Some flush_file_buffers"
| "nandroid_operations env fm serial (OpGetFileInformation name) = mapM (Some \<circ> fst) (get_file_information env name)"
| "nandroid_operations env fm serial (OpFindFiles name) = mapM (Some \<circ> fst) (find_files env name)"
| "nandroid_operations env fm serial (OpSetFileAttributes name attributes) = mapM Some (set_file_attributes env name attributes)"
| "nandroid_operations env fm serial (OpSetFileTime name at wt) = mapM Some (set_file_time env name at wt)"
| "nandroid_operations env fm serial (OpDeleteFile name) = mapM Some (delete_file env name)"
| "nandroid_operations env fm serial (OpDeleteDirectory name) = mapM Some (delete_directory env name)"
| "nandroid_operations env fm serial (OpMoveFile name new_name replace) = mapM Some (move_file env name new_name replace)"
| "nandroid_operations env fm serial (OpSetEndOfFile n) = mapM Some (set_end_of_file env n)"
| "nandroid_operations env fm serial (OpSetAllocationSize n) = mapM Some (set_allocation_size env n)"
| "nandroid_operations env fm serial OpLockFile = mapM Some lock_file"
| "nandroid_operations env fm serial OpUnlockFile = mapM Some unlock_file"
| "nandroid_operations env fm serial OpGetDiskFreeSpace = mapM (Some \<circ> fst) (get_disk_free_space env)"
| "nandroid_operations env fm serial (OpGetVolumeInformation n m) = mapM (Some \<circ> fst) (get_volume_information serial n m)"
| "nandroid_operations env fm serial OpMounted = mapM Some mounted"
| "nandroid_operations env fm serial OpUnmounted = mapM Some unmounted"
| "nandroid_operations env fm serial OpGetFileSecurity = mapM Some get_file_security"
| "nandroid_operations env fm serial OpSetFileSecurity = mapM Some set_file_security"
| "nandroid_operations env fm serial OpFindStreams = mapM Some find_streams"

section \<open>Rules for callbacks\<close>

lemma wp_get_conn [simp]:
  "wp get_conn Q s \<longleftrightarrow> (case connection s of
     None \<Rightarrow> Q (Inl (if unmount_called s then UndefinedBehaviour
                     else RuntimeError ''Attempting to get connection when not yet connected/mounted'')) s
   | Some _ \<Rightarrow> Q (Inr ()) s)"
  by (simp add: wp_def get_conn_def throwM_def returnM_def split: option.split)

lemma wp_connM:
  "wp (connM m) Q s \<longleftrightarrow> (case connection s of
     None \<Rightarrow> Q (Inl UndefinedBehaviour) s
   | Some c \<Rightarrow> wp m (\<lambda>r c'. Q r (s\<lparr>connection := Some c'\<rparr>)) c)"
  by (simp add: wp_def connM_def throwM_def split: option.splits)

lemma wp_file_ctx [simp]:
  "wp file_ctx Q s \<longleftrightarrow> (case Context (file_info s) of None \<Rightarrow> Q (Inl UndefinedBehaviour) s | Some c \<Rightarrow> Q (Inr c) s)"
  by (simp add: wp_def file_ctx_def throwM_def returnM_def split: option.split)

lemma wp_set_file_info [simp]: "wp (set_file_info f) Q s \<longleftrightarrow> Q (Inr ()) (s\<lparr>file_info := f (file_info s)\<rparr>)"
  by (simp add: set_file_info_def)

lemma wp_set_file_ctx [simp]: "wp (set_file_ctx c) Q s \<longleftrightarrow> Q (Inr ()) (s\<lparr>file_info := (file_info s)\<lparr>Context := Some c\<rparr>\<rparr>)"
  by (simp add: set_file_ctx_def)

lemma wp_nan_handler [simp]:
  "wp (nan_handler a m) Q s \<longleftrightarrow> wp m (\<lambda>r s'. case r of
     Inl e \<Rightarrow> if is_exception e then Q (Inr a) (s'\<lparr>unmount_called := True, connection := None\<rparr>) else Q (Inl e) s'
   | Inr b \<Rightarrow> Q (Inr b) s') s"
  by (simp add: nan_handler_def cong: sum.case_cong)

lemma wp_mapM [simp]: "wp (mapM f m) Q s \<longleftrightarrow> wp m (\<lambda>r s'. Q (map_sum id f r) s') s"
proof -
  have "(\<lambda>r s'. case r of Inl e \<Rightarrow> Q (Inl e) s' | Inr a \<Rightarrow> wp (returnM (f a)) Q s') = (\<lambda>r s'. Q (map_sum id f r) s')"
    by (auto simp: fun_eq_iff split: sum.splits)
  then show ?thesis by (simp add: mapM_def)
qed

text \<open>\<open>m\<close> never leaves an exception behind.\<close>

definition contained :: "('s, 'a) M \<Rightarrow> bool" where
  "contained m \<longleftrightarrow> (\<forall>s e s'. m s = Some (Inl e, s') \<longrightarrow> \<not> is_exception e)"

lemma contained_returnM [simp]: "contained (returnM a)"
  by (simp add: contained_def returnM_def)

lemma contained_nan_handler [simp]: "contained (nan_handler a m)"
  by (auto simp: contained_def nan_handler_def catchM_def thenM_def bindM_def modifyM_def returnM_def throwM_def
      split: Option.bind_splits sum.splits if_splits)

lemma contained_mapM [simp]: "contained m \<Longrightarrow> contained (mapM f m)"
  by (auto simp: contained_def mapM_def bindM_def returnM_def split: Option.bind_splits sum.splits)

text \<open>\<open>m\<close> leaves the context of the open file as it is.\<close>

definition keeps_context :: "('s callback, 'a) M \<Rightarrow> bool" where
  "keeps_context m \<longleftrightarrow> (\<forall>s r s'. m s = Some (r, s') \<longrightarrow> Context (file_info s') = Context (file_info s))"

named_theorems keeps \<open>computations that leave the context of the open file as it is\<close>

lemma keeps_context_basic [keeps]:
  "keeps_context (returnM a)" "keeps_context (throwM e)" "keeps_context (getM g)" "keeps_context get_conn"
  "keeps_context file_ctx" "keeps_context (connM c)"
  "(\<And>fi. Context (f fi) = Context fi) \<Longrightarrow> keeps_context (set_file_info f)"
  by (auto simp: keeps_context_def returnM_def throwM_def getM_def get_conn_def file_ctx_def connM_def set_file_info_def
      modifyM_def split: option.splits)

lemma keeps_context_bindM [keeps]:
  assumes "keeps_context m" and "\<And>a. keeps_context (k a)"
  shows "keeps_context (bindM m k)"
  using assms by (fastforce simp: keeps_context_def bindM_def split: Option.bind_splits sum.splits)

lemma keeps_context_thenM [keeps]: "keeps_context m \<Longrightarrow> keeps_context k \<Longrightarrow> keeps_context (thenM m k)"
  by (simp add: thenM_def keeps_context_bindM)

lemma keeps_context_if [keeps]: "keeps_context m \<Longrightarrow> keeps_context k \<Longrightarrow> keeps_context (if b then m else k)"
  by simp

lemma keeps_context_nan_handler [keeps]: "keeps_context m \<Longrightarrow> keeps_context (nan_handler a m)"
  by (fastforce simp: keeps_context_def nan_handler_def catchM_def thenM_def bindM_def modifyM_def returnM_def throwM_def
      split: Option.bind_splits sum.splits if_splits)

lemma keeps_context_mapM [keeps]: "keeps_context m \<Longrightarrow> keeps_context (mapM f m)"
  by (simp add: mapM_def keeps)

lemmas callback_defs = create_file_def clean_up_def close_file_def read_file_def write_file_def flush_file_buffers_def
  get_file_information_def find_files_def set_file_attributes_def set_file_time_def delete_file_def delete_directory_def
  move_file_def set_end_of_file_def set_allocation_size_def lock_file_def unlock_file_def get_disk_free_space_def
  get_volume_information_def mounted_def unmounted_def get_file_security_def set_file_security_def find_streams_def

end
