(* ===== verification/Protocol.thy ===== *)
theory Protocol
  imports Responses
begin

text \<open>
  The messages of the protocol as data: one constructor per request of \<open>RequestType\<close> with
  the arguments it carries, the responses, and their byte forms on the wire. Both sides are
  verified against these forms: \<open>Connection\<close> writes \<open>request_bytes\<close> and reads
  \<open>response_bytes\<close>, \<open>ClientHandler\<close> the other way round.
\<close>

section \<open>Requests and responses\<close>

datatype request =
    ReqStat string | ReqList string | ReqCreateDirectory string
  | ReqCheckRemoveFile string | ReqCheckRemoveDirectory string
  | ReqRemoveFile string | ReqRemoveDirectory string
  | ReqMove MoveEntryArgs | ReqOpen OpenHandleArgs | ReqClose FILE_HANDLE
  | ReqRead ReadHandleArgs | ReqWrite FILE_HANDLE u64 "u8 list"
  | ReqTruncate TruncateHandleArgs | ReqSetTime SetFileTimeArgs | ReqDiskStats

definition write_args :: "FILE_HANDLE \<Rightarrow> u64 \<Rightarrow> u8 list \<Rightarrow> WriteHandleInitArgs" where
  "write_args h off bs = \<lparr>wh_handle = h, wh_offset = off, wh_data_len = word_of_nat (length bs)\<rparr>"

fun request_type :: "request \<Rightarrow> RequestType" where
  "request_type (ReqStat p) = StatFile"
| "request_type (ReqList p) = ListDirectory"
| "request_type (ReqCreateDirectory p) = CreateDirectory"
| "request_type (ReqCheckRemoveFile p) = CheckRemoveFile"
| "request_type (ReqCheckRemoveDirectory p) = CheckRemoveDirectory"
| "request_type (ReqRemoveFile p) = RemoveFile"
| "request_type (ReqRemoveDirectory p) = RemoveDirectory"
| "request_type (ReqMove a) = MoveEntry"
| "request_type (ReqOpen a) = OpenHandle"
| "request_type (ReqClose h) = CloseHandle"
| "request_type (ReqRead a) = ReadHandle"
| "request_type (ReqWrite h off bs) = WriteHandle"
| "request_type (ReqTruncate a) = TruncateHandle"
| "request_type (ReqSetTime a) = SetFileTime"
| "request_type ReqDiskStats = GetDiskStats"

fun request_body :: "request \<Rightarrow> u8 list" where
  "request_body (ReqStat p) = utf8_bytes p"
| "request_body (ReqList p) = utf8_bytes p"
| "request_body (ReqCreateDirectory p) = utf8_bytes p"
| "request_body (ReqCheckRemoveFile p) = utf8_bytes p"
| "request_body (ReqCheckRemoveDirectory p) = utf8_bytes p"
| "request_body (ReqRemoveFile p) = utf8_bytes p"
| "request_body (ReqRemoveDirectory p) = utf8_bytes p"
| "request_body (ReqMove a) = MoveEntryArgs_bytes a"
| "request_body (ReqOpen a) = OpenHandleArgs_bytes a"
| "request_body (ReqClose h) = be_bytes 4 h"
| "request_body (ReqRead a) = ReadHandleArgs_bytes a"
| "request_body (ReqWrite h off bs) = WriteHandleInitArgs_bytes (write_args h off bs) @ bs"
| "request_body (ReqTruncate a) = TruncateHandleArgs_bytes a"
| "request_body (ReqSetTime a) = SetFileTimeArgs_bytes a"
| "request_body ReqDiskStats = []"

definition request_bytes :: "request \<Rightarrow> u8 list" where
  "request_bytes req = u8_of_RequestType (request_type req) # request_body req"

text \<open>The requests with a wire form: strings fit their 16-bit length, buffers an \<open>int\<close>.\<close>

fun valid_request :: "request \<Rightarrow> bool" where
  "valid_request (ReqMove a) \<longleftrightarrow> length (from_path a) \<le> 65535 \<and> length (to_path a) \<le> 65535"
| "valid_request (ReqOpen a) \<longleftrightarrow> length (oh_path a) \<le> 65535 \<and> named_mode (oh_mode a)"
| "valid_request (ReqClose h) \<longleftrightarrow> True"
| "valid_request (ReqRead a) \<longleftrightarrow> uint (rh_data_len a) < 2 ^ 31"
| "valid_request (ReqWrite h off bs) \<longleftrightarrow> length bs < 2 ^ 31"
| "valid_request (ReqTruncate a) \<longleftrightarrow> True"
| "valid_request (ReqSetTime a) \<longleftrightarrow> length (st_path a) \<le> 65535"
| "valid_request ReqDiskStats \<longleftrightarrow> True"
| "valid_request (ReqStat p) \<longleftrightarrow> length p \<le> 65535"
| "valid_request (ReqList p) \<longleftrightarrow> length p \<le> 65535"
| "valid_request (ReqCreateDirectory p) \<longleftrightarrow> length p \<le> 65535"
| "valid_request (ReqCheckRemoveFile p) \<longleftrightarrow> length p \<le> 65535"
| "valid_request (ReqCheckRemoveDirectory p) \<longleftrightarrow> length p \<le> 65535"
| "valid_request (ReqRemoveFile p) \<longleftrightarrow> length p \<le> 65535"
| "valid_request (ReqRemoveDirectory p) \<longleftrightarrow> length p \<le> 65535"

datatype response =
    RespStatus ResponseStatus
  | RespStat FileStat
  | RespHandle FILE_HANDLE
  | RespData "u8 list"
  | RespDisk DiskStats
  | RespListing "(string \<times> ResponseStatus \<times> FileStat) list"

fun entry_bytes :: "string \<times> ResponseStatus \<times> FileStat \<Rightarrow> u8 list" where
  "entry_bytes (name, status, stat) =
     (if status = Success then u8_of_ResponseStatus Success # utf8_bytes name @ FileStat_bytes stat
      else [u8_of_ResponseStatus status])"

fun response_bytes :: "response \<Rightarrow> u8 list" where
  "response_bytes (RespStatus st) = [u8_of_ResponseStatus st]"
| "response_bytes (RespStat fs) = u8_of_ResponseStatus Success # FileStat_bytes fs"
| "response_bytes (RespHandle h) = u8_of_ResponseStatus Success # be_bytes 4 h"
| "response_bytes (RespData bs) = u8_of_ResponseStatus Success # be_bytes 4 (word_of_nat (length bs) :: u32) @ bs"
| "response_bytes (RespDisk ds) = u8_of_ResponseStatus Success # DiskStats_bytes ds"
| "response_bytes (RespListing es) =
     u8_of_ResponseStatus Success # concat (map entry_bytes es) @ [u8_of_ResponseStatus NoMoreEntries]"

end
