(* ===== verification/Client_Refinement.thy ===== *)
theory Client_Refinement
  imports Connection Protocol
begin

text \<open>
  The request functions of \<open>Connection\<close> against the protocol: each sends exactly the wire
  form of its request and turns the wire form of the response into its result, and its
  effect on the two caches is stated. \<open>client\<close> is the contract: a connected socket.
\<close>

section \<open>Caches and streams are independent\<close>

lemma conn_upd [simp]:
  fixes s :: "'s Connection"
  shows "ep_ok V (s\<lparr>stat_cache := c\<rparr>) = ep_ok V s" "in_of V (s\<lparr>stat_cache := c\<rparr>) = in_of V s"
    "out_of V (s\<lparr>stat_cache := c\<rparr>) = out_of V s"
    "ep_ok V (s\<lparr>dir_list_cache := d\<rparr>) = ep_ok V s" "in_of V (s\<lparr>dir_list_cache := d\<rparr>) = in_of V s"
    "out_of V (s\<lparr>dir_list_cache := d\<rparr>) = out_of V s"
    "ep_ok V (s\<lparr>clock_reads := n\<rparr>) = ep_ok V s" "in_of V (s\<lparr>clock_reads := n\<rparr>) = in_of V s"
    "out_of V (s\<lparr>clock_reads := n\<rparr>) = out_of V s"
  by (simp_all add: ep_ok_def in_of_def out_of_def)

lemma io_step_conn:
  fixes s s' :: "'s Connection"
  assumes "io_step V i out s s'"
  shows "ep_ok V s' \<and> in_of V s' = i \<and> out_of V s' = out \<and> stat_cache s' = stat_cache s
    \<and> dir_list_cache s' = dir_list_cache s \<and> clock_reads s' = clock_reads s"
  using assms by (cases s, cases s') (simp add: io_step_def ep_frame_def)

lemma Connection_init_ok [simp]:
  "ep_ok V (Connection_init env t) = usable V t" "in_of V (Connection_init env t) = incoming V t"
  "out_of V (Connection_init env t) = outgoing V t" "clock_reads (Connection_init env t) = 2"
  "socket (Connection_init env t) = t" "buffer_bytes_filled (writer (Connection_init env t)) = 0"
  by (simp_all add: Connection_init_def ep_ok_def in_of_def out_of_def CONN_BUFFER_SIZE_def
      reader_inv_DataReader writer_inv_DataWriter) (simp add: DataWriter_def)

text \<open>What \<open>invalidate_parent_dir\<close> does to the listing cache.\<close>

definition drop_parent :: "string \<Rightarrow> string list TimedCache \<Rightarrow> string list TimedCache" where
  "drop_parent p c = (case get_parent_path p of None \<Rightarrow> c | Some parent \<Rightarrow> invalidate parent c)"

definition drop_path :: "string \<Rightarrow> 's Connection \<Rightarrow> 's Connection" where
  "drop_path p s = s\<lparr>stat_cache := invalidate p (stat_cache s), dir_list_cache := drop_parent p (dir_list_cache s)\<rparr>"

lemma drop_path_streams [simp]:
  "ep_ok V (drop_path p s) = ep_ok V s" "in_of V (drop_path p s) = in_of V s" "out_of V (drop_path p s) = out_of V s"
  by (simp_all add: drop_path_def)

lemma invalidate_parent_dir_modify:
  "invalidate_parent_dir p = modifyM (\<lambda>s. s\<lparr>dir_list_cache := drop_parent p (dir_list_cache s)\<rparr>)"
  by (auto simp: invalidate_parent_dir_def drop_parent_def modifyM_def returnM_def split: option.splits)

lemma drop_path_thenM:
  "thenM (stat_cache_invalidate p) (thenM (invalidate_parent_dir p) k) = thenM (modifyM (drop_path p)) k"
  by (simp add: stat_cache_invalidate_def invalidate_parent_dir_modify thenM_def bindM_def modifyM_def drop_path_def)

lemma modifyM_thenM: "thenM (modifyM f) (thenM (modifyM g) k) = thenM (modifyM (\<lambda>s. g (f s))) k"
  by (simp add: thenM_def bindM_def modifyM_def)

lemma thenM_assoc: "thenM (thenM a b) c = thenM a (thenM b c)"
  by (simp add: thenM_def bindM_assoc)

text \<open>
  The state after a lookup in, and after a store into, the stat cache; and after the listing
  of the parent has been dropped.
\<close>

definition looked_up :: "'s conn_env \<Rightarrow> string \<Rightarrow> 's Connection \<Rightarrow> 's Connection" where
  "looked_up env p s = s\<lparr>stat_cache := snd (get_cached (steady_clock env (clock_reads s)) p (stat_cache s)),
     clock_reads := clock_reads s + 1\<rparr>"

definition stat_stored :: "'s conn_env \<Rightarrow> string \<Rightarrow> FileStat \<Rightarrow> 's Connection \<Rightarrow> 's Connection" where
  "stat_stored env p st s = s\<lparr>stat_cache := cache (steady_clock env (clock_reads s)) (steady_clock env (clock_reads s + 1))
     p st (stat_cache s), clock_reads := clock_reads s + 2\<rparr>"

definition dir_looked_up :: "'s conn_env \<Rightarrow> string \<Rightarrow> 's Connection \<Rightarrow> 's Connection" where
  "dir_looked_up env p s = s\<lparr>dir_list_cache := snd (get_cached (steady_clock env (clock_reads s)) p (dir_list_cache s)),
     clock_reads := clock_reads s + 1\<rparr>"

definition dir_stored :: "'s conn_env \<Rightarrow> string \<Rightarrow> string list \<Rightarrow> 's Connection \<Rightarrow> 's Connection" where
  "dir_stored env p names s = s\<lparr>dir_list_cache := cache (steady_clock env (clock_reads s)) (steady_clock env (clock_reads s + 1))
     p names (dir_list_cache s), clock_reads := clock_reads s + 2\<rparr>"

definition parent_dropped :: "string \<Rightarrow> 's Connection \<Rightarrow> 's Connection" where
  "parent_dropped p s = s\<lparr>dir_list_cache := drop_parent p (dir_list_cache s)\<rparr>"

lemma cache_states_streams [simp]:
  "ep_ok V (looked_up env p s) = ep_ok V s" "in_of V (looked_up env p s) = in_of V s" "out_of V (looked_up env p s) = out_of V s"
  "ep_ok V (stat_stored env p st s) = ep_ok V s" "in_of V (stat_stored env p st s) = in_of V s"
  "out_of V (stat_stored env p st s) = out_of V s"
  "ep_ok V (parent_dropped p s) = ep_ok V s" "in_of V (parent_dropped p s) = in_of V s"
  "out_of V (parent_dropped p s) = out_of V s"
  "ep_ok V (dir_looked_up env p s) = ep_ok V s" "in_of V (dir_looked_up env p s) = in_of V s"
  "out_of V (dir_looked_up env p s) = out_of V s"
  "ep_ok V (dir_stored env p names s) = ep_ok V s" "in_of V (dir_stored env p names s) = in_of V s"
  "out_of V (dir_stored env p names s) = out_of V s"
  by (simp_all add: looked_up_def stat_stored_def parent_dropped_def dir_looked_up_def dir_stored_def)

lemma clock_reads_looked_up [simp]: "clock_reads (looked_up env p s) = clock_reads s + 1"
  by (simp add: looked_up_def)

lemma stat_cache_get_run: "stat_cache_get env p s =
    Some (Inr (fst (get_cached (steady_clock env (clock_reads s)) p (stat_cache s))), looked_up env p s)"
  by (simp add: stat_cache_get_def looked_up_def split: prod.split)

lemma wp_stat_cache_get [simp]:
  "wp (stat_cache_get env p) Q s \<longleftrightarrow>
     Q (Inr (fst (get_cached (steady_clock env (clock_reads s)) p (stat_cache s)))) (looked_up env p s)"
  by (simp add: wp_def stat_cache_get_run)

lemma wp_stat_cache_put [simp]: "wp (stat_cache_put env p st) Q s \<longleftrightarrow> Q (Inr ()) (stat_stored env p st s)"
  by (simp add: stat_cache_put_def stat_stored_def)

lemma wp_invalidate_parent_dir [simp]: "wp (invalidate_parent_dir p) Q s \<longleftrightarrow> Q (Inr ()) (parent_dropped p s)"
  by (simp add: invalidate_parent_dir_modify parent_dropped_def)

lemma dir_cache_get_run: "dir_cache_get env p s =
    Some (Inr (fst (get_cached (steady_clock env (clock_reads s)) p (dir_list_cache s))), dir_looked_up env p s)"
  by (simp add: dir_cache_get_def dir_looked_up_def split: prod.split)

lemma wp_dir_cache_get [simp]:
  "wp (dir_cache_get env p) Q s \<longleftrightarrow>
     Q (Inr (fst (get_cached (steady_clock env (clock_reads s)) p (dir_list_cache s)))) (dir_looked_up env p s)"
  by (simp add: wp_def dir_cache_get_run)

lemma wp_dir_cache_put [simp]: "wp (dir_cache_put env p names) Q s \<longleftrightarrow> Q (Inr ()) (dir_stored env p names s)"
  by (simp add: dir_cache_put_def dir_stored_def)

text \<open>Cache changes and stream steps commute.\<close>

lemma io_step_cache_states:
  assumes "io_step V i out s s'"
  shows "io_step V i out (stat_stored env p st s) (stat_stored env p st s')"
    and "io_step V i out (parent_dropped p s) (parent_dropped p s')"
    and "io_step V i out (dir_stored env p names s) (dir_stored env p names s')"
  using assms by (cases s, cases s',
    simp add: io_step_def ep_frame_def stat_stored_def parent_dropped_def dir_stored_def ep_ok_def in_of_def out_of_def)+

section \<open>Results in terms of responses\<close>

definition creates :: "OpenMode \<Rightarrow> bool" where
  "creates mode \<longleftrightarrow> mode = CreateAlways \<or> mode = CreateIfNotExist \<or> mode = CreateOrTruncate"

text \<open>The decoding of a response to an open request.\<close>

fun open_result :: "response \<Rightarrow> ResponseStatus \<times> FILE_HANDLE option" where
  "open_result (RespHandle h) = (Success, Some h)"
| "open_result (RespStatus st) = (st, None)"
| "open_result _ = (GenericFailure, None)"

definition open_response :: "response \<Rightarrow> bool" where
  "open_response resp \<longleftrightarrow> (case resp of RespHandle _ \<Rightarrow> True | RespStatus st \<Rightarrow> named_status st \<and> st \<noteq> Success | _ \<Rightarrow> False)"

text \<open>The entries a listing can carry: names that fit and convert, named codes other than the end marker.\<close>

fun entry_ok :: "'s conn_env \<Rightarrow> string \<times> ResponseStatus \<times> FileStat \<Rightarrow> bool" where
  "entry_ok env (name, status, stat) \<longleftrightarrow> length name \<le> 65535 \<and> named_status status \<and> status \<noteq> NoMoreEntries
     \<and> (status = Success \<longrightarrow> from_utf8 env name \<noteq> None)"

definition shown :: "(string \<times> ResponseStatus \<times> FileStat) list \<Rightarrow> (string \<times> FileStat) list" where
  "shown es = map (\<lambda>(name, status, stat). (name, stat)) (filter (\<lambda>(name, status, stat). status = Success) es)"

definition win_name :: "'s conn_env \<Rightarrow> string \<Rightarrow> wstring" where
  "win_name env name = (case unix_path_to_win32 (from_utf8 env) name of Inl _ \<Rightarrow> [] | Inr w \<Rightarrow> w)"

definition calls_of :: "'s conn_env \<Rightarrow> (string \<times> FileStat) list \<Rightarrow> (FileStat \<times> wstring) list" where
  "calls_of env = map (\<lambda>(name, stat). (stat, win_name env name))"

fun entries_stored :: "'s conn_env \<Rightarrow> string \<Rightarrow> (string \<times> FileStat) list \<Rightarrow> 's Connection \<Rightarrow> 's Connection" where
  "entries_stored env dir [] s = s"
| "entries_stored env dir ((name, stat) # es) s = entries_stored env dir es (stat_stored env (get_full_path dir name) stat s)"

section \<open>Exchanges\<close>

locale client = win_socket "winsock env" V
  for env :: "'s conn_env" and V :: "'s sock_view"
begin

lemma read_status_spec [io_rules]:
  assumes "named_status st"
  shows "transacts V [u8_of_ResponseStatus st] [] (read_status env) st"
proof -
  have "transacts V ([u8_of_ResponseStatus st] @ []) [] (read_status env) st"
    unfolding read_status_def
    by (rule transacts_read [OF conn.transacts_read_byte conn.transacts_built]) (simp add: assms)
  then show ?thesis by simp
qed

text \<open>A request: code, body, flush, then the reading of the answer.\<close>

lemma transacts_request:
  fixes m :: "('s Connection, unit) M"
  assumes "transacts V [] (request_body req) m ()" and "transacts V inp [] k a"
  shows "transacts V inp (request_bytes req)
    (thenM (write_request env (request_type req)) (thenM m (thenM (flush (conn_write env)) k))) a"
proof -
  have "transacts V ([] @ [] @ [] @ inp) ([u8_of_RequestType (request_type req)] @ request_body req @ [] @ [])
    (thenM (write_request env (request_type req)) (thenM m (thenM (flush (conn_write env)) k))) a"
    unfolding write_request_def
    by (rule transacts_thenM conn.transacts_write_byte assms conn.transacts_flush)+
  then show ?thesis by (simp add: request_bytes_def)
qed

lemma transacts_status_request:
  fixes m :: "('s Connection, unit) M"
  assumes "transacts V [] (request_body req) m ()" and "named_status st"
  shows "transacts V (response_bytes (RespStatus st)) (request_bytes req)
    (thenM (write_request env (request_type req)) (thenM m (thenM (flush (conn_write env)) (read_status env)))) st"
  using transacts_request [OF assms(1) read_status_spec [OF assms(2)]] by simp

text \<open>When the daemon has closed the connection, the answer is an \<open>EOFException\<close>.\<close>

lemma read_status_eof:
  fixes s :: "'s Connection"
  assumes "ep_ok V s" and "in_of V s = []"
  shows "wp (read_status env) (\<lambda>r s'. r = Inl EOFException) s"
  unfolding read_status_def by (simp, rule conn.wp_read_byte_eof [OF assms]) simp

lemma request_eof:
  fixes m :: "('s Connection, unit) M"
  assumes "transacts V [] (request_body req) m ()" and "ep_ok V s" and "in_of V s = []"
  shows "wp (thenM (write_request env (request_type req)) (thenM m (thenM (flush (conn_write env)) (bindM (read_status env) k))))
    (\<lambda>r s'. r = Inl EOFException) s"
proof -
  let ?send = "thenM (write_request env (request_type req)) (thenM m (flush (conn_write env)))"
  have "transacts V ([] @ [] @ []) ([u8_of_RequestType (request_type req)] @ request_body req @ []) ?send ()"
    unfolding write_request_def by (rule transacts_thenM conn.transacts_write_byte assms(1) conn.transacts_flush)+
  then have "wp ?send (\<lambda>r s'. r = Inr () \<and> ep_ok V s' \<and> in_of V s' = []) s"
    by (rule wp_transacts [where rest = "[]"]) (use assms(2,3) in \<open>auto dest: io_step_conn\<close>)
  then obtain s1 where run: "?send s = Some (Inr (), s1)" and s1: "ep_ok V s1" "in_of V s1 = []"
    unfolding wp_iff by auto
  have "thenM (write_request env (request_type req)) (thenM m (thenM (flush (conn_write env)) (bindM (read_status env) k)))
      = bindM ?send (\<lambda>_. bindM (read_status env) k)"
    by (simp add: thenM_def bindM_assoc)
  then show ?thesis
    by (simp only: wp_bindM_run [of ?send, OF run]) (simp, rule wp_mono [OF read_status_eof [OF s1]], simp)
qed

lemma req_can_remove_file_spec:
  assumes "win32_path_to_unix (to_utf8 env) path = p" and "length p \<le> 65535" and "named_status st"
  shows "transacts V (response_bytes (RespStatus st)) (request_bytes (ReqCheckRemoveFile p)) (req_can_remove_file env path) st"
  using transacts_status_request [of "ReqCheckRemoveFile p" "write_utf8_string (conn_write env) p" st] assms
  by (simp add: req_can_remove_file_def conn.transacts_write_utf8_string)

lemma req_can_remove_directory_spec:
  assumes "win32_path_to_unix (to_utf8 env) path = p" and "length p \<le> 65535" and "named_status st"
  shows "transacts V (response_bytes (RespStatus st)) (request_bytes (ReqCheckRemoveDirectory p))
    (req_can_remove_directory env path) st"
  using transacts_status_request [of "ReqCheckRemoveDirectory p" "write_utf8_string (conn_write env) p" st] assms
  by (simp add: req_can_remove_directory_def conn.transacts_write_utf8_string)

lemma req_close_file_spec:
  assumes "named_status st"
  shows "transacts V (response_bytes (RespStatus st)) (request_bytes (ReqClose h)) (req_close_file env h) st"
  using transacts_status_request [of "ReqClose h" "write_u32 (conn_write env) h" st] assms
  by (simp add: req_close_file_def conn.transacts_write_u32)

lemma req_set_file_len_spec:
  assumes "named_status st"
  shows "transacts V (response_bytes (RespStatus st)) (request_bytes (ReqTruncate \<lparr>th_handle = h, new_length = n\<rparr>))
    (req_set_file_len env h n) st"
  using transacts_status_request [of "ReqTruncate \<lparr>th_handle = h, new_length = n\<rparr>"
      "TruncateHandleArgs_write (conn_write env) \<lparr>th_handle = h, new_length = n\<rparr>" st] assms
  by (simp add: req_set_file_len_def conn.TruncateHandleArgs_write_spec)

lemma req_write_to_file_spec:
  assumes "named_status st" and "length bs < 2 ^ 31"
  shows "transacts V (response_bytes (RespStatus st)) (request_bytes (ReqWrite h off bs))
    (req_write_to_file env h off bs (word_of_nat (length bs))) st"
proof -
  have "sint (word_of_nat (length bs) :: u32) = int (length bs)"
    using assms(2) by (rule small_word)
  then have "transacts V [] (WriteHandleInitArgs_bytes (write_args h off bs) @ bs)
     (thenM (WriteHandleInitArgs_write (conn_write env) (write_args h off bs))
            (write_exact (conn_write env) bs (sint (word_of_nat (length bs) :: u32)))) ()"
    by (rule transacts_write [OF conn.WriteHandleInitArgs_write_spec conn.transacts_write_exact])
  from transacts_status_request [of "ReqWrite h off bs", simplified, OF this assms(1)] show ?thesis
    by (simp add: req_write_to_file_def write_args_def thenM_assoc)
qed

text \<open>Reading a status and then, on success, a value.\<close>

lemma transacts_status_then:
  assumes "named_status st" and "transacts V inp [] (k st) a"
  shows "transacts V (u8_of_ResponseStatus st # inp) [] (bindM (read_status env) k) a"
  using transacts_read [of V _ _ st inp k a, OF read_status_spec [OF assms(1)] assms(2)] by simp

lemma transacts_tagged:
  assumes "transacts V inp [] m a" and "f a = b"
  shows "transacts V inp [] (bindM m (\<lambda>x. returnM (f x))) b"
  using transacts_read [OF assms(1), of "[]" "\<lambda>x. returnM (f x)" b] by (simp add: assms(2) transacts_returnM)

lemma named_Success [simp]: "named_status Success"
  by (simp add: named_status_def)

lemma req_get_disk_stats_spec:
  "transacts V (response_bytes (RespDisk ds)) (request_bytes ReqDiskStats) (req_get_disk_stats env) (Success, Some ds)"
  "named_status st \<Longrightarrow> st \<noteq> Success \<Longrightarrow>
     transacts V (response_bytes (RespStatus st)) (request_bytes ReqDiskStats) (req_get_disk_stats env) (st, None)"
proof -
  let ?k = "\<lambda>status. if status = Success
        then bindM (DiskStats_read (conn_read env)) (\<lambda>stats. returnM (status, Some stats))
        else returnM (status, None)"
  have req: "transacts V inp (request_bytes ReqDiskStats) (req_get_disk_stats env) a"
    if "transacts V inp [] (bindM (read_status env) ?k) a" for inp a
    using transacts_request [of ReqDiskStats "returnM ()", OF _ that]
    by (simp add: req_get_disk_stats_def thenM_def transacts_returnM)
  show "transacts V (response_bytes (RespDisk ds)) (request_bytes ReqDiskStats) (req_get_disk_stats env) (Success, Some ds)"
    by (rule req) (auto intro!: transacts_status_then transacts_tagged [OF conn.DiskStats_read_spec])
  show "transacts V (response_bytes (RespStatus st)) (request_bytes ReqDiskStats) (req_get_disk_stats env) (st, None)"
    if "named_status st" "st \<noteq> Success"
    by (rule req) (use that in \<open>auto intro!: transacts_status_then transacts_returnM\<close>)
qed

lemma req_read_from_file_spec:
  assumes a: "a = \<lparr>rh_handle = h, rh_data_len = n, rh_offset = off\<rparr>"
  shows "length bs \<le> unat n \<Longrightarrow> length bs < 2 ^ 31 \<Longrightarrow> transacts V (response_bytes (RespData bs)) (request_bytes (ReqRead a))
       (req_read_from_file env h off n) (Success, Some (int (length bs), bs))"
    and "named_status st \<Longrightarrow> st \<noteq> Success \<Longrightarrow> transacts V (response_bytes (RespStatus st)) (request_bytes (ReqRead a))
       (req_read_from_file env h off n) (st, None)"
proof -
  let ?read = "\<lambda>status. bindM (read_u32 (conn_read env)) (\<lambda>len.
             let bytes_read = sint len in
             if bytes_read > uint n then throwM UndefinedBehaviour
             else bindM (read_exact (conn_read env) bytes_read) (\<lambda>bs. returnM (status, Some (bytes_read, bs))))"
  let ?k = "\<lambda>status. if status = Success then ?read status else returnM (status, None)"
  have req: "transacts V inp (request_bytes (ReqRead a)) (req_read_from_file env h off n) x"
    if "transacts V inp [] (bindM (read_status env) ?k) x" for inp x
    using transacts_request [of "ReqRead a" "ReadHandleArgs_write (conn_write env) a", OF _ that]
    by (simp add: req_read_from_file_def a conn.ReadHandleArgs_write_spec)
  show "transacts V (response_bytes (RespData bs)) (request_bytes (ReqRead a))
      (req_read_from_file env h off n) (Success, Some (int (length bs), bs))"
    if len: "length bs \<le> unat n" "length bs < 2 ^ 31"
  proof -
    have w: "sint (word_of_nat (length bs) :: u32) = int (length bs)" "\<not> uint n < int (length bs)"
      using len small_word(2) [OF len(2)] by (simp_all add: not_less le_nat_iff flip: nat_uint_eq)
    have "transacts V (be_bytes 4 (word_of_nat (length bs) :: u32) @ bs) [] (?read Success)
        (Success, Some (int (length bs), bs))"
      by (rule transacts_read [OF conn.transacts_read_u32]) 
         (simp add: w Let_def transacts_tagged [OF conn.transacts_read_exact])
    then show ?thesis
      by (intro req) (auto intro!: transacts_status_then)
  qed
  show "transacts V (response_bytes (RespStatus st)) (request_bytes (ReqRead a)) (req_read_from_file env h off n) (st, None)"
    if "named_status st" "st \<noteq> Success"
    by (rule req) (use that in \<open>auto intro!: transacts_status_then transacts_returnM\<close>)
qed

section \<open>Requests that change the caches\<close>

text \<open>An exchange after the caches have been changed by \<open>f\<close>.\<close>

lemma wp_after_update:
  assumes "transacts V inp out k a" and "\<And>s. ep_ok V (f s) = ep_ok V s" "\<And>s. in_of V (f s) = in_of V s" "\<And>s. out_of V (f s) = out_of V s"
    and "ep_ok V s" and "in_of V s = inp @ rest"
  shows "wp (thenM (modifyM f) k) (\<lambda>r s'. r = Inr a \<and> io_step V rest (out_of V s @ out) (f s) s') s"
proof -
  have "wp k (\<lambda>r s'. r = Inr a \<and> io_step V rest (out_of V s @ out) (f s) s') (f s)"
    by (rule wp_transacts [OF assms(1)]) (simp_all add: assms)
  then show ?thesis by simp
qed

lemma req_remove_file_spec:
  assumes "win32_path_to_unix (to_utf8 env) path = p" and "length p \<le> 65535" and "named_status st"
    and "ep_ok V s" and "in_of V s = response_bytes (RespStatus st) @ rest"
  shows "wp (req_remove_file env path) (\<lambda>r s'. r = Inr st
     \<and> io_step V rest (out_of V s @ request_bytes (ReqRemoveFile p)) (drop_path p s) s') s"
  unfolding req_remove_file_def assms(1) Let_def drop_path_thenM
  by (rule wp_after_update [OF transacts_status_request [of "ReqRemoveFile p", unfolded request_type.simps]])
     (use assms in \<open>simp_all add: conn.transacts_write_utf8_string\<close>)

lemma req_remove_directory_spec:
  assumes "win32_path_to_unix (to_utf8 env) path = p" and "length p \<le> 65535" and "named_status st"
    and "ep_ok V s" and "in_of V s = response_bytes (RespStatus st) @ rest"
  shows "wp (req_remove_directory env path) (\<lambda>r s'. r = Inr st
     \<and> io_step V rest (out_of V s @ request_bytes (ReqRemoveDirectory p)) (drop_path p s) s') s"
  unfolding req_remove_directory_def assms(1) Let_def drop_path_thenM
  by (rule wp_after_update [OF transacts_status_request [of "ReqRemoveDirectory p", unfolded request_type.simps]])
     (use assms in \<open>simp_all add: conn.transacts_write_utf8_string\<close>)

lemma req_create_directory_spec:
  assumes "win32_path_to_unix (to_utf8 env) path = p" and "length p \<le> 65535" and "named_status st"
    and "ep_ok V s" and "in_of V s = response_bytes (RespStatus st) @ rest"
  shows "wp (req_create_directory env path) (\<lambda>r s'. r = Inr st
     \<and> io_step V rest (out_of V s @ request_bytes (ReqCreateDirectory p)) (drop_path p s) s') s"
  unfolding req_create_directory_def assms(1) Let_def drop_path_thenM
  by (rule wp_after_update [OF transacts_status_request [of "ReqCreateDirectory p", unfolded request_type.simps]])
     (use assms in \<open>simp_all add: conn.transacts_write_utf8_string\<close>)

lemma req_set_file_time_spec:
  assumes "a = \<lparr>st_path = win32_path_to_unix (to_utf8 env) path, st_access_time = at, st_write_time = wt\<rparr>"
    and "length (st_path a) \<le> 65535" and "named_status st"
    and "ep_ok V s" and "in_of V s = response_bytes (RespStatus st) @ rest"
  shows "wp (req_set_file_time env path at wt) (\<lambda>r s'. r = Inr st
     \<and> io_step V rest (out_of V s @ request_bytes (ReqSetTime a))
         (s\<lparr>stat_cache := invalidate (st_path a) (stat_cache s)\<rparr>) s') s"
  unfolding req_set_file_time_def Let_def stat_cache_invalidate_def assms(1) SetFileTimeArgs.simps
  by (rule wp_after_update [OF transacts_status_request [of "ReqSetTime a", unfolded request_type.simps assms(1)]])
     (use assms in \<open>simp_all add: conn.SetFileTimeArgs_write_spec\<close>)

lemma req_move_entry_spec:
  assumes "a = \<lparr>from_path = win32_path_to_unix (to_utf8 env) from, to_path = win32_path_to_unix (to_utf8 env) to, overwrite = repl\<rparr>"
    and "length (from_path a) \<le> 65535" and "length (to_path a) \<le> 65535" and "named_status st"
    and "ep_ok V s" and "in_of V s = response_bytes (RespStatus st) @ rest"
  shows "wp (req_move_entry env from to repl) (\<lambda>r s'. r = Inr st
     \<and> io_step V rest (out_of V s @ request_bytes (ReqMove a)) (drop_path (to_path a) (drop_path (from_path a) s)) s') s"
  unfolding req_move_entry_def Let_def drop_path_thenM assms(1) MoveEntryArgs.simps modifyM_thenM
  by (rule wp_after_update [OF transacts_status_request [of "ReqMove a", unfolded request_type.simps assms(1)]])
     (use assms in \<open>simp_all add: conn.MoveEntryArgs_write_spec\<close>)

lemma req_open_file_spec:
  assumes a: "a = \<lparr>oh_path = win32_path_to_unix (to_utf8 env) path, oh_mode = mode, oh_read_access = ra, oh_write_access = wa\<rparr>"
    and "length (oh_path a) \<le> 65535" and "\<not> ends_with (oh_path a) ''desktop.ini''" and "open_response resp"
    and s: "ep_ok V s" "in_of V s = response_bytes resp @ rest"
  shows "wp (req_open_file env path mode ra wa) (\<lambda>r s'. r = Inr (open_result resp)
     \<and> io_step V rest (out_of V s @ request_bytes (ReqOpen a)) (if creates mode then parent_dropped (oh_path a) s else s) s') s"
proof -
  let ?k = "\<lambda>status. bindM (if status = Success then bindM (read_u32 (conn_read env)) (\<lambda>h. returnM (Some h)) else returnM None)
      (\<lambda>h. returnM (status, h))"
  have "transacts V (response_bytes resp) [] (bindM (read_status env) ?k) (open_result resp)"
    using assms(4)
    by (cases resp) (auto simp: open_response_def intro!: transacts_status_then transacts_tagged conn.transacts_read_u32
        transacts_returnM)
  from transacts_request [OF _ this, of "ReqOpen a" "OpenHandleArgs_write (conn_write env) a"] assms(2)
  have "transacts V (response_bytes resp) (request_bytes (ReqOpen a))
      (thenM (write_request env OpenHandle) (thenM (OpenHandleArgs_write (conn_write env) a)
        (thenM (flush (conn_write env)) (bindM (read_status env) ?k)))) (open_result resp)"
    by (simp add: conn.OpenHandleArgs_write_spec)
  from wp_transacts [OF this s, of "\<lambda>r s'. r = Inr (open_result resp) \<and> io_step V rest (out_of V s @ request_bytes (ReqOpen a)) s s'"]
  obtain s1 where run: "thenM (write_request env OpenHandle) (thenM (OpenHandleArgs_write (conn_write env) a)
        (thenM (flush (conn_write env)) (bindM (read_status env) ?k))) s = Some (Inr (open_result resp), s1)"
    and s1: "io_step V rest (out_of V s @ request_bytes (ReqOpen a)) s s1"
    by (auto simp: wp_iff)
  have eq: "req_open_file env path mode ra wa = bindM (thenM (write_request env OpenHandle) (thenM (OpenHandleArgs_write (conn_write env) a)
        (thenM (flush (conn_write env)) (bindM (read_status env) ?k))))
      (\<lambda>res. thenM (if creates mode then invalidate_parent_dir (oh_path a) else returnM ()) (returnM res))"
    using assms(3) by (simp add: req_open_file_def Let_def a creates_def thenM_def bindM_assoc if_distrib [of "\<lambda>m. bindM m _"]
        cong: if_cong)
  show ?thesis
    unfolding eq by (subst wp_bindM_run, rule run) (use s1 io_step_cache_states(2) [OF s1] in simp)
qed

section \<open>Stat requests\<close>

text \<open>A lookup that finds a fresh stat answers without any traffic.\<close>

lemma req_stat_file_hit:
  assumes "p = win32_path_to_unix (to_utf8 env) path"
    and "fst (get_cached (steady_clock env (clock_reads s)) p (stat_cache s)) = Some st"
  shows "wp (req_stat_file env path) (\<lambda>r s'. r = Inr (Success, Some st) \<and> s' = looked_up env p s) s"
  using assms by (simp add: req_stat_file_def Let_def)

text \<open>The part of the function that talks to the daemon.\<close>

definition stat_exchange :: "string \<Rightarrow> ('s Connection, ResponseStatus \<times> FileStat option) M" where
  "stat_exchange p = thenM (write_request env StatFile) (thenM (write_utf8_string (conn_write env) p)
     (thenM (flush (conn_write env)) (bindM (read_status env) (\<lambda>status.
        if status \<noteq> Success then returnM (status, None)
        else bindM (FileStat_read (conn_read env)) (\<lambda>st. returnM (Success, Some st))))))"

lemma stat_exchange_spec:
  assumes "length p \<le> 65535"
  shows "transacts V (response_bytes (RespStat st)) (request_bytes (ReqStat p)) (stat_exchange p) (Success, Some st)"
    and "named_status fl \<Longrightarrow> fl \<noteq> Success \<Longrightarrow>
      transacts V (response_bytes (RespStatus fl)) (request_bytes (ReqStat p)) (stat_exchange p) (fl, None)"
proof -
  let ?k = "\<lambda>status. if status \<noteq> Success then returnM (status, None)
        else bindM (FileStat_read (conn_read env)) (\<lambda>st. returnM (Success, Some st))"
  have req: "transacts V inp (request_bytes (ReqStat p)) (stat_exchange p) x"
    if "transacts V inp [] (bindM (read_status env) ?k) x" for inp x
    using transacts_request [OF _ that, of "ReqStat p" "write_utf8_string (conn_write env) p"] assms
    by (simp add: stat_exchange_def conn.transacts_write_utf8_string)
  show "transacts V (response_bytes (RespStat st)) (request_bytes (ReqStat p)) (stat_exchange p) (Success, Some st)"
    by (rule req) (auto intro!: transacts_status_then transacts_tagged [OF conn.FileStat_read_spec])
  show "transacts V (response_bytes (RespStatus fl)) (request_bytes (ReqStat p)) (stat_exchange p) (fl, None)"
    if "named_status fl" "fl \<noteq> Success"
    by (rule req) (use that in \<open>auto intro!: transacts_status_then transacts_returnM\<close>)
qed

text \<open>The function after two lookups without a fresh stat: the exchange, then the store.\<close>

lemma req_stat_file_miss:
  fixes s :: "'s Connection"
  assumes "p = win32_path_to_unix (to_utf8 env) path"
    and "fst (get_cached (steady_clock env (clock_reads s)) p (stat_cache s)) = None"
    and "fst (get_cached (steady_clock env (clock_reads s + 1)) p (stat_cache (looked_up env p s))) = None"
    and "\<not> ends_with p ''desktop.ini''"
  shows "req_stat_file env path s = bindM (stat_exchange p) (\<lambda>res.
     case res of (_, None) \<Rightarrow> returnM res | (_, Some st) \<Rightarrow> thenM (stat_cache_put env p st) (returnM res))
     (looked_up env p (looked_up env p s))"
proof -
  have get: "stat_cache_get env p s = Some (Inr None, looked_up env p s)"
      "stat_cache_get env p (looked_up env p s) = Some (Inr None, looked_up env p (looked_up env p s))"
    using assms(2,3) by (simp_all add: stat_cache_get_run)
  show ?thesis
    unfolding req_stat_file_def assms(1) [symmetric] Let_def
    by (subst bindM_run, rule get(1), simp only: option.case, subst bindM_run, rule get(2))
       (use assms(4) in \<open>simp add: stat_exchange_def thenM_def bindM_assoc if_distrib [of "\<lambda>m. bindM m _"] cong: if_cong\<close>)
qed

lemma req_stat_file_spec:
  fixes s :: "'s Connection"
  assumes p: "p = win32_path_to_unix (to_utf8 env) path" "length p \<le> 65535" "\<not> ends_with p ''desktop.ini''"
    and clk: "mono (steady_clock env)"
    and miss: "fst (get_cached (steady_clock env (clock_reads s)) p (stat_cache s)) = None"
    and s: "ep_ok V s"
  shows "in_of V s = response_bytes (RespStat st) @ rest \<Longrightarrow> wp (req_stat_file env path) (\<lambda>r s'. r = Inr (Success, Some st)
      \<and> io_step V rest (out_of V s @ request_bytes (ReqStat p)) (stat_stored env p st (looked_up env p (looked_up env p s))) s') s"
    and "in_of V s = response_bytes (RespStatus fl) @ rest \<Longrightarrow> named_status fl \<Longrightarrow> fl \<noteq> Success \<Longrightarrow>
      wp (req_stat_file env path) (\<lambda>r s'. r = Inr (fl, None)
      \<and> io_step V rest (out_of V s @ request_bytes (ReqStat p)) (looked_up env p (looked_up env p s)) s') s"
proof -
  let ?s = "looked_up env p (looked_up env p s)"
  let ?k = "\<lambda>res. case res of (_, None) \<Rightarrow> returnM res | (_, Some st) \<Rightarrow> thenM (stat_cache_put env p st) (returnM res)"
  have "steady_clock env (clock_reads s) \<le> steady_clock env (clock_reads s + 1)"
    using clk by (simp add: monoD)
  with miss have "fst (get_cached (steady_clock env (clock_reads s + 1)) p (stat_cache (looked_up env p s))) = None"
    by (auto simp: looked_up_def get_cached_def Let_def split: option.splits if_splits)
  from req_stat_file_miss [OF p(1) miss this p(3)]
  have run: "wp (req_stat_file env path) Q s = wp (bindM (stat_exchange p) ?k) Q ?s" for Q
    by (simp add: wp_def)
  show "wp (req_stat_file env path) (\<lambda>r s'. r = Inr (Success, Some st)
      \<and> io_step V rest (out_of V s @ request_bytes (ReqStat p)) (stat_stored env p st ?s) s') s"
    if "in_of V s = response_bytes (RespStat st) @ rest"
    unfolding run wp_bindM
    by (rule wp_transacts [OF stat_exchange_spec(1) [OF p(2)]]) (use s that in \<open>auto intro: io_step_cache_states\<close>)
  show "wp (req_stat_file env path) (\<lambda>r s'. r = Inr (fl, None)
      \<and> io_step V rest (out_of V s @ request_bytes (ReqStat p)) ?s s') s"
    if "in_of V s = response_bytes (RespStatus fl) @ rest" "named_status fl" "fl \<noteq> Success"
    unfolding run wp_bindM
    by (rule wp_transacts [OF stat_exchange_spec(2) [OF p(2) that(2,3)]]) (use s that in auto)
qed

section \<open>Listings\<close>

lemma io_step_entries_stored:
  "io_step V i out s s' \<Longrightarrow> io_step V i out (entries_stored env dir es s) (entries_stored env dir es s')"
  by (induction env dir es s arbitrary: s' rule: entries_stored.induct) (auto intro: io_step_cache_states)

lemma entry_converts: "from_utf8 env name \<noteq> None \<Longrightarrow> unix_path_to_win32 (from_utf8 env) name = Inr (win_name env name)"
  by (auto simp: win_name_def unix_path_to_win32_def wstring_from_string_def)

text \<open>A turn of the loop at an entry the daemon could not stat, and at one with a stat.\<close>

lemma list_stats_skip:
  assumes "named_status status" and "status \<noteq> NoMoreEntries" and "status \<noteq> Success"
    and "ep_ok V s" and "in_of V s = u8_of_ResponseStatus status # tail"
  obtains s1 where "list_stats_loop env dir entries consumed s = list_stats_loop env dir entries consumed s1"
    and "io_step V tail (out_of V s) s s1"
proof -
  from io_step_refl [OF assms(4)] have "io_step V ([u8_of_ResponseStatus status] @ tail) (out_of V s) s s"
    using assms(5) by simp
  from transacts_run [OF read_status_spec [OF assms(1)] this] obtain s1 where
    rd: "read_status env s = Some (Inr status, s1)" and s1: "io_step V tail (out_of V s) s s1" by auto
  have "list_stats_loop env dir entries consumed s = list_stats_loop env dir entries consumed s1"
    by (subst list_stats_loop.simps, subst bindM_run, rule rd) (use assms in simp)
  from that [OF this s1] show thesis .
qed

lemma list_stats_entry:
  assumes name: "length name \<le> 65535" "from_utf8 env name \<noteq> None"
    and "ep_ok V s" and "in_of V s = u8_of_ResponseStatus Success # utf8_bytes name @ FileStat_bytes stat @ tail"
  obtains s1 where "list_stats_loop env dir entries consumed s
      = list_stats_loop env dir (entries @ [name]) (consumed @ [(stat, win_name env name)]) s1"
    and "io_step V tail (out_of V s) (stat_stored env (get_full_path dir name) stat s) s1"
proof -
  let ?full = "get_full_path dir name"
  from io_step_refl [OF assms(3)]
  have "io_step V ([u8_of_ResponseStatus Success] @ utf8_bytes name @ FileStat_bytes stat @ tail) (out_of V s) s s"
    using assms(4) by simp
  from transacts_run [OF read_status_spec [OF named_Success] this] obtain s1 where
    rd: "read_status env s = Some (Inr Success, s1)"
    and "io_step V (utf8_bytes name @ FileStat_bytes stat @ tail) (out_of V s @ []) s s1" by auto
  from transacts_run [OF conn.transacts_read_utf8_string [OF name(1)] this(2)] obtain s2 where
    rn: "read_utf8_string (conn_read env) s1 = Some (Inr name, s2)"
    and "io_step V (FileStat_bytes stat @ tail) ((out_of V s @ []) @ []) s s2" by auto
  from transacts_run [OF conn.FileStat_read_spec this(2)] obtain s3 where
    rs: "FileStat_read (conn_read env) s2 = Some (Inr stat, s3)" and s3: "io_step V tail (out_of V s) s s3" by auto
  have "stat_cache_put env ?full stat s3 = Some (Inr (), stat_stored env ?full stat s3)"
    by (simp add: stat_cache_put_def modifyM_def stat_stored_def)
  then have "list_stats_loop env dir entries consumed s
      = list_stats_loop env dir (entries @ [name]) (consumed @ [(stat, win_name env name)]) (stat_stored env ?full stat s3)"
    by (subst list_stats_loop.simps) (simp add: bindM_def rd rn rs entry_converts [OF name(2)])
  from that [OF this io_step_cache_states(1) [OF s3]] show thesis .
qed

lemma list_stats_loop_spec:
  assumes "list_all (entry_ok env) es" and "ep_ok V s"
    and "in_of V s = concat (map entry_bytes es) @ u8_of_ResponseStatus NoMoreEntries # rest"
  shows "wp (list_stats_loop env dir entries consumed)
     (\<lambda>r s'. r = Inr (entries @ map fst (shown es), consumed @ calls_of env (shown es))
        \<and> io_step V rest (out_of V s) (entries_stored env dir (shown es) s) s') s"
  using assms
proof (induction es arbitrary: s entries consumed)
  case Nil
  have "wp (read_status env) (\<lambda>r s'. r = Inr NoMoreEntries \<and> io_step V rest (out_of V s) s s') s"
    by (rule wp_transacts [OF read_status_spec]) (use Nil in \<open>auto simp: named_status_def\<close>)
  then show ?case
    by (auto simp: wp_iff list_stats_loop.simps [of env dir entries consumed s] bindM_def returnM_def shown_def calls_of_def)
next
  case (Cons e es)
  obtain name status stat where e: "e = (name, status, stat)" by (cases e) auto
  let ?tail = "concat (map entry_bytes es) @ u8_of_ResponseStatus NoMoreEntries # rest"
  from Cons.prems e have ok: "length name \<le> 65535" "named_status status" "status \<noteq> NoMoreEntries" "list_all (entry_ok env) es"
    by auto
  show ?case
  proof (cases "status = Success")
    case False
    with Cons.prems e have "in_of V s = u8_of_ResponseStatus status # ?tail" by simp
    from list_stats_skip [OF ok(2,3) False Cons.prems(2) this] obtain s1 where
      "list_stats_loop env dir entries consumed s = list_stats_loop env dir entries consumed s1"
      and s1: "io_step V ?tail (out_of V s) s s1" by blast
    with False show ?thesis
      using Cons.IH [OF ok(4), of s1 entries consumed] io_stepD [OF s1]
        io_step_trans [OF io_step_entries_stored [OF s1]] by (auto simp: wp_iff shown_def e)
  next
    case True
    let ?full = "get_full_path dir name"
    from Cons.prems e True have conv: "from_utf8 env name \<noteq> None"
      and "in_of V s = u8_of_ResponseStatus Success # utf8_bytes name @ FileStat_bytes stat @ ?tail" by simp_all
    from list_stats_entry [OF ok(1) conv Cons.prems(2) this(2)] obtain s1 where
      run: "list_stats_loop env dir entries consumed s
        = list_stats_loop env dir (entries @ [name]) (consumed @ [(stat, win_name env name)]) s1"
      and s1: "io_step V ?tail (out_of V s) (stat_stored env ?full stat s) s1" by blast
    from True have "shown (e # es) = (name, stat) # shown es" by (simp add: shown_def e)
    with run show ?thesis
      using Cons.IH [OF ok(4), of s1 "entries @ [name]" "consumed @ [(stat, win_name env name)]"] io_stepD [OF s1]
        io_step_trans [OF io_step_entries_stored [OF s1]] by (auto simp: wp_iff calls_of_def)
  qed
qed

text \<open>The function after a lookup without a fresh listing: the exchange up to the status, then the entries.\<close>

definition list_exchange :: "string \<Rightarrow> ('s Connection, ResponseStatus) M" where
  "list_exchange p = thenM (write_request env ListDirectory) (thenM (write_utf8_string (conn_write env) p)
     (thenM (flush (conn_write env)) (bindM (read_status env) returnM)))"

definition list_entries :: "string \<Rightarrow> ('s Connection, ResponseStatus \<times> (FileStat \<times> wstring) list) M" where
  "list_entries p = bindM (list_stats_loop env p [] []) (\<lambda>(entries, calls).
     thenM (dir_cache_put env p entries) (returnM (Success, calls)))"

lemma list_exchange_spec:
  "length p \<le> 65535 \<Longrightarrow> named_status st \<Longrightarrow>
     transacts V [u8_of_ResponseStatus st] (request_bytes (ReqList p)) (list_exchange p) st"
  using transacts_status_request [of "ReqList p" "write_utf8_string (conn_write env) p" st]
  by (simp add: list_exchange_def conn.transacts_write_utf8_string)

lemma req_list_file_stats_miss:
  assumes "p = win32_path_to_unix (to_utf8 env) path"
    and "fst (get_cached (steady_clock env (clock_reads s)) p (dir_list_cache s)) = None"
  shows "wp (req_list_file_stats env path) Q s = wp (bindM (list_exchange p) (\<lambda>status.
     if status \<noteq> Success then returnM (status, []) else list_entries p)) Q (dir_looked_up env p s)"
  unfolding list_entries_def using assms(2)
  by (simp add: req_list_file_stats_def assms(1) [symmetric] Let_def try_use_cached_dir_listing_def
      list_exchange_def thenM_def bindM_assoc)

lemma list_entries_spec:
  assumes "list_all (entry_ok env) es"
    and s: "io_step V (concat (map entry_bytes es) @ u8_of_ResponseStatus NoMoreEntries # rest) out s0 s"
  shows "wp (list_entries p) (\<lambda>r s'. r = Inr (Success, calls_of env (shown es))
    \<and> io_step V rest out (dir_stored env p (map fst (shown es)) (entries_stored env p (shown es) s0)) s') s"
proof -
  from list_stats_loop_spec [OF assms(1) io_stepD(1,3) [OF s], of p "[]" "[]"] obtain s2 where
    loop: "list_stats_loop env p [] [] s = Some (Inr (map fst (shown es), calls_of env (shown es)), s2)"
    and s2: "io_step V rest (out_of V s) (entries_stored env p (shown es) s) s2"
    by (auto simp: wp_iff)
  have "io_step V rest out (entries_stored env p (shown es) s0) s2"
    using io_step_trans [OF io_step_entries_stored [OF s] s2] by (simp add: io_stepD(4) [OF s])
  from io_step_cache_states(3) [OF this] show ?thesis
    by (simp add: list_entries_def wp_bindM_run [of "list_stats_loop env p [] []", OF loop] del: wp_bindM)
qed

lemma req_list_file_stats_spec:
  fixes s :: "'s Connection"
  assumes p: "p = win32_path_to_unix (to_utf8 env) path" "length p \<le> 65535"
    and miss: "fst (get_cached (steady_clock env (clock_reads s)) p (dir_list_cache s)) = None"
    and s: "ep_ok V s"
  shows "in_of V s = response_bytes (RespListing es) @ rest \<Longrightarrow> list_all (entry_ok env) es \<Longrightarrow>
      wp (req_list_file_stats env path) (\<lambda>r s'. r = Inr (Success, calls_of env (shown es))
        \<and> io_step V rest (out_of V s @ request_bytes (ReqList p))
            (dir_stored env p (map fst (shown es)) (entries_stored env p (shown es) (dir_looked_up env p s))) s') s"
    and "in_of V s = response_bytes (RespStatus fl) @ rest \<Longrightarrow> named_status fl \<Longrightarrow> fl \<noteq> Success \<Longrightarrow>
      wp (req_list_file_stats env path) (\<lambda>r s'. r = Inr (fl, [])
        \<and> io_step V rest (out_of V s @ request_bytes (ReqList p)) (dir_looked_up env p s) s') s"
  unfolding req_list_file_stats_miss [OF p(1) miss] wp_bindM
proof -
  let ?s = "dir_looked_up env p s"
  have ok: "ep_ok V ?s" and io: "in_of V ?s = in_of V s" "out_of V ?s = out_of V s" using s by simp_all
  show "wp (list_exchange p) (\<lambda>r s'. case r of
        Inl e \<Rightarrow> Inl e = Inr (Success, calls_of env (shown es)) \<and> io_step V rest (out_of V s @ request_bytes (ReqList p))
          (dir_stored env p (map fst (shown es)) (entries_stored env p (shown es) ?s)) s'
      | Inr status \<Rightarrow> wp (if status \<noteq> Success then returnM (status, []) else list_entries p)
          (\<lambda>r s'. r = Inr (Success, calls_of env (shown es)) \<and> io_step V rest (out_of V s @ request_bytes (ReqList p))
             (dir_stored env p (map fst (shown es)) (entries_stored env p (shown es) ?s)) s') s') ?s"
    if "in_of V s = response_bytes (RespListing es) @ rest" "list_all (entry_ok env) es"
    by (rule wp_transacts [OF list_exchange_spec [OF p(2) named_Success] ok])
       (use that io list_entries_spec [OF that(2)] in simp_all)
  show "wp (list_exchange p) (\<lambda>r s'. case r of
        Inl e \<Rightarrow> Inl e = Inr (fl, []) \<and> io_step V rest (out_of V s @ request_bytes (ReqList p)) ?s s'
      | Inr status \<Rightarrow> wp (if status \<noteq> Success then returnM (status, []) else list_entries p)
          (\<lambda>r s'. r = Inr (fl, []) \<and> io_step V rest (out_of V s @ request_bytes (ReqList p)) ?s s') s') ?s"
    if "in_of V s = response_bytes (RespStatus fl) @ rest" "named_status fl" "fl \<noteq> Success"
    by (rule wp_transacts [OF list_exchange_spec [OF p(2) that(2)] ok]) (use that io in simp_all)
qed

end

end
