(* ===== verification/Client_Handler.thy ===== *)
theory Client_Handler
  imports Sockets Responses Path_Utils
begin

text \<open>
  \<open>nandroid_daemon/src/ClientHandler.cpp\<close>: the daemon's request handlers and its message
  loop. The device's file system is the parameter \<open>os\<close>, one function per system call the
  code makes, over a world state.
\<close>

unbundle bit_operations_syntax

section \<open>System calls\<close>

record posix_stat =
  st_mode :: u32
  st_size :: u64
  st_atime :: u64
  st_mtime :: u64

record posix_statvfs =
  f_bsize :: u64
  f_frsize :: u64
  f_blocks :: u64
  f_bfree :: u64
  f_bavail :: u64
  f_favail :: u64

text \<open>\<open>tv_nsec = None\<close> is \<open>UTIME_OMIT\<close>: leave the time unchanged.\<close>

record timespec =
  tv_sec :: int
  tv_nsec :: "int option"

text \<open>
  \<open>Inl e\<close> is a return of \<open>-1\<close> (or a null pointer) with \<open>errno = e\<close>. The calls that only
  inspect the file system do not change the world. \<open>sys_read\<close> returns the bytes stored,
  \<open>sys_readdir\<close> the next entry name, or none at the end.
\<close>

record ('w, 'd) posix =
  sys_stat :: "string \<Rightarrow> 'w \<Rightarrow> errno + posix_stat"
  sys_opendir :: "string \<Rightarrow> 'w \<Rightarrow> (errno + 'd) \<times> 'w"
  sys_readdir :: "'d \<Rightarrow> 'w \<Rightarrow> string option \<times> 'w"
  sys_closedir :: "'d \<Rightarrow> 'w \<Rightarrow> 'w"
  sys_rename :: "string \<Rightarrow> string \<Rightarrow> 'w \<Rightarrow> (errno + unit) \<times> 'w"
  sys_unlink :: "string \<Rightarrow> 'w \<Rightarrow> (errno + unit) \<times> 'w"
  sys_rmdir :: "string \<Rightarrow> 'w \<Rightarrow> (errno + unit) \<times> 'w"
  sys_mkdir :: "string \<Rightarrow> u32 \<Rightarrow> 'w \<Rightarrow> (errno + unit) \<times> 'w"
  sys_open :: "string \<Rightarrow> u32 \<Rightarrow> u32 \<Rightarrow> 'w \<Rightarrow> (errno + int) \<times> 'w"
  sys_close :: "int \<Rightarrow> 'w \<Rightarrow> 'w"
  sys_lseek :: "int \<Rightarrow> int \<Rightarrow> 'w \<Rightarrow> (errno + int) \<times> 'w"
  sys_read :: "int \<Rightarrow> nat \<Rightarrow> 'w \<Rightarrow> (errno + u8 list) \<times> 'w"
  sys_write :: "int \<Rightarrow> u8 list \<Rightarrow> 'w \<Rightarrow> (errno + int) \<times> 'w"
  sys_ftruncate :: "int \<Rightarrow> int \<Rightarrow> 'w \<Rightarrow> (errno + unit) \<times> 'w"
  sys_utimensat :: "string \<Rightarrow> timespec \<times> timespec \<Rightarrow> 'w \<Rightarrow> (errno + unit) \<times> 'w"
  sys_statvfs :: "string \<Rightarrow> 'w \<Rightarrow> errno + posix_statvfs"
  sys_access :: "string \<Rightarrow> u32 \<Rightarrow> 'w \<Rightarrow> errno + unit"

text \<open>The flag values of the platform (\<open>fcntl.h\<close>, \<open>unistd.h\<close> on arm64 Android).\<close>

definition O_RDONLY :: u32 where "O_RDONLY = 0"
definition O_WRONLY :: u32 where "O_WRONLY = 1"
definition O_RDWR :: u32 where "O_RDWR = 2"
definition O_CREAT :: u32 where "O_CREAT = 0x40"
definition O_EXCL :: u32 where "O_EXCL = 0x80"
definition O_TRUNC :: u32 where "O_TRUNC = 0x200"
definition X_OK :: u32 where "X_OK = 1"
definition W_OK :: u32 where "W_OK = 2"
definition R_OK :: u32 where "R_OK = 4"

section \<open>The handler object\<close>

record ('s, 'w) ClientHandler = "'s endpoint" +
  rw_buffer :: "u8 list"
  world :: 'w

definition BUFFER_SIZE :: int where
  "BUFFER_SIZE = 8192"

definition DEFAULT_FILE_MODE :: u32 where
  "DEFAULT_FILE_MODE = 33200"

definition DEFAULT_DIRECTORY_MODE :: u32 where
  "DEFAULT_DIRECTORY_MODE = 16888"

definition FREE_SPACE_FS_PATH :: string where
  "FREE_SPACE_FS_PATH = ''/sdcard/''"

text \<open>A system call made by the handler.\<close>

definition sysM :: "('w \<Rightarrow> 'r \<times> 'w) \<Rightarrow> (('s, 'w) ClientHandler, 'r) M" where
  "sysM f = (\<lambda>s. case f (world s) of (r, w) \<Rightarrow> Some (Inr r, s\<lparr>world := w\<rparr>))"

definition ClientHandler_init :: "'s \<Rightarrow> 'w \<Rightarrow> ('s, 'w) ClientHandler" where
  "ClientHandler_init sock w = \<lparr>socket = sock, reader = DataReader BUFFER_SIZE,
     writer = DataWriter BUFFER_SIZE, rw_buffer = [], world = w\<rparr>"

text \<open>The body of the constructor: the handshake on the freshly built reader and writer.\<close>

definition ClientHandler_handshake :: "('s, errno) socket_api \<Rightarrow> (('s, 'w) ClientHandler, unit) M" where
  "ClientHandler_handshake net =
     bindM (read_u32 (ClientHandler_read net)) (\<lambda>handshake_bytes.
     thenM (write_u32 (ClientHandler_write net) handshake_bytes)
           (flush (ClientHandler_write net)))"

definition write_status :: "('s, errno) socket_api \<Rightarrow> ResponseStatus \<Rightarrow> (('s, 'w) ClientHandler, unit) M" where
  "write_status net status = write_byte (ClientHandler_write net) (u8_of_ResponseStatus status)"

fun get_status_from_errno :: "errno \<Rightarrow> ResponseStatus" where
  "get_status_from_errno EACCES = AccessDenied"
| "get_status_from_errno ENOENT = FileNotFound"
| "get_status_from_errno EEXIST = FileExists"
| "get_status_from_errno ENOTDIR = NotADirectory"
| "get_status_from_errno EISDIR = NotAFile"
| "get_status_from_errno ENOTEMPTY = DirectoryNotEmpty"
| "get_status_from_errno (Errno _) = GenericFailure"

text \<open>The status of a call whose only result is success or failure.\<close>

definition status_of :: "errno + 'a \<Rightarrow> ResponseStatus" where
  "status_of r = (case r of Inl e \<Rightarrow> get_status_from_errno e | Inr _ \<Rightarrow> Success)"

text \<open>\<open>stat_file(path, &stat)\<close>: the status, and the structure it leaves in the default-initialised \<open>stat\<close>.\<close>

definition stat_file :: "('w, 'd) posix \<Rightarrow> string \<Rightarrow> 'w \<Rightarrow> ResponseStatus \<times> FileStat" where
  "stat_file os path w =
     (case sys_stat os (c_str path) w of
        Inl e \<Rightarrow> (get_status_from_errno e, FileStat_default)
      | Inr st \<Rightarrow> (Success, FileStat_init (ucast (st_mode st)) (st_size st) (st_atime st) (st_mtime st)))"

definition ensure_rw_buffer_size :: "nat \<Rightarrow> (('s, 'w) ClientHandler, unit) M" where
  "ensure_rw_buffer_size n = modifyM (\<lambda>s.
     if n > length (rw_buffer s)
     then s\<lparr>rw_buffer := rw_buffer s @ replicate (n - length (rw_buffer s)) 0\<rparr> else s)"

section \<open>Handlers\<close>

definition handle_stat_file :: "('s, errno) socket_api \<Rightarrow> ('w, 'd) posix \<Rightarrow> (('s, 'w) ClientHandler, unit) M" where
  "handle_stat_file net os =
     bindM (read_utf8_string (ClientHandler_read net)) (\<lambda>file_path.
     bindM (getM (\<lambda>s. stat_file os file_path (world s))) (\<lambda>(status, stat).
     thenM (write_status net status)
           (if status = Success then FileStat_write (ClientHandler_write net) stat else returnM ())))"

partial_function (option) list_entries ::
  "('s, errno) socket_api \<Rightarrow> ('w, 'd) posix \<Rightarrow> string \<Rightarrow> 'd \<Rightarrow> string option
     \<Rightarrow> ('s, 'w) ClientHandler \<Rightarrow> ((exn + unit) \<times> ('s, 'w) ClientHandler) option" where
  "list_entries net os directory_path dir current_entry s =
     (case current_entry of
        None \<Rightarrow> returnM () s
      | Some d_name \<Rightarrow>
          (case stat_file os (get_full_path directory_path d_name) (world s) of (status, stat) \<Rightarrow>
             bindM (if status = Success
                    then thenM (write_status net Success)
                        (thenM (write_utf8_string (ClientHandler_write net) d_name)
                               (FileStat_write (ClientHandler_write net) stat))
                    else write_status net status)
               (\<lambda>_. bindM (sysM (sys_readdir os dir))
                      (\<lambda>next_entry. list_entries net os directory_path dir next_entry)) s))"

declare list_entries.simps [code]

definition handle_list_dir_stats :: "('s, errno) socket_api \<Rightarrow> ('w, 'd) posix \<Rightarrow> (('s, 'w) ClientHandler, unit) M" where
  "handle_list_dir_stats net os =
     bindM (read_utf8_string (ClientHandler_read net)) (\<lambda>directory_path.
     bindM (sysM (sys_opendir os (c_str directory_path))) (\<lambda>res.
       case res of
         Inl e \<Rightarrow> write_status net (get_status_from_errno e)
       | Inr dir \<Rightarrow>
           thenM (write_status net Success)
          (bindM (sysM (sys_readdir os dir)) (\<lambda>current_entry.
           thenM (list_entries net os directory_path dir current_entry)
          (thenM (write_status net NoMoreEntries)
                 (sysM (\<lambda>w. ((), sys_closedir os dir w))))))))"

definition handle_move_entry :: "('s, errno) socket_api \<Rightarrow> ('w, 'd) posix \<Rightarrow> (('s, 'w) ClientHandler, unit) M" where
  "handle_move_entry net os =
     bindM (MoveEntryArgs_read (ClientHandler_read net)) (\<lambda>args.
     bindM (getM (\<lambda>s. sys_stat os (c_str (to_path args)) (world s))) (\<lambda>existing.
       let do_rename = bindM (sysM (sys_rename os (c_str (from_path args)) (c_str (to_path args))))
                         (\<lambda>res. write_status net (status_of res))
       in case existing of
            Inl e \<Rightarrow> if e \<noteq> ENOENT then write_status net (get_status_from_errno e) else do_rename
          | Inr _ \<Rightarrow> if \<not> overwrite args then write_status net FileExists else do_rename))"

definition handle_remove_file :: "('s, errno) socket_api \<Rightarrow> ('w, 'd) posix \<Rightarrow> (('s, 'w) ClientHandler, unit) M" where
  "handle_remove_file net os =
     bindM (read_utf8_string (ClientHandler_read net)) (\<lambda>file_path.
     bindM (sysM (sys_unlink os (c_str file_path))) (\<lambda>res.
     write_status net (status_of res)))"

definition handle_remove_directory :: "('s, errno) socket_api \<Rightarrow> ('w, 'd) posix \<Rightarrow> (('s, 'w) ClientHandler, unit) M" where
  "handle_remove_directory net os =
     bindM (read_utf8_string (ClientHandler_read net)) (\<lambda>file_path.
     bindM (sysM (sys_rmdir os (c_str file_path))) (\<lambda>res.
     write_status net (status_of res)))"

fun mode_flags :: "OpenMode \<Rightarrow> u32" where
  "mode_flags CreateIfNotExist = O_CREAT"
| "mode_flags Truncate = O_TRUNC"
| "mode_flags CreateOrTruncate = O_CREAT OR O_TRUNC"
| "mode_flags CreateAlways = O_CREAT OR O_EXCL"
| "mode_flags OpenOnly = 0"
| "mode_flags (OtherMode _) = 0"

definition access_flags :: "bool \<Rightarrow> bool \<Rightarrow> u32" where
  "access_flags read_access write_access =
     (if read_access \<and> \<not> write_access then O_RDONLY
      else if write_access \<and> \<not> read_access then O_WRONLY
      else O_RDWR)"

definition handle_open_handle :: "('s, errno) socket_api \<Rightarrow> ('w, 'd) posix \<Rightarrow> (('s, 'w) ClientHandler, unit) M" where
  "handle_open_handle net os =
     bindM (OpenHandleArgs_read (ClientHandler_read net)) (\<lambda>args.
       if \<not> oh_read_access args \<and> \<not> oh_write_access args
       then write_status net GenericFailure
       else (let creation_flags = access_flags (oh_read_access args) (oh_write_access args)
                                    OR mode_flags (oh_mode args)
             in bindM (sysM (sys_open os (c_str (oh_path args)) creation_flags DEFAULT_FILE_MODE)) (\<lambda>res.
                case res of
                  Inl e \<Rightarrow> write_status net (get_status_from_errno e)
                | Inr fd \<Rightarrow> thenM (write_status net Success)
                                 (write_u32 (ClientHandler_write net) (word_of_int fd)))))"

definition handle_create_directory :: "('s, errno) socket_api \<Rightarrow> ('w, 'd) posix \<Rightarrow> (('s, 'w) ClientHandler, unit) M" where
  "handle_create_directory net os =
     bindM (read_utf8_string (ClientHandler_read net)) (\<lambda>dir_path.
     bindM (sysM (sys_mkdir os (c_str dir_path) DEFAULT_DIRECTORY_MODE)) (\<lambda>res.
     write_status net (status_of res)))"

text \<open>
  The read loop. \<open>total_read\<close> is an \<open>int\<close>, compared with the unsigned \<open>data_len\<close> as its
  bits; as an index into \<open>rw_buffer\<close> a negative value is out of bounds. The result \<open>Inl\<close> is
  the error return, \<open>Inr\<close> the number of bytes read.
\<close>

partial_function (option) read_loop ::
  "('w, 'd) posix \<Rightarrow> ReadHandleArgs \<Rightarrow> u32
     \<Rightarrow> ('s, 'w) ClientHandler \<Rightarrow> ((exn + (errno + u32)) \<times> ('s, 'w) ClientHandler) option" where
  "read_loop os args total_read s =
     (if total_read < rh_data_len args
      then if sint total_read < 0 then throwM UndefinedBehaviour s
           else bindM (sysM (sys_read os (sint (rh_handle args)) (unat (rh_data_len args - total_read))))
                  (\<lambda>res. case res of
                     Inl e \<Rightarrow> returnM (Inl e)
                   | Inr bs \<Rightarrow>
                       bindM (modifyM (\<lambda>s. s\<lparr>rw_buffer := memcpy_at (rw_buffer s) (unat total_read) bs\<rparr>))
                         (\<lambda>_. if bs = [] then returnM (Inr total_read)
                              else read_loop os args (total_read + word_of_nat (length bs)))) s
      else returnM (Inr total_read) s)"

declare read_loop.simps [code]

text \<open>
  For a length of 0 on a buffer that is still empty, \<open>&rw_buffer[0]\<close> in this and in the next handler is formally undefined (an element of an
  empty vector); no byte is accessed through the pointer then, and the model goes on with no bytes.
\<close>

definition handle_read_file :: "('s, errno) socket_api \<Rightarrow> ('w, 'd) posix \<Rightarrow> (('s, 'w) ClientHandler, unit) M" where
  "handle_read_file net os =
     bindM (ReadHandleArgs_read (ClientHandler_read net)) (\<lambda>args.
     bindM (sysM (sys_lseek os (sint (rh_handle args)) (sint (rh_offset args)))) (\<lambda>sk.
       case sk of
         Inl e \<Rightarrow> write_status net (get_status_from_errno e)
       | Inr _ \<Rightarrow>
           thenM (ensure_rw_buffer_size (unat (rh_data_len args)))
          (bindM (read_loop os args 0) (\<lambda>res.
             case res of
               Inl e \<Rightarrow> write_status net (get_status_from_errno e)
             | Inr total_read \<Rightarrow>
                 thenM (write_status net Success)
                (thenM (write_u32 (ClientHandler_write net) total_read)
                (bindM (getM rw_buffer) (\<lambda>buf.
                 write_exact (ClientHandler_write net) buf (sint total_read))))))))"

partial_function (option) write_loop ::
  "('w, 'd) posix \<Rightarrow> WriteHandleInitArgs \<Rightarrow> u32
     \<Rightarrow> ('s, 'w) ClientHandler \<Rightarrow> ((exn + (errno + unit)) \<times> ('s, 'w) ClientHandler) option" where
  "write_loop os args total_written s =
     (if total_written < wh_data_len args
      then if sint total_written < 0 then throwM UndefinedBehaviour s
           else bindM (sysM (sys_write os (sint (wh_handle args))
                        (take (unat (wh_data_len args - total_written)) (drop (unat total_written) (rw_buffer s)))))
                  (\<lambda>res. case res of
                     Inl e \<Rightarrow> returnM (Inl e)
                   | Inr write_result \<Rightarrow> write_loop os args (total_written + word_of_int write_result)) s
      else returnM (Inr ()) s)"

declare write_loop.simps [code]

text \<open>\<open>read_exact\<close> takes an \<open>int\<close>: a length of 2 GiB or more is a negative number there.\<close>

definition handle_write_file :: "('s, errno) socket_api \<Rightarrow> ('w, 'd) posix \<Rightarrow> (('s, 'w) ClientHandler, unit) M" where
  "handle_write_file net os =
     bindM (WriteHandleInitArgs_read (ClientHandler_read net)) (\<lambda>args.
     bindM (sysM (sys_lseek os (sint (wh_handle args)) (sint (wh_offset args)))) (\<lambda>sk.
       case sk of
         Inl e \<Rightarrow> write_status net (get_status_from_errno e)
       | Inr _ \<Rightarrow>
           thenM (ensure_rw_buffer_size (unat (wh_data_len args)))
          (bindM (read_exact (ClientHandler_read net) (sint (wh_data_len args))) (\<lambda>bs.
           thenM (modifyM (\<lambda>s. s\<lparr>rw_buffer := memcpy_at (rw_buffer s) 0 bs\<rparr>))
          (bindM (write_loop os args 0) (\<lambda>res.
           write_status net (status_of res)))))))"

definition handle_truncate_file :: "('s, errno) socket_api \<Rightarrow> ('w, 'd) posix \<Rightarrow> (('s, 'w) ClientHandler, unit) M" where
  "handle_truncate_file net os =
     bindM (TruncateHandleArgs_read (ClientHandler_read net)) (\<lambda>args.
     bindM (sysM (sys_ftruncate os (sint (th_handle args)) (sint (new_length args)))) (\<lambda>res.
     write_status net (status_of res)))"

definition get_timspec_from_timestamp :: "u64 \<Rightarrow> timespec" where
  "get_timspec_from_timestamp timestamp =
     (if sint timestamp = -1 then \<lparr>tv_sec = 0, tv_nsec = None\<rparr>
      else \<lparr>tv_sec = sint timestamp, tv_nsec = Some 0\<rparr>)"

definition handle_set_file_time :: "('s, errno) socket_api \<Rightarrow> ('w, 'd) posix \<Rightarrow> (('s, 'w) ClientHandler, unit) M" where
  "handle_set_file_time net os =
     bindM (SetFileTimeArgs_read (ClientHandler_read net)) (\<lambda>args.
     bindM (sysM (sys_utimensat os (c_str (st_path args))
              (get_timspec_from_timestamp (st_access_time args),
               get_timspec_from_timestamp (st_write_time args)))) (\<lambda>res.
     write_status net (status_of res)))"

definition disk_stats_of :: "posix_statvfs \<Rightarrow> DiskStats" where
  "disk_stats_of vfs_info =
     DiskStats_init (f_bsize vfs_info * f_bfree vfs_info)
       (f_bsize vfs_info * f_favail vfs_info) (f_bsize vfs_info * f_blocks vfs_info)"

definition handle_get_disk_stats :: "('s, errno) socket_api \<Rightarrow> ('w, 'd) posix \<Rightarrow> (('s, 'w) ClientHandler, unit) M" where
  "handle_get_disk_stats net os =
     bindM (getM (\<lambda>s. sys_statvfs os FREE_SPACE_FS_PATH (world s))) (\<lambda>res.
       case res of
         Inl e \<Rightarrow> write_status net (get_status_from_errno e)
       | Inr vfs_info \<Rightarrow>
           thenM (write_status net Success)
                 (DiskStats_write (ClientHandler_write net) (disk_stats_of vfs_info)))"

definition can_remove_directory_entry :: "('w, 'd) posix \<Rightarrow> string \<Rightarrow> 'w \<Rightarrow> ResponseStatus" where
  "can_remove_directory_entry os path w =
     (case get_parent_path path of
        None \<Rightarrow> AccessDenied
      | Some parent_dir_path \<Rightarrow> status_of (sys_access os (c_str parent_dir_path) (R_OK OR W_OK OR X_OK) w))"

definition handle_check_remove_file :: "('s, errno) socket_api \<Rightarrow> ('w, 'd) posix \<Rightarrow> (('s, 'w) ClientHandler, unit) M" where
  "handle_check_remove_file net os =
     bindM (read_utf8_string (ClientHandler_read net)) (\<lambda>file_path.
     bindM (getM (\<lambda>s. can_remove_directory_entry os file_path (world s))) (\<lambda>status.
     write_status net status))"

text \<open>The search for an entry other than \<open>.\<close> and \<open>..\<close>: the value of \<open>has_entry\<close>.\<close>

partial_function (option) find_entry ::
  "('w, 'd) posix \<Rightarrow> 'd \<Rightarrow> string option
     \<Rightarrow> ('s, 'w) ClientHandler \<Rightarrow> ((exn + bool) \<times> ('s, 'w) ClientHandler) option" where
  "find_entry os dir entry s =
     (case entry of
        None \<Rightarrow> returnM False s
      | Some d_name \<Rightarrow>
          if d_name \<noteq> ''.'' \<and> d_name \<noteq> ''..'' then returnM True s
          else bindM (sysM (sys_readdir os dir)) (\<lambda>entry. find_entry os dir entry) s)"

declare find_entry.simps [code]

definition handle_check_remove_directory :: "('s, errno) socket_api \<Rightarrow> ('w, 'd) posix \<Rightarrow> (('s, 'w) ClientHandler, unit) M" where
  "handle_check_remove_directory net os =
     bindM (read_utf8_string (ClientHandler_read net)) (\<lambda>dir_path.
     bindM (getM (\<lambda>s. can_remove_directory_entry os dir_path (world s))) (\<lambda>can_rem_entry.
       if can_rem_entry \<noteq> Success then write_status net can_rem_entry
       else bindM (sysM (sys_opendir os (c_str dir_path))) (\<lambda>res.
         case res of
           Inl e \<Rightarrow> write_status net (get_status_from_errno e)
         | Inr dir \<Rightarrow>
             bindM (sysM (sys_readdir os dir)) (\<lambda>entry.
             bindM (find_entry os dir entry) (\<lambda>has_entry.
             thenM (sysM (\<lambda>w. ((), sys_closedir os dir w)))
                   (write_status net (if has_entry then DirectoryNotEmpty else Success)))))))"

definition handle_close_handle :: "('s, errno) socket_api \<Rightarrow> ('w, 'd) posix \<Rightarrow> (('s, 'w) ClientHandler, unit) M" where
  "handle_close_handle net os =
     bindM (read_u32 (ClientHandler_read net)) (\<lambda>handle.
     thenM (sysM (\<lambda>w. ((), sys_close os (sint handle) w)))
           (write_status net Success))"

section \<open>The message loop\<close>

definition handle_request :: "('s, errno) socket_api \<Rightarrow> ('w, 'd) posix \<Rightarrow> RequestType \<Rightarrow> (('s, 'w) ClientHandler, unit) M" where
  "handle_request net os req_type =
     (case req_type of
        StatFile \<Rightarrow> handle_stat_file net os
      | ListDirectory \<Rightarrow> handle_list_dir_stats net os
      | MoveEntry \<Rightarrow> handle_move_entry net os
      | RemoveFile \<Rightarrow> handle_remove_file net os
      | RemoveDirectory \<Rightarrow> handle_remove_directory net os
      | CreateDirectory \<Rightarrow> handle_create_directory net os
      | OpenHandle \<Rightarrow> handle_open_handle net os
      | ReadHandle \<Rightarrow> handle_read_file net os
      | WriteHandle \<Rightarrow> handle_write_file net os
      | CloseHandle \<Rightarrow> handle_close_handle net os
      | TruncateHandle \<Rightarrow> handle_truncate_file net os
      | SetFileTime \<Rightarrow> handle_set_file_time net os
      | GetDiskStats \<Rightarrow> handle_get_disk_stats net os
      | CheckRemoveFile \<Rightarrow> handle_check_remove_file net os
      | CheckRemoveDirectory \<Rightarrow> handle_check_remove_directory net os
      | OtherRequest _ \<Rightarrow> throwM (RuntimeError ''Unknown request type received!''))"

partial_function (option) handle_messages ::
  "('s, errno) socket_api \<Rightarrow> ('w, 'd) posix
     \<Rightarrow> ('s, 'w) ClientHandler \<Rightarrow> ((exn + unit) \<times> ('s, 'w) ClientHandler) option" where
  "handle_messages net os s =
     bindM (catchM (bindM (read_byte (ClientHandler_read net)) (\<lambda>b. returnM (Some (RequestType_of_u8 b))))
              (\<lambda>e. if e = EOFException then returnM None else throwM e))
       (\<lambda>req. case req of
          None \<Rightarrow> returnM ()
        | Some req_type \<Rightarrow>
            bindM (handle_request net os req_type)
              (\<lambda>_. bindM (flush (ClientHandler_write net)) (\<lambda>_. handle_messages net os))) s"

declare handle_messages.simps [code]

end
