(* ===== verification/Daemon_Spec.thy ===== *)
theory Daemon_Spec
  imports Client_Handler Protocol
begin

text \<open>
  What the daemon promises, without buffers, chunks and byte order: \<open>respond\<close> maps a
  request and the state of the device to a response and the next state. The handlers of
  \<open>Client_Handler\<close> are shown to refine it: on the wire form of a request they consume exactly
  that form, answer with exactly the wire form of the response and leave the device as
  \<open>respond\<close> says, and the message loop does so for any sequence of requests.
\<close>

section \<open>The specification\<close>

text \<open>The entries of an open directory from the current one on, each with its stat.\<close>

partial_function (option) entries_from ::
  "('w, 'd) posix \<Rightarrow> string \<Rightarrow> 'd \<Rightarrow> string option \<Rightarrow> 'w
     \<Rightarrow> ((string \<times> ResponseStatus \<times> FileStat) list \<times> 'w) option" where
  "entries_from os path dir cur w =
     (case cur of
        None \<Rightarrow> Some ([], w)
      | Some name \<Rightarrow>
          (case sys_readdir os dir w of (nxt, w1) \<Rightarrow>
             Option.bind (entries_from os path dir nxt w1)
               (\<lambda>(es, w2). Some ((name, stat_file os (get_full_path path name) w) # es, w2))))"

declare entries_from.simps [code]

text \<open>Whether an entry other than \<open>.\<close> and \<open>..\<close> comes before the end.\<close>

partial_function (option) other_entry ::
  "('w, 'd) posix \<Rightarrow> 'd \<Rightarrow> string option \<Rightarrow> 'w \<Rightarrow> (bool \<times> 'w) option" where
  "other_entry os dir cur w =
     (case cur of
        None \<Rightarrow> Some (False, w)
      | Some name \<Rightarrow>
          if name \<noteq> ''.'' \<and> name \<noteq> ''..'' then Some (True, w)
          else (case sys_readdir os dir w of (nxt, w1) \<Rightarrow> other_entry os dir nxt w1))"

declare other_entry.simps [code]

lemma entries_from_simps [simp]:
  "entries_from os path dir None w = Some ([], w)"
  "entries_from os path dir (Some name) w =
     Option.bind (entries_from os path dir (fst (sys_readdir os dir w)) (snd (sys_readdir os dir w)))
       (\<lambda>(es, w2). Some ((name, stat_file os (get_full_path path name) w) # es, w2))"
  by (subst entries_from.simps, simp split: prod.split)+

lemma other_entry_simps [simp]:
  "other_entry os dir None w = Some (False, w)"
  "other_entry os dir (Some name) w =
     (if name \<noteq> ''.'' \<and> name \<noteq> ''..'' then Some (True, w)
      else other_entry os dir (fst (sys_readdir os dir w)) (snd (sys_readdir os dir w)))"
  by (subst other_entry.simps, simp split: prod.split)+

text \<open>Reading until \<open>n\<close> bytes are there, end of file or an error.\<close>

function read_all :: "('w, 'd) posix \<Rightarrow> int \<Rightarrow> nat \<Rightarrow> u8 list \<Rightarrow> 'w \<Rightarrow> (errno + u8 list) \<times> 'w" where
  "read_all os fd n acc w =
     (if length acc < n
      then (case sys_read os fd (n - length acc) w of
              (Inl e, w1) \<Rightarrow> (Inl e, w1)
            | (Inr bs, w1) \<Rightarrow> if bs = [] then (Inr acc, w1) else read_all os fd n (acc @ bs) w1)
      else (Inr acc, w))"
  by pat_completeness auto
termination
  by (relation "measure (\<lambda>(os, fd, n, acc, w). n - length acc)")
     (auto intro!: diff_less_mono2 simp: length_greater_0_conv)

text \<open>Writing all bytes, or until an error.\<close>

partial_function (option) write_all :: "('w, 'd) posix \<Rightarrow> int \<Rightarrow> u8 list \<Rightarrow> 'w \<Rightarrow> ((errno + unit) \<times> 'w) option" where
  "write_all os fd bs w =
     (if bs = [] then Some (Inr (), w)
      else (case sys_write os fd bs w of (res, w1) \<Rightarrow>
              (case res of Inl e \<Rightarrow> Some (Inl e, w1) | Inr k \<Rightarrow> write_all os fd (drop (nat k) bs) w1)))"

declare write_all.simps [code]

lemma write_all_Nil [simp]: "write_all os fd [] w = Some (Inr (), w)"
  by (subst write_all.simps) simp

declare read_all.simps [simp del]

definition simple :: "(errno + 'a) \<times> 'w \<Rightarrow> (response \<times> 'w) option" where
  "simple rw = Some (RespStatus (status_of (fst rw)), snd rw)"

definition fail_or :: "(errno + 'a) \<times> 'w \<Rightarrow> ('a \<Rightarrow> 'w \<Rightarrow> (response \<times> 'w) option) \<Rightarrow> (response \<times> 'w) option" where
  "fail_or rw f = (case rw of (Inl e, w) \<Rightarrow> Some (RespStatus (get_status_from_errno e), w) | (Inr a, w) \<Rightarrow> f a w)"

fun respond :: "('w, 'd) posix \<Rightarrow> request \<Rightarrow> 'w \<Rightarrow> (response \<times> 'w) option" where
  "respond os (ReqStat p) w =
     (case stat_file os p w of (st, fs) \<Rightarrow> Some (if st = Success then RespStat fs else RespStatus st, w))"
| "respond os (ReqList p) w =
     fail_or (sys_opendir os (c_str p) w) (\<lambda>dir w1.
       case sys_readdir os dir w1 of (cur, w2) \<Rightarrow>
         map_option (\<lambda>(es, w3). (RespListing es, sys_closedir os dir w3)) (entries_from os p dir cur w2))"
| "respond os (ReqCreateDirectory p) w = simple (sys_mkdir os (c_str p) DEFAULT_DIRECTORY_MODE w)"
| "respond os (ReqCheckRemoveFile p) w = Some (RespStatus (can_remove_directory_entry os p w), w)"
| "respond os (ReqCheckRemoveDirectory p) w =
     (if can_remove_directory_entry os p w \<noteq> Success
      then Some (RespStatus (can_remove_directory_entry os p w), w)
      else fail_or (sys_opendir os (c_str p) w) (\<lambda>dir w1.
        case sys_readdir os dir w1 of (cur, w2) \<Rightarrow>
          map_option (\<lambda>(has_entry, w3).
              (RespStatus (if has_entry then DirectoryNotEmpty else Success), sys_closedir os dir w3))
            (other_entry os dir cur w2)))"
| "respond os (ReqRemoveFile p) w = simple (sys_unlink os (c_str p) w)"
| "respond os (ReqRemoveDirectory p) w = simple (sys_rmdir os (c_str p) w)"
| "respond os (ReqMove a) w =
     (let res = sys_stat os (c_str (to_path a)) w in
      if (case res of Inl e \<Rightarrow> e \<noteq> ENOENT | Inr _ \<Rightarrow> False) then Some (RespStatus (status_of res), w)
      else if \<not> overwrite a \<and> (case res of Inl e \<Rightarrow> False | Inr _ \<Rightarrow> True) then Some (RespStatus FileExists, w)
      else simple (sys_rename os (c_str (from_path a)) (c_str (to_path a)) w))"
| "respond os (ReqOpen a) w =
     (if \<not> oh_read_access a \<and> \<not> oh_write_access a then Some (RespStatus GenericFailure, w)
      else fail_or (sys_open os (c_str (oh_path a))
             (or (access_flags (oh_read_access a) (oh_write_access a)) (mode_flags (oh_mode a))) DEFAULT_FILE_MODE w)
             (\<lambda>fd w1. Some (RespHandle (word_of_int fd), w1)))"
| "respond os (ReqClose h) w = Some (RespStatus Success, sys_close os (sint h) w)"
| "respond os (ReqRead a) w =
     fail_or (sys_lseek os (sint (rh_handle a)) (sint (rh_offset a)) w) (\<lambda>_ w1.
       fail_or (read_all os (sint (rh_handle a)) (unat (rh_data_len a)) [] w1) (\<lambda>bs w2. Some (RespData bs, w2)))"
| "respond os (ReqWrite h off bs) w =
     fail_or (sys_lseek os (sint h) (sint off) w) (\<lambda>_ w1. Option.bind (write_all os (sint h) bs w1) simple)"
| "respond os (ReqTruncate a) w = simple (sys_ftruncate os (sint (th_handle a)) (sint (new_length a)) w)"
| "respond os (ReqSetTime a) w =
     simple (sys_utimensat os (c_str (st_path a))
       (get_timspec_from_timestamp (st_access_time a), get_timspec_from_timestamp (st_write_time a)) w)"
| "respond os ReqDiskStats w =
     fail_or (sys_statvfs os FREE_SPACE_FS_PATH w, w) (\<lambda>vfs w. Some (RespDisk (disk_stats_of vfs), w))"

text \<open>
  A write request whose seek fails is answered before its data is read, so the data stays
  in the stream: only then do the two sides disagree on where the next request starts.
\<close>

fun in_sync :: "('w, 'd) posix \<Rightarrow> request \<Rightarrow> 'w \<Rightarrow> bool" where
  "in_sync os (ReqWrite h off bs) w \<longleftrightarrow> bs = [] \<or> \<not> isl (fst (sys_lseek os (sint h) (sint off) w))"
| "in_sync os _ w \<longleftrightarrow> True"

fun respond_all :: "('w, 'd) posix \<Rightarrow> request list \<Rightarrow> 'w \<Rightarrow> (response list \<times> 'w) option" where
  "respond_all os [] w = Some ([], w)"
| "respond_all os (req # reqs) w =
     Option.bind (respond os req w) (\<lambda>(resp, w1).
     Option.bind (respond_all os reqs w1) (\<lambda>(resps, w2). Some (resp # resps, w2)))"

fun all_in_sync :: "('w, 'd) posix \<Rightarrow> request list \<Rightarrow> 'w \<Rightarrow> bool" where
  "all_in_sync os [] w \<longleftrightarrow> True"
| "all_in_sync os (req # reqs) w \<longleftrightarrow> in_sync os req w
     \<and> (case respond os req w of None \<Rightarrow> True | Some (_, w1) \<Rightarrow> all_in_sync os reqs w1)"

end
