(* ===== verification/Daemon_Refinement.thy ===== *)
theory Daemon_Refinement
  imports Daemon_Spec
begin

text \<open>
  The handlers of \<open>Client_Handler\<close> implement \<open>Daemon_Spec.respond\<close>. \<open>serves\<close> is the
  refinement relation of one computation, closed under sequencing; \<open>posix_os\<close> states what
  the system calls promise, \<open>daemon\<close> joins it with the socket's contract, and inside it each
  handler, the dispatcher and the message loop are shown to refine the specification.
\<close>

section \<open>The refinement relation\<close>

definition serves :: "'s sock_view \<Rightarrow> u8 list \<Rightarrow> u8 list \<Rightarrow> 'w \<Rightarrow> 'w \<Rightarrow> (('s, 'w) ClientHandler, 'a) M \<Rightarrow> 'a \<Rightarrow> bool" where
  "serves V inp out w w' m a \<longleftrightarrow> (\<forall>s rest. ep_ok V s \<longrightarrow> in_of V s = inp @ rest \<longrightarrow> world s = w \<longrightarrow>
     wp m (\<lambda>r s'. r = Inr a \<and> ep_ok V s' \<and> in_of V s' = rest \<and> out_of V s' = out_of V s @ out
                  \<and> world s' = w') s)"

lemma servesI:
  assumes "\<And>s rest. ep_ok V s \<Longrightarrow> in_of V s = inp @ rest \<Longrightarrow> world s = w \<Longrightarrow>
     wp m (\<lambda>r s'. r = Inr a \<and> ep_ok V s' \<and> in_of V s' = rest \<and> out_of V s' = out_of V s @ out
                  \<and> world s' = w') s"
  shows "serves V inp out w w' m a"
  using assms by (auto simp: serves_def)

lemma wp_serves:
  assumes "serves V inp out w w' m a" and "ep_ok V s" and "in_of V s = inp @ rest" and "world s = w"
    and "\<And>s'. ep_ok V s' \<Longrightarrow> in_of V s' = rest \<Longrightarrow> out_of V s' = out_of V s @ out \<Longrightarrow> world s' = w' \<Longrightarrow> Q (Inr a) s'"
  shows "wp m Q s"
proof (rule wp_mono)
  show "wp m (\<lambda>r s'. r = Inr a \<and> ep_ok V s' \<and> in_of V s' = rest \<and> out_of V s' = out_of V s @ out
      \<and> world s' = w') s"
    using assms(1-4) by (auto simp: serves_def)
qed (use assms(5) in auto)

lemma ep_frame_fields:
  fixes s s' :: "('s, 'w) ClientHandler"
  assumes "ep_frame s s'"
  shows "world s' = world s" and "rw_buffer s' = rw_buffer s"
  using assms by (cases s, cases s', simp add: ep_frame_def)+

lemma io_step_handler:
  fixes s s' :: "('s, 'w) ClientHandler"
  assumes "io_step V i out s s'"
  shows "ep_ok V s' \<and> in_of V s' = i \<and> out_of V s' = out \<and> world s' = world s \<and> rw_buffer s' = rw_buffer s"
  using assms ep_frame_fields [OF io_stepD(2) [OF assms]] by (simp add: io_step_def)

lemma ep_upd [simp]:
  fixes s :: "('s, 'w) ClientHandler"
  shows "ep_ok V (s\<lparr>world := w\<rparr>) = ep_ok V s" "in_of V (s\<lparr>world := w\<rparr>) = in_of V s"
    "out_of V (s\<lparr>world := w\<rparr>) = out_of V s"
    "ep_ok V (s\<lparr>rw_buffer := b\<rparr>) = ep_ok V s" "in_of V (s\<lparr>rw_buffer := b\<rparr>) = in_of V s"
    "out_of V (s\<lparr>rw_buffer := b\<rparr>) = out_of V s"
  by (simp_all add: ep_ok_def in_of_def out_of_def)

lemma wp_sysM [simp]:
  "wp (sysM f) Q s \<longleftrightarrow> Q (Inr (fst (f (world s)))) (s\<lparr>world := snd (f (world s))\<rparr>)"
  by (simp add: wp_def sysM_def split: prod.splits)

lemma serves_transacts:
  fixes m :: "(('s, 'w) ClientHandler, 'a) M"
  assumes "transacts V inp out m a"
  shows "serves V inp out w w m a"
proof (rule servesI)
  fix s :: "('s, 'w) ClientHandler" and rest
  assume s: "ep_ok V s" "in_of V s = inp @ rest" "world s = w"
  show "wp m (\<lambda>r s'. r = Inr a \<and> ep_ok V s' \<and> in_of V s' = rest \<and> out_of V s' = out_of V s @ out
      \<and> world s' = w) s"
    by (rule wp_transacts [OF assms s(1,2)]) (auto simp: s(3) io_stepD ep_frame_fields [OF io_stepD(2)])
qed

lemma serves_returnM: "serves V [] [] w w (returnM a) a"
  by (rule servesI) simp

lemma serves_sysM: "f w = (r, w') \<Longrightarrow> serves V [] [] w w' (sysM f) r"
  by (rule servesI) simp

lemma serves_getM: "serves V [] [] w w (getM (\<lambda>s. f (world s))) (f w)"
  by (rule servesI) simp

lemma serves_bindM:
  assumes m: "serves V i out w w1 m a" and k: "serves V i' out' w1 w2 (k a) b"
  shows "serves V (i @ i') (out @ out') w w2 (bindM m k) b"
proof (rule servesI)
  fix s :: "('a, 'b) ClientHandler" and rest
  assume s: "ep_ok V s" "in_of V s = (i @ i') @ rest" "world s = w"
  then have "in_of V s = i @ (i' @ rest)" by simp
  from m s(1) this s(3) show "wp (bindM m k) (\<lambda>r s'. r = Inr b \<and> ep_ok V s' \<and> in_of V s' = rest
      \<and> out_of V s' = out_of V s @ out @ out' \<and> world s' = w2) s"
    unfolding wp_bindM
    by (rule wp_serves) (auto intro: wp_serves [OF k])
qed

lemma serves_thenM:
  "serves V i out w w1 m a \<Longrightarrow> serves V i' out' w1 w2 k b \<Longrightarrow> serves V (i @ i') (out @ out') w w2 (thenM m k) b"
  unfolding thenM_def by (rule serves_bindM)

text \<open>Reading the arguments first; then steps that do not touch the stream, and writes.\<close>

lemma serves_read:
  "transacts V i [] m a \<Longrightarrow> serves V i' out w w' (k a) b \<Longrightarrow> serves V (i @ i') out w w' (bindM m k) b"
  using serves_bindM [OF serves_transacts [of V i "[]" m a w], of i' out w' k b] by simp

lemma serves_sys:
  "f w = (r, w1) \<Longrightarrow> serves V i out w1 w' (k r) b \<Longrightarrow> serves V i out w w' (bindM (sysM f) k) b"
  using serves_bindM [OF serves_sysM [of f w r w1 V], of i out w' k b] by simp

lemma serves_get:
  "serves V i out w w' (k (f w)) b \<Longrightarrow> serves V i out w w' (bindM (getM (\<lambda>s. f (world s))) k) b"
  using serves_bindM [OF serves_getM [of V w f], of i out w' k b] by simp

lemma serves_write:
  "transacts V [] out m () \<Longrightarrow> serves V i out' w w' k b \<Longrightarrow> serves V i (out @ out') w w' (thenM m k) b"
  using serves_thenM [OF serves_transacts [of V "[]" out m "()" w], of i out' w' k b] by simp

lemma serves_cong:
  assumes "\<And>s. world s = w \<Longrightarrow> m s = m' s" and "serves V i out w w' m' a"
  shows "serves V i out w w' m a"
  using assms by (auto simp: serves_def wp_def)

section \<open>Contracts\<close>

text \<open>
  What the code relies on of the system calls: \<open>read\<close> stores at most the bytes asked for,
  \<open>write\<close> of a non-empty buffer that succeeds takes at least one byte, a directory stream
  ends, and its names are at most \<open>NAME_MAX\<close> long.
\<close>

locale posix_os =
  fixes os :: "('w, 'd) posix"
    and dir_left :: "'d \<Rightarrow> 'w \<Rightarrow> nat"
  assumes read_law: "sys_read os fd n w = (Inr bs, w') \<Longrightarrow> length bs \<le> n"
    and write_law: "sys_write os fd bs w = (Inr k, w') \<Longrightarrow> bs \<noteq> [] \<Longrightarrow> 1 \<le> k \<and> k \<le> int (length bs)"
    and readdir_law: "sys_readdir os dir w = (Some name, w') \<Longrightarrow> dir_left dir w' < dir_left dir w \<and> length name \<le> 255"
begin

text \<open>The loops of the specification end, so it answers every request.\<close>

lemma entries_from_total: "\<exists>es w'. entries_from os p dir cur w = Some (es, w')"
proof (induction "dir_left dir w" arbitrary: cur w rule: less_induct)
  case less
  obtain nxt w1 where rd: "sys_readdir os dir w = (nxt, w1)" by fastforce
  have "\<exists>es w'. entries_from os p dir nxt w1 = Some (es, w')"
    using less.hyps [of w1 nxt] readdir_law [of dir w _ w1] rd by (cases nxt) simp_all
  then show ?case by (cases cur) (auto simp: rd)
qed

lemma other_entry_total: "\<exists>b w'. other_entry os dir cur w = Some (b, w')"
proof (induction "dir_left dir w" arbitrary: cur w rule: less_induct)
  case less
  obtain nxt w1 where rd: "sys_readdir os dir w = (nxt, w1)" by fastforce
  have "\<exists>b w'. other_entry os dir nxt w1 = Some (b, w')"
    using less.hyps [of w1 nxt] readdir_law [of dir w _ w1] rd
    by (cases nxt) (auto simp del: other_entry_simps(2))
  then show ?case by (cases cur) (auto simp: rd)
qed

lemma write_all_total: "\<exists>r w'. write_all os fd bs w = Some (r, w')"
proof (induction "length bs" arbitrary: bs w rule: less_induct)
  case less
  obtain res w1 where wr: "sys_write os fd bs w = (res, w1)" by fastforce
  show ?case
  proof (cases "bs = []")
    case False
    have "\<exists>r w'. write_all os fd (drop (nat k) bs) w1 = Some (r, w')" if "res = Inr k" for k
      using write_law [of fd bs w k w1] that wr False by (intro less) simp
    with False wr show ?thesis
      by (cases res) (auto simp: write_all.simps [of os fd bs])
  qed (simp add: write_all.simps)
qed


subsection \<open>The read and write loops\<close>

text \<open>The loop over \<open>rw_buffer\<close> collects the bytes \<open>read_all\<close> returns, in place; a round makes one system call.\<close>

lemma read_loop_round:
  fixes s :: "('s, 'w) ClientHandler"
  assumes "n = unat (rh_data_len a)" and "n < 2 ^ 31" and "k \<le> n"
  shows "read_loop os a (word_of_nat k) s =
    (if k < n then (case sys_read os (sint (rh_handle a)) (n - k) (world s) of
         (Inl e, w) \<Rightarrow> Some (Inr (Inl e), s\<lparr>world := w\<rparr>)
       | (Inr bs, w) \<Rightarrow> (if bs = [] then returnM (Inr (word_of_nat k)) else read_loop os a (word_of_nat (k + length bs)))
           (s\<lparr>world := w, rw_buffer := memcpy_at (rw_buffer s) k bs\<rparr>))
     else Some (Inr (Inr (word_of_nat k)), s))"
proof -
  have small: "k < 2 ^ 31" using assms(2,3) by simp
  have lt: "(word_of_nat k :: u32) < rh_data_len a \<longleftrightarrow> k < n"
    using small by (simp add: word_less_nat_alt assms(1) small_word)
  then have "unat (rh_data_len a - word_of_nat k) = n - k" if "k < n"
    using that small by (simp add: unat_sub_if_size assms(1) small_word word_less_nat_alt)
  with lt small show ?thesis
    by (simp add: read_loop.simps [of os a "word_of_nat k"] bindM_def sysM_def modifyM_def returnM_def small_word
        split: prod.split sum.split)
qed

lemma read_loop_spec:
  fixes s :: "('s, 'w) ClientHandler"
  assumes "n = unat (rh_data_len a)" and "n < 2 ^ 31" and "length acc \<le> n"
    and "n \<le> length (rw_buffer s)" and "take (length acc) (rw_buffer s) = acc"
  shows "wp (read_loop os a (word_of_nat (length acc)))
     (\<lambda>r s'. \<exists>b. s' = s\<lparr>rw_buffer := b, world := snd (read_all os (sint (rh_handle a)) n acc (world s))\<rparr>
        \<and> (case fst (read_all os (sint (rh_handle a)) n acc (world s)) of
             Inl e \<Rightarrow> r = Inr (Inl e)
           | Inr bs \<Rightarrow> r = Inr (Inr (word_of_nat (length bs))) \<and> length bs \<le> n \<and> take (length bs) b = bs)) s"
  using assms(3-5)
proof (induction "n - length acc" arbitrary: acc s rule: less_induct)
  case less
  let ?fd = "sint (rh_handle a)"
  note run = read_loop_round [OF assms(1,2) less.prems(1), of s] and spec = read_all.simps [of os ?fd n acc]
  obtain res w where rd: "sys_read os ?fd (n - length acc) (world s) = (res, w)" by fastforce
  consider (enough) "length acc = n" | (fails) e where "length acc < n" "res = Inl e"
    | (reads) bs where "length acc < n" "res = Inr bs"
    using less.prems(1) by (cases res) (auto simp: le_less)
  then show ?case
  proof cases
    case (reads bs)
    let ?b = "memcpy_at (rw_buffer s) (length acc) bs"
    let ?s1 = "s\<lparr>world := w, rw_buffer := ?b\<rparr>"
    from reads rd have len: "length bs \<le> n - length acc" by (intro read_law) simp
    have b: "n \<le> length ?b" "take (length (acc @ bs)) ?b = acc @ bs"
      using less.prems len reads by (simp_all add: memcpy_at_def)
    show ?thesis
    proof (cases "bs = []")
      case True
      with reads run rd b spec show ?thesis by (simp add: wp_def returnM_def exI [of _ ?b])
    next
      case False
      with len reads have "n - length (acc @ bs) < n - length acc" "length (acc @ bs) \<le> n"
        by (auto intro!: diff_less_mono2)
      from less.hyps [OF this, of ?s1] b False run rd reads spec show ?thesis by (simp add: wp_def)
    qed
  qed (use less.prems run rd spec in \<open>simp_all add: wp_def exI [of _ "rw_buffer s"]\<close>)
qed

lemma write_loop_round:
  fixes s :: "('s, 'w) ClientHandler"
  assumes "wh_data_len a = word_of_nat (length bs)" and "length bs < 2 ^ 31" and "take (length bs) (rw_buffer s) = bs" and "k \<le> length bs"
  shows "write_loop os a (word_of_nat k) s =
    (if k < length bs then (case sys_write os (sint (wh_handle a)) (drop k bs) (world s) of
         (Inl e, w) \<Rightarrow> Some (Inr (Inl e), s\<lparr>world := w\<rparr>)
       | (Inr n, w) \<Rightarrow> write_loop os a (word_of_nat k + word_of_int n) (s\<lparr>world := w\<rparr>))
     else Some (Inr (Inr ()), s))"
proof -
  have small: "k < 2 ^ 31" using assms(2,4) by simp
  have lt: "(word_of_nat k :: u32) < wh_data_len a \<longleftrightarrow> k < length bs"
    using small assms(2) by (simp add: word_less_nat_alt assms(1) small_word)
  then have "unat (wh_data_len a - word_of_nat k) = length bs - k" if "k < length bs"
    using that small assms(2) by (simp add: unat_sub_if_size assms(1) small_word word_less_nat_alt)
  moreover have "take (length bs - k) (drop k (rw_buffer s)) = drop k bs"
    using assms(3) by (metis drop_take)
  ultimately show ?thesis
    using lt small by (simp add: write_loop.simps [of os a "word_of_nat k"] bindM_def sysM_def returnM_def small_word
        split: prod.split sum.split)
qed

lemma write_loop_spec:
  fixes s :: "('s, 'w) ClientHandler"
  assumes "wh_data_len a = word_of_nat (length bs)" and "length bs < 2 ^ 31"
    and "take (length bs) (rw_buffer s) = bs" and "k \<le> length bs"
  shows "wp (write_loop os a (word_of_nat k))
     (\<lambda>r s'. \<exists>res w'. write_all os (sint (wh_handle a)) (drop k bs) (world s) = Some (res, w')
        \<and> r = Inr res \<and> s' = s\<lparr>world := w'\<rparr>) s"
  using assms(3,4)
proof (induction "length bs - k" arbitrary: k s rule: less_induct)
  case less
  let ?fd = "sint (wh_handle a)"
  note run = write_loop_round [OF assms(1,2) less.prems] and spec = write_all.simps [of os ?fd "drop k bs"]
  obtain res w where wr: "sys_write os ?fd (drop k bs) (world s) = (res, w)" by fastforce
  consider (enough) "length bs \<le> k" | (fails) e where "k < length bs" "res = Inl e"
    | (writes) n where "k < length bs" "res = Inr n"
    by (cases res) (auto simp: not_less [symmetric])
  then show ?case
  proof cases
    case (writes n)
    with wr have n: "1 \<le> n" "n \<le> int (length bs - k)"
      using write_law [of ?fd "drop k bs" "world s" n w] by auto
    have "wp (write_loop os a (word_of_nat (k + nat n)))
       (\<lambda>r s'. \<exists>res w'. write_all os ?fd (drop (k + nat n) bs) (world (s\<lparr>world := w\<rparr>)) = Some (res, w')
          \<and> r = Inr res \<and> s' = s\<lparr>world := w\<rparr>\<lparr>world := w'\<rparr>) (s\<lparr>world := w\<rparr>)"
      using n less.prems writes by (intro less.hyps) auto
    moreover have "(word_of_nat (k + nat n) :: u32) = word_of_nat k + word_of_int n"
      using n by simp
    ultimately show ?thesis
      using writes wr n run spec by (simp add: wp_def add.commute)
  qed (use run wr spec in \<open>simp_all add: wp_def\<close>)
qed

end

section \<open>The handlers refine the specification\<close>

lemma serves_args:
  "transacts V i [] m a \<Longrightarrow> serves V [] out w w' (k a) b \<Longrightarrow> serves V i out w w' (bindM m k) b"
  using serves_read [of V i m a "[]"] by simp

locale daemon = unix_socket net V + posix_os os dir_left
  for net :: "('s, errno) socket_api" and V :: "'s sock_view"
    and os :: "('w, 'd) posix" and dir_left :: "'d \<Rightarrow> 'w \<Rightarrow> nat"
begin

lemma write_status_spec [io_rules]:
  "transacts V [] [u8_of_ResponseStatus st] (write_status net st :: (('s, 'w) ClientHandler, unit) M) ()"
  unfolding write_status_def by (rule handler.transacts_write_byte)

text \<open>The last step of a handler is one of these writes.\<close>

lemmas serves_end =
  serves_transacts [OF write_status_spec]
  serves_transacts [OF handler.FileStat_write_spec]
  serves_transacts [OF handler.DiskStats_write_spec]
  serves_transacts [OF handler.transacts_write_u32]
  serves_returnM

lemma serves_status:
  fixes k :: "(('s, 'w) ClientHandler, 'a) M"
  shows "serves V i out w w' k b
    \<Longrightarrow> serves V i (u8_of_ResponseStatus st # out) w w' (thenM (write_status net st) k) b"
  using serves_write [OF write_status_spec, of i out w w' k b st] by simp

text \<open>The refinement statement of one handler for one request.\<close>

definition implements :: "request \<Rightarrow> (('s, 'w) ClientHandler, unit) M \<Rightarrow> bool" where
  "implements req h \<longleftrightarrow> (\<forall>w resp w'. valid_request req \<longrightarrow> in_sync os req w \<longrightarrow> respond os req w = Some (resp, w')
     \<longrightarrow> serves V (request_body req) (response_bytes resp) w w' h ())"

lemma implementsI:
  assumes "\<And>w resp w'. valid_request req \<Longrightarrow> in_sync os req w \<Longrightarrow> respond os req w = Some (resp, w')
     \<Longrightarrow> serves V (request_body req) (response_bytes resp) w w' h ()"
  shows "implements req h"
  using assms by (auto simp: implements_def)

lemma handler_answers:
  assumes "implements req h" and "respond os req (world s) = Some (resp, w')" and "valid_request req"
    and "in_sync os req (world s)" and "ep_ok V s" and "in_of V s = request_body req @ rest"
  shows "wp h (\<lambda>r s'. r = Inr () \<and> ep_ok V s' \<and> in_of V s' = rest
     \<and> out_of V s' = out_of V s @ response_bytes resp \<and> world s' = w') s"
proof -
  from assms(1-4) have "serves V (request_body req) (response_bytes resp) (world s) w' h ()"
    by (simp add: implements_def)
  from wp_serves [OF this assms(5,6) refl] show ?thesis by auto
qed

text \<open>A handler that reads its arguments, makes one call and reports its status.\<close>

lemma implements_simple:
  assumes "valid_request req \<Longrightarrow> transacts V (request_body req) [] m a"
    and "\<And>w. respond os req w = simple (f a w)"
  shows "implements req (bindM m (\<lambda>a. bindM (sysM (f a)) (\<lambda>res. write_status net (status_of res))))"
proof (rule implementsI)
  fix w resp w'
  assume "valid_request req" and "respond os req w = Some (resp, w')"
  moreover have "serves V [] [u8_of_ResponseStatus (status_of (fst (f a w)))] w (snd (f a w))
      (bindM (sysM (f a)) (\<lambda>res. write_status net (status_of res))) ()"
    by (rule serves_sys [OF prod.collapse [symmetric]]) (rule serves_end)
  ultimately show "serves V (request_body req) (response_bytes resp) w w'
      (bindM m (\<lambda>a. bindM (sysM (f a)) (\<lambda>res. write_status net (status_of res)))) ()"
    using assms by (auto simp: simple_def intro: serves_args)
qed

lemma implements_stat: "implements (ReqStat p) (handle_stat_file net os)"
  unfolding handle_stat_file_def
proof (rule implementsI, rule serves_args)
  fix w resp w'
  assume "valid_request (ReqStat p)" and "respond os (ReqStat p) w = Some (resp, w')"
  moreover show "transacts V (request_body (ReqStat p)) [] (read_utf8_string (ClientHandler_read net)) p"
    if "valid_request (ReqStat p)" using that by (simp add: handler.transacts_read_utf8_string)
  ultimately show "serves V [] (response_bytes resp) w w' (bindM (getM (\<lambda>s. stat_file os p (world s)))
      (\<lambda>(status, stat). thenM (write_status net status)
        (if status = Success then FileStat_write (ClientHandler_write net) stat else returnM ()))) ()"
    by (intro serves_get)
       (auto split: prod.splits intro!: serves_status serves_end)
qed

lemma implements_move: "implements (ReqMove a) (handle_move_entry net os)"
  unfolding handle_move_entry_def
proof (rule implementsI, rule serves_args)
  fix w resp w'
  assume "valid_request (ReqMove a)"
  then show "transacts V (request_body (ReqMove a)) [] (MoveEntryArgs_read (ClientHandler_read net)) a"
    by (simp add: handler.MoveEntryArgs_read_spec)
next
  fix w resp w'
  let ?f = "sys_rename os (c_str (from_path a)) (c_str (to_path a))"
  assume "respond os (ReqMove a) w = Some (resp, w')"
  moreover have "serves V [] [u8_of_ResponseStatus (status_of (fst (?f w)))] w (snd (?f w))
      (bindM (sysM ?f) (\<lambda>res. write_status net (status_of res))) ()"
    by (rule serves_sys [OF prod.collapse [symmetric]]) (rule serves_end)
  ultimately show "serves V [] (response_bytes resp) w w'
      (bindM (getM (\<lambda>s. sys_stat os (c_str (to_path a)) (world s))) (\<lambda>existing.
         let do_rename = bindM (sysM ?f) (\<lambda>res. write_status net (status_of res))
         in case existing of
              Inl e \<Rightarrow> if e \<noteq> ENOENT then write_status net (get_status_from_errno e) else do_rename
            | Inr _ \<Rightarrow> if \<not> overwrite a then write_status net FileExists else do_rename)) ()"
    by (intro serves_get) (auto simp: Let_def simple_def status_of_def split: sum.splits if_splits intro: serves_end)
qed

lemma implements_open: "implements (ReqOpen a) (handle_open_handle net os)"
  unfolding handle_open_handle_def
proof (rule implementsI, rule serves_args)
  fix w resp w'
  assume "valid_request (ReqOpen a)"
  then show "transacts V (request_body (ReqOpen a)) [] (OpenHandleArgs_read (ClientHandler_read net)) a"
    by (simp add: handler.OpenHandleArgs_read_spec)
next
  fix w resp w'
  let ?f = "sys_open os (c_str (oh_path a))
     (access_flags (oh_read_access a) (oh_write_access a) OR mode_flags (oh_mode a)) DEFAULT_FILE_MODE"
  let ?k = "\<lambda>res. case res of Inl e \<Rightarrow> write_status net (get_status_from_errno e)
     | Inr fd \<Rightarrow> thenM (write_status net Success) (write_u32 (ClientHandler_write net) (word_of_int fd))"
  assume "respond os (ReqOpen a) w = Some (resp, w')"
  moreover have "serves V [] (response_bytes resp) w w' (bindM (sysM ?f) ?k) ()"
    if "fail_or (?f w) (\<lambda>fd w1. Some (RespHandle (word_of_int fd), w1)) = Some (resp, w')"
    using that
    by (intro serves_sys [OF prod.collapse [symmetric]])
       (auto simp: fail_or_def split: sum.splits prod.splits
         intro!: serves_end serves_status )
  ultimately show "serves V [] (response_bytes resp) w w'
     (if \<not> oh_read_access a \<and> \<not> oh_write_access a then write_status net GenericFailure
      else let creation_flags = access_flags (oh_read_access a) (oh_write_access a) OR mode_flags (oh_mode a)
           in bindM (sysM (sys_open os (c_str (oh_path a)) creation_flags DEFAULT_FILE_MODE)) ?k) ()"
    by (auto split: if_splits intro: serves_end)
qed

lemma implements_close: "implements (ReqClose h) (handle_close_handle net os)"
  unfolding handle_close_handle_def
proof (rule implementsI, rule serves_args)
  fix w resp w'
  assume "respond os (ReqClose h) w = Some (resp, w')"
  then show "serves V [] (response_bytes resp) w w'
      (thenM (sysM (\<lambda>w. ((), sys_close os (sint h) w))) (write_status net Success)) ()"
    unfolding thenM_def by (auto intro!: serves_sys serves_end)
qed (simp add: handler.transacts_read_u32)

lemma implements_disk_stats: "implements ReqDiskStats (handle_get_disk_stats net os)"
  unfolding handle_get_disk_stats_def
  by (rule implementsI, simp, rule serves_get)
     (auto simp: fail_or_def split: sum.splits
       intro!: serves_end serves_status )

lemma implements_check_remove_file: "implements (ReqCheckRemoveFile p) (handle_check_remove_file net os)"
  unfolding handle_check_remove_file_def
  by (rule implementsI, rule serves_args)
     (auto simp: handler.transacts_read_utf8_string intro!: serves_get serves_end)

lemma implements_remove_file: "implements (ReqRemoveFile p) (handle_remove_file net os)"
  unfolding handle_remove_file_def
  by (rule implements_simple) (simp_all add: handler.transacts_read_utf8_string)

lemma implements_remove_directory: "implements (ReqRemoveDirectory p) (handle_remove_directory net os)"
  unfolding handle_remove_directory_def
  by (rule implements_simple) (simp_all add: handler.transacts_read_utf8_string)

lemma implements_create_directory: "implements (ReqCreateDirectory p) (handle_create_directory net os)"
  unfolding handle_create_directory_def
  by (rule implements_simple) (simp_all add: handler.transacts_read_utf8_string)

lemma implements_truncate: "implements (ReqTruncate a) (handle_truncate_file net os)"
  unfolding handle_truncate_file_def
  by (rule implements_simple) (simp_all add: handler.TruncateHandleArgs_read_spec)

lemma implements_set_time: "implements (ReqSetTime a) (handle_set_file_time net os)"
  unfolding handle_set_file_time_def
  by (rule implements_simple) (simp_all add: handler.SetFileTimeArgs_read_spec)

subsection \<open>Directory streams\<close>

lemma find_entry_simps:
  "find_entry os' dir None = returnM False"
  "find_entry os' dir (Some name) =
     (if name \<noteq> ''.'' \<and> name \<noteq> ''..'' then returnM True else bindM (sysM (sys_readdir os' dir)) (find_entry os' dir))"
  by (rule ext, subst find_entry.simps, simp)+

lemma list_entries_None: "list_entries net' os' p dir None = returnM ()"
  by (rule ext, subst list_entries.simps) simp

lemma find_entry_serves:
  "other_entry os dir cur w = Some (b, w') \<Longrightarrow> serves V [] [] w w' (find_entry os dir cur) b"
proof (induction "dir_left dir w" arbitrary: cur w rule: less_induct)
  case less
  obtain nxt w1 where rd: "sys_readdir os dir w = (nxt, w1)" by fastforce
  show ?case
  proof (cases "cur = Some ''.'' \<or> cur = Some ''..''")
    case False
    with less.prems show ?thesis
      by (cases cur) (auto simp: find_entry_simps intro: serves_returnM)
  next
    case True
    then have run: "find_entry os dir cur = (bindM (sysM (sys_readdir os dir)) (find_entry os dir)
         :: (('s, 'w) ClientHandler, bool) M)"
      by (auto simp: find_entry_simps)
    from True less.prems rd have rest: "other_entry os dir nxt w1 = Some (b, w')" by auto
    have "serves V [] [] w1 w' (find_entry os dir nxt) b"
    proof (cases nxt)
      case None
      with rest show ?thesis by (auto simp: find_entry_simps intro: serves_returnM)
    next
      case (Some name)
      with readdir_law rd have "dir_left dir w1 < dir_left dir w" by blast
      from less.hyps [OF this rest] show ?thesis .
    qed
    then show ?thesis
      unfolding run by (rule serves_sys [of "sys_readdir os dir", OF rd])
  qed
qed

lemma entry_written:
  fixes name :: string
  assumes "length name \<le> 65535"
  shows "transacts V [] (entry_bytes (name, status, stat))
    (if status = Success
     then thenM (write_status net Success)
         (thenM (write_utf8_string (ClientHandler_write net) name) (FileStat_write (ClientHandler_write net) stat))
     else write_status net status :: (('s, 'w) ClientHandler, unit) M) ()"
proof (cases "status = Success")
  case True
  have "transacts V [] ([u8_of_ResponseStatus Success] @ utf8_bytes name @ FileStat_bytes stat)
     (thenM (write_status net Success)
       (thenM (write_utf8_string (ClientHandler_write net) name) (FileStat_write (ClientHandler_write net) stat))
       :: (('s, 'w) ClientHandler, unit) M) ()"
    by (rule transacts_write write_status_spec handler.transacts_write_utf8_string assms handler.FileStat_write_spec)+
  with True show ?thesis by simp
qed (simp add: write_status_spec)

lemma list_entries_serves:
  assumes "entries_from os p dir cur w = Some (es, w')" and "\<And>name. cur = Some name \<Longrightarrow> length name \<le> 255"
  shows "serves V [] (concat (map entry_bytes es)) w w' (list_entries net os p dir cur) ()"
  using assms
proof (induction "case cur of None \<Rightarrow> 0 | Some _ \<Rightarrow> Suc (dir_left dir w)" arbitrary: cur w es rule: less_induct)
  case less
  show ?case
  proof (cases cur)
    case None
    with less.prems show ?thesis
      by (auto simp: list_entries_None intro: serves_returnM)
  next
    case (Some name)
    obtain nxt w1 where rd: "sys_readdir os dir w = (nxt, w1)" by fastforce
    obtain status stat where st: "stat_file os (get_full_path p name) w = (status, stat)" by fastforce
    from less.prems(1) Some rd st obtain es' where es: "es = (name, status, stat) # es'"
      and rest: "entries_from os p dir nxt w1 = Some (es', w')"
      by (auto split: bind_splits)
    let ?entry = "if status = Success
       then thenM (write_status net Success)
         (thenM (write_utf8_string (ClientHandler_write net) name) (FileStat_write (ClientHandler_write net) stat))
       else write_status net status :: (('s, 'w) ClientHandler, unit) M"
    have run: "list_entries net os p dir cur s = bindM ?entry (\<lambda>_. bindM (sysM (sys_readdir os dir))
         (list_entries net os p dir)) s" if "world s = w" for s
      using Some st that by (subst list_entries.simps) simp
    have "serves V [] (concat (map entry_bytes es')) w1 w' (list_entries net os p dir nxt) ()"
      using less.hyps [OF _ rest] readdir_law [of dir w _ w1] rd Some by (auto split: option.splits)
    then have "serves V [] (concat (map entry_bytes es')) w w'
        (bindM (sysM (sys_readdir os dir)) (list_entries net os p dir)) ()"
      by (rule serves_sys [of "sys_readdir os dir", OF rd])
    from serves_write [OF entry_written this, of name status stat] less.prems(2) [OF Some]
    have "serves V [] (concat (map entry_bytes es)) w w' (bindM ?entry (\<lambda>_. bindM (sysM (sys_readdir os dir))
         (list_entries net os p dir))) ()"
      by (simp add: es thenM_def)
    then show ?thesis by (rule serves_cong [rotated]) (rule run)
  qed
qed

lemma implements_check_remove_directory:
  "implements (ReqCheckRemoveDirectory p) (handle_check_remove_directory net os)"
  unfolding handle_check_remove_directory_def
proof (rule implementsI, unfold request_body.simps, rule serves_args [OF handler.transacts_read_utf8_string], simp, rule serves_get)
  fix w resp w'
  let ?can = "can_remove_directory_entry os p w"
  let ?body = "\<lambda>res. case res of
     Inl e \<Rightarrow> write_status net (get_status_from_errno e)
   | Inr dir \<Rightarrow> bindM (sysM (sys_readdir os dir)) (\<lambda>entry. bindM (find_entry os dir entry) (\<lambda>has_entry.
        thenM (sysM (\<lambda>w. ((), sys_closedir os dir w)))
              (write_status net (if has_entry then DirectoryNotEmpty else Success))))"
  assume resp: "respond os (ReqCheckRemoveDirectory p) w = Some (resp, w')"
  have "serves V [] (response_bytes resp) w w' (bindM (sysM (sys_opendir os (c_str p))) ?body) ()"
    if ok: "?can = Success"
  proof (cases "sys_opendir os (c_str p) w")
    case (Pair res w1)
    have "serves V [] (response_bytes resp) w1 w' (?body res) ()"
    proof (cases res)
      case (Inr dir)
      obtain cur w2 where rd: "sys_readdir os dir w1 = (cur, w2)" by fastforce
      from resp ok Pair Inr rd obtain b w3 where found: "other_entry os dir cur w2 = Some (b, w3)"
        and fin: "resp = RespStatus (if b then DirectoryNotEmpty else Success)" "w' = sys_closedir os dir w3"
        by (auto simp: fail_or_def)
      have "serves V [] ([] @ response_bytes resp) w2 w' (bindM (find_entry os dir cur) (\<lambda>has_entry.
        thenM (sysM (\<lambda>w. ((), sys_closedir os dir w)))
              (write_status net (if has_entry then DirectoryNotEmpty else Success)))) ()"
        unfolding thenM_def
        by (rule serves_bindM [OF find_entry_serves [OF found], of "[]", unfolded append_Nil],
            rule serves_sys) (auto simp: fin intro: serves_end)
      with Inr rd show ?thesis by (auto intro: serves_sys)
    qed (use resp ok Pair in \<open>auto simp: fail_or_def intro: serves_end\<close>)
    with Pair show ?thesis by (intro serves_sys)
  qed
  with resp show "serves V [] (response_bytes resp) w w'
     (if ?can \<noteq> Success then write_status net ?can else bindM (sysM (sys_opendir os (c_str p))) ?body) ()"
    by (auto split: if_splits intro: serves_end)
qed

lemma implements_list: "implements (ReqList p) (handle_list_dir_stats net os)"
  unfolding handle_list_dir_stats_def
proof (rule implementsI, unfold request_body.simps, rule serves_args [OF handler.transacts_read_utf8_string], simp)
  fix w resp w'
  let ?body = "\<lambda>res. case res of
     Inl e \<Rightarrow> write_status net (get_status_from_errno e)
   | Inr dir \<Rightarrow> thenM (write_status net Success) (bindM (sysM (sys_readdir os dir)) (\<lambda>current_entry.
        thenM (list_entries net os p dir current_entry)
       (thenM (write_status net NoMoreEntries) (sysM (\<lambda>w. ((), sys_closedir os dir w))))))"
  assume resp: "respond os (ReqList p) w = Some (resp, w')"
  obtain res w1 where od: "sys_opendir os (c_str p) w = (res, w1)" by fastforce
  have "serves V [] (response_bytes resp) w1 w' (?body res) ()"
  proof (cases res)
    case (Inr dir)
    obtain cur w2 where rd: "sys_readdir os dir w1 = (cur, w2)" by fastforce
    from resp od Inr rd obtain es w3 where found: "entries_from os p dir cur w2 = Some (es, w3)"
      and fin: "resp = RespListing es" "w' = sys_closedir os dir w3"
      by (auto simp: fail_or_def)
    have names: "length name \<le> 255" if "cur = Some name" for name
      using readdir_law rd that by blast
    have "serves V ([] @ []) (concat (map entry_bytes es) @ [u8_of_ResponseStatus NoMoreEntries]) w2 w'
        (thenM (list_entries net os p dir cur)
          (thenM (write_status net NoMoreEntries) (sysM (\<lambda>w. ((), sys_closedir os dir w))))) ()"
      by (rule serves_thenM [OF list_entries_serves [OF found names] serves_status [OF serves_sysM]])
         (simp_all add: fin)
    with Inr rd fin show ?thesis by (auto intro: serves_status serves_sys)
  qed (use resp od in \<open>auto simp: fail_or_def intro: serves_end\<close>)
  with od show "serves V [] (response_bytes resp) w w' (bindM (sysM (sys_opendir os (c_str p))) ?body) ()"
    by (intro serves_sys)
qed

subsection \<open>Reading and writing files\<close>

lemma ensure_spec:
  fixes s :: "('s, 'w) ClientHandler"
  shows "wp (ensure_rw_buffer_size n) (\<lambda>r s'. \<exists>b. r = Inr () \<and> s' = s\<lparr>rw_buffer := b\<rparr> \<and> n \<le> length b) s"
  unfolding ensure_rw_buffer_size_def by (auto intro: exI [of _ "rw_buffer s"])

lemma serves_ensure:
  fixes m :: "(('s, 'w) ClientHandler, unit) M"
  assumes "\<And>s rest. ep_ok V s \<Longrightarrow> in_of V s = i @ rest \<Longrightarrow> world s = w \<Longrightarrow> n \<le> length (rw_buffer s) \<Longrightarrow>
     wp m (\<lambda>r s'. r = Inr () \<and> ep_ok V s' \<and> in_of V s' = rest \<and> out_of V s' = out_of V s @ out \<and> world s' = w') s"
  shows "serves V i out w w' (thenM (ensure_rw_buffer_size n) m) ()"
proof (rule servesI, unfold wp_thenM, rule wp_mono [OF ensure_spec], elim exE conjE)
  fix s s' :: "('s, 'w) ClientHandler" and r rest b
  assume "ep_ok V s" "in_of V s = i @ rest" "world s = w" "r = Inr ()" "s' = s\<lparr>rw_buffer := b\<rparr>" "n \<le> length b"
  with assms [of s' rest] show "case r of Inl e \<Rightarrow> Inl e = Inr () \<and> ep_ok V s' \<and> in_of V s' = rest
      \<and> out_of V s' = out_of V s @ out \<and> world s' = w'
    | Inr _ \<Rightarrow> wp m (\<lambda>r s'. r = Inr () \<and> ep_ok V s' \<and> in_of V s' = rest \<and> out_of V s' = out_of V s @ out \<and> world s' = w') s'"
    by (simp only: sum.case) simp
qed

text \<open>The reply to a read: status, length and that many bytes of the buffer.\<close>

lemma read_reply:
  fixes s :: "('s, 'w) ClientHandler"
  assumes s: "ep_ok V s" and buf: "take (length bs) (rw_buffer s) = bs" and small: "length bs < 2 ^ 31"
  shows "wp (thenM (write_status net Success) (thenM (write_u32 (ClientHandler_write net) (word_of_nat (length bs)))
      (bindM (getM rw_buffer) (\<lambda>buf. write_exact (ClientHandler_write net) buf (sint (word_of_nat (length bs) :: u32))))))
    (\<lambda>r s'. r = Inr () \<and> io_step V (in_of V s) (out_of V s @ response_bytes (RespData bs)) s s') s"
  unfolding wp_thenM wp_bindM wp_getM sum.case
proof (rule wp_transacts [OF write_status_spec s], simp, unfold sum.case)
  fix s1
  let ?hd = "out_of V s @ [u8_of_ResponseStatus Success]" and ?len = "be_bytes 4 (word_of_nat (length bs) :: u32)"
  assume s1: "io_step V (in_of V s) ?hd s s1"
  show "wp (write_u32 (ClientHandler_write net) (word_of_nat (length bs)))
      (\<lambda>r s'. case r of Inl e \<Rightarrow> Inl e = Inr () \<and> io_step V (in_of V s) (out_of V s @ response_bytes (RespData bs)) s s'
        | Inr a \<Rightarrow> wp (write_exact (ClientHandler_write net) (rw_buffer s') (sint (word_of_nat (length bs) :: u32)))
            (\<lambda>r s'. r = Inr () \<and> io_step V (in_of V s) (out_of V s @ response_bytes (RespData bs)) s s') s') s1"
  proof (rule wp_transacts [OF handler.transacts_write_u32 io_stepD(1) [OF s1]], simp, unfold sum.case)
    fix s2
    assume "io_step V (in_of V s1) (out_of V s1 @ ?len) s1 s2"
    from io_step_trans [OF s1 this] have s2: "io_step V (in_of V s) (?hd @ ?len) s s2"
      by (simp add: io_stepD(3,4) [OF s1])
    have "length bs \<le> length (rw_buffer s2)"
      using arg_cong [OF buf, of length] by (simp add: ep_frame_fields [OF io_stepD(2) [OF s2]])
    then have "wp (write_exact (ClientHandler_write net) (rw_buffer s2) (int (length bs)))
       (\<lambda>r s'. r = Inr () \<and> io_step V (in_of V s2) (out_of V s2 @ take (nat (int (length bs))) (rw_buffer s2)) s2 s') s2"
      by (intro handler.write_exact_spec io_stepD(1) [OF s2]) simp
    then show "wp (write_exact (ClientHandler_write net) (rw_buffer s2) (sint (word_of_nat (length bs) :: u32)))
        (\<lambda>r s'. r = Inr () \<and> io_step V (in_of V s) (out_of V s @ response_bytes (RespData bs)) s s') s2"
      unfolding small_word(2) [OF small]
      by (rule wp_mono) (use io_step_trans [OF s2] buf in
        \<open>auto simp: io_stepD(3,4) [OF s2] ep_frame_fields [OF io_stepD(2) [OF s2]]\<close>)
  qed
qed

lemma read_and_reply:
  fixes s :: "('s, 'w) ClientHandler"
  assumes s: "ep_ok V s" "in_of V s = [] @ rest" and small: "unat (rh_data_len a) < 2 ^ 31" "unat (rh_data_len a) \<le> length (rw_buffer s)"
    and resp: "fail_or (read_all os (sint (rh_handle a)) (unat (rh_data_len a)) [] (world s))
        (\<lambda>bs w2. Some (RespData bs, w2)) = Some (resp, w')"
  shows "wp (bindM (read_loop os a 0) (\<lambda>res. case res of
       Inl e \<Rightarrow> write_status net (get_status_from_errno e)
     | Inr total_read \<Rightarrow> thenM (write_status net Success) (thenM (write_u32 (ClientHandler_write net) total_read)
         (bindM (getM rw_buffer) (\<lambda>buf. write_exact (ClientHandler_write net) buf (sint total_read))))))
     (\<lambda>r s'. r = Inr () \<and> ep_ok V s' \<and> in_of V s' = rest
        \<and> out_of V s' = out_of V s @ response_bytes resp \<and> world s' = w') s"
proof -
  let ?rd = "read_all os (sint (rh_handle a)) (unat (rh_data_len a)) [] (world s)"
  from read_loop_spec [of "unat (rh_data_len a)" a "[]" s] small obtain r b where
    run: "read_loop os a 0 s = Some (r, s\<lparr>rw_buffer := b, world := snd ?rd\<rparr>)"
    and res: "case fst ?rd of Inl e \<Rightarrow> r = Inr (Inl e)
      | Inr bs \<Rightarrow> r = Inr (Inr (word_of_nat (length bs))) \<and> length bs \<le> unat (rh_data_len a) \<and> take (length bs) b = bs"
    by (auto simp: wp_iff)
  let ?s1 = "s\<lparr>rw_buffer := b, world := snd ?rd\<rparr>"
  show ?thesis
  proof (cases "fst ?rd")
    case (Inl e)
    with res resp have "resp = RespStatus (get_status_from_errno e)" "w' = snd ?rd"
      by (auto simp: fail_or_def split: prod.splits)
    moreover have "wp (write_status net (get_status_from_errno e)) (\<lambda>r s'. r = Inr ()
        \<and> io_step V (in_of V ?s1) (out_of V ?s1 @ [u8_of_ResponseStatus (get_status_from_errno e)]) ?s1 s') ?s1"
      by (rule wp_transacts [OF write_status_spec]) (simp_all add: s)
    ultimately show ?thesis
      using Inl res run s(2) by (auto simp: wp_iff bindM_def dest!: io_step_handler)
  next
    case (Inr bs)
    with res resp have eq: "resp = RespData bs" "w' = snd ?rd"
      by (auto simp: fail_or_def split: prod.splits)
    from Inr res small have "length bs < 2 ^ 31" "take (length bs) (rw_buffer ?s1) = bs" by auto
    then have "wp (thenM (write_status net Success)
        (thenM (write_u32 (ClientHandler_write net) (word_of_nat (length bs)))
          (bindM (getM rw_buffer) (\<lambda>buf. write_exact (ClientHandler_write net) buf (sint (word_of_nat (length bs) :: u32))))))
      (\<lambda>r s'. r = Inr () \<and> io_step V (in_of V ?s1) (out_of V ?s1 @ response_bytes (RespData bs)) ?s1 s') ?s1"
      by (intro read_reply) (simp_all add: s)
    then show ?thesis
      using Inr res run eq s(2)
      by (auto simp: wp_iff bindM_def dest!: io_step_handler)
  qed
qed

lemma implements_read: "implements (ReqRead a) (handle_read_file net os)"
  unfolding handle_read_file_def
proof (rule implementsI, unfold request_body.simps, rule serves_args [OF handler.ReadHandleArgs_read_spec],
    rule serves_sys [OF prod.collapse [symmetric]])
  fix w resp w'
  let ?fd = "sint (rh_handle a)" and ?n = "unat (rh_data_len a)"
  let ?seek = "sys_lseek os ?fd (sint (rh_offset a)) w"
  assume valid: "valid_request (ReqRead a)" and resp: "respond os (ReqRead a) w = Some (resp, w')"
  have n: "?n < 2 ^ 31" using valid by (simp add: nat_less_iff flip: nat_uint_eq)
  show "serves V [] (response_bytes resp) (snd ?seek) w' (case fst ?seek of
       Inl e \<Rightarrow> write_status net (get_status_from_errno e)
     | Inr _ \<Rightarrow> thenM (ensure_rw_buffer_size ?n) (bindM (read_loop os a 0) (\<lambda>res. case res of
         Inl e \<Rightarrow> write_status net (get_status_from_errno e)
       | Inr total_read \<Rightarrow> thenM (write_status net Success) (thenM (write_u32 (ClientHandler_write net) total_read)
           (bindM (getM rw_buffer) (\<lambda>buf. write_exact (ClientHandler_write net) buf (sint total_read))))))) ()"
  proof (cases "fst ?seek")
    case (Inl e)
    with resp show ?thesis by (auto simp: fail_or_def split: prod.splits intro: serves_end)
  next
    case (Inr pos)
    with resp have rd: "fail_or (read_all os ?fd ?n [] (snd ?seek)) (\<lambda>bs w2. Some (RespData bs, w2)) = Some (resp, w')"
      by (auto simp: fail_or_def split: prod.splits)
    with n show ?thesis
      unfolding Inr sum.case by (intro serves_ensure read_and_reply) simp_all
  qed
qed

lemma write_and_reply:
  fixes s :: "('s, 'w) ClientHandler"
  assumes s: "ep_ok V s" "in_of V s = bs @ rest" and len: "length bs < 2 ^ 31" "length bs \<le> length (rw_buffer s)"
    and resp: "Option.bind (write_all os (sint h) bs (world s)) simple = Some (resp, w')"
  shows "wp (bindM (read_exact (ClientHandler_read net) (int (length bs))) (\<lambda>data.
       thenM (modifyM (\<lambda>s. s\<lparr>rw_buffer := memcpy_at (rw_buffer s) 0 data\<rparr>))
      (bindM (write_loop os (write_args h off bs) 0) (\<lambda>res. write_status net (status_of res)))))
     (\<lambda>r s'. r = Inr () \<and> ep_ok V s' \<and> in_of V s' = rest
        \<and> out_of V s' = out_of V s @ response_bytes resp \<and> world s' = w') s"
proof -
  obtain s1 where rd: "read_exact (ClientHandler_read net) (int (length bs)) s = Some (Inr bs, s1)"
    and "io_step V rest (out_of V s) s s1"
    using handler.wp_read_exact [OF s refl, of "\<lambda>r s'. r = Inr bs \<and> io_step V rest (out_of V s) s s'"]
    by (auto simp: wp_iff)
  note s1 = io_step_handler [OF this(2)]
  let ?s2 = "s1\<lparr>rw_buffer := memcpy_at (rw_buffer s1) 0 bs\<rparr>"
  from resp obtain res where w: "write_all os (sint h) bs (world s) = Some (res, w')"
    and eq: "resp = RespStatus (status_of res)"
    by (auto simp: simple_def split: bind_splits)
  have loop: "write_loop os (write_args h off bs) 0 ?s2 = Some (Inr res, ?s2\<lparr>world := w'\<rparr>)"
    using write_loop_spec [of "write_args h off bs" bs ?s2 0] len w
    by (simp add: wp_iff write_args_def memcpy_at_def s1)
  have "wp (write_status net (status_of res)) (\<lambda>r s'. r = Inr ()
      \<and> io_step V rest (out_of V s @ [u8_of_ResponseStatus (status_of res)]) (?s2\<lparr>world := w'\<rparr>) s') (?s2\<lparr>world := w'\<rparr>)"
    by (rule wp_transacts [OF write_status_spec]) (simp_all add: s1)
  then show ?thesis
    by (auto simp: wp_iff bindM_def thenM_def modifyM_def rd loop eq dest!: io_step_handler)
qed

lemma implements_write: "implements (ReqWrite h off bs) (handle_write_file net os)"
  unfolding handle_write_file_def
proof (rule implementsI, unfold request_body.simps, rule serves_read [OF handler.WriteHandleInitArgs_read_spec],
    rule serves_sys [OF prod.collapse [symmetric]])
  fix w resp w'
  let ?a = "write_args h off bs"
  let ?seek = "sys_lseek os (sint (wh_handle ?a)) (sint (wh_offset ?a)) w"
  assume len: "valid_request (ReqWrite h off bs)" and sync: "in_sync os (ReqWrite h off bs) w"
    and resp: "respond os (ReqWrite h off bs) w = Some (resp, w')"
  have sk: "?seek = sys_lseek os (sint h) (sint off) w" by (simp add: write_args_def)
  have n: "unat (wh_data_len ?a) = length bs" "sint (wh_data_len ?a) = int (length bs)"
    using len by (simp_all add: write_args_def small_word)
  show "serves V bs (response_bytes resp) (snd ?seek) w' (case fst ?seek of
       Inl e \<Rightarrow> write_status net (get_status_from_errno e)
     | Inr _ \<Rightarrow> thenM (ensure_rw_buffer_size (unat (wh_data_len ?a)))
         (bindM (read_exact (ClientHandler_read net) (sint (wh_data_len ?a))) (\<lambda>data.
          thenM (modifyM (\<lambda>s. s\<lparr>rw_buffer := memcpy_at (rw_buffer s) 0 data\<rparr>))
         (bindM (write_loop os ?a 0) (\<lambda>res. write_status net (status_of res)))))) ()"
  proof (cases "fst ?seek")
    case (Inl e)
    with resp sync show ?thesis
      unfolding sk by (auto simp: fail_or_def split: prod.splits intro: serves_end)
  next
    case (Inr pos)
    with resp have w: "Option.bind (write_all os (sint h) bs (snd ?seek)) simple = Some (resp, w')"
      unfolding sk by (auto simp: fail_or_def split: prod.splits)
    with len show ?thesis
      unfolding Inr sum.case n by (intro serves_ensure write_and_reply) simp_all
  qed
qed

subsection \<open>The dispatcher and the message loop\<close>

lemma implements_request: "implements req (handle_request net os (request_type req))"
  by (cases req) (simp_all add: handle_request_def implements_stat implements_list implements_create_directory
      implements_check_remove_file implements_check_remove_directory implements_remove_file
      implements_remove_directory implements_move implements_open implements_close implements_read
      implements_write implements_truncate implements_set_time implements_disk_stats)

lemma respond_total: "\<exists>resp w'. respond os req w = Some (resp, w')"
proof (cases req)
  case (ReqList p)
  with entries_from_total [of p] show ?thesis by (auto simp: fail_or_def split: prod.splits sum.splits)
next
  case (ReqCheckRemoveDirectory p)
  with other_entry_total show ?thesis by (auto simp: fail_or_def split: prod.splits sum.splits)
next
  case (ReqWrite h off bs)
  have "\<exists>r w'. Option.bind (write_all os (sint h) bs w1) simple = Some (r, w')" for w1
    using write_all_total [of "sint h" bs w1] by (auto simp: simple_def)
  with ReqWrite show ?thesis by (auto simp: fail_or_def split: prod.splits sum.splits)
qed (auto simp: simple_def fail_or_def Let_def split: prod.splits sum.splits if_splits)

lemma respond_all_total: "\<exists>resps w'. respond_all os reqs w = Some (resps, w')"
proof (induction reqs arbitrary: w)
  case (Cons req reqs)
  from respond_total [of req w] obtain resp w1 where "respond os req w = Some (resp, w1)" by blast
  moreover from Cons.IH [of w1] obtain resps w2 where "respond_all os reqs w1 = Some (resps, w2)" by blast
  ultimately show ?case by simp
qed simp

lemma named_request_type [simp]: "named_request (request_type req)"
  by (cases req) (simp_all add: named_request_def)

text \<open>One turn of the loop: the request is consumed and its whole response is on the socket before the next read.\<close>

lemma serve_one:
  assumes s: "ep_ok V s" "in_of V s = request_bytes req @ rest"
    and req: "valid_request req" "in_sync os req (world s)" "respond os req (world s) = Some (resp, w')"
  obtains s' where "handle_messages net os s = handle_messages net os s'" and "ep_ok V s'" and "in_of V s' = rest"
    and "out_of V s' = out_of V s @ response_bytes resp" and "world s' = w'" and "buffer_bytes_filled (writer s') = 0"
proof -
  obtain s1 where rb: "read_byte (ClientHandler_read net) s = Some (Inr (u8_of_RequestType (request_type req)), s1)"
    and s1: "io_step V (request_body req @ rest) (out_of V s) s s1"
    using handler.wp_read_byte [OF s(1), of _ _ "\<lambda>r s'. r = Inr (u8_of_RequestType (request_type req))
        \<and> io_step V (request_body req @ rest) (out_of V s) s s'"] s(2)
    by (auto simp: request_bytes_def wp_iff)
  note s1' = io_step_handler [OF s1]
  have "serves V (request_body req) (response_bytes resp) (world s) w' (handle_request net os (request_type req)) ()"
    using implements_request [of req] req by (auto simp: implements_def)
  then have "wp (handle_request net os (request_type req)) (\<lambda>r s'. r = Inr () \<and> ep_ok V s' \<and> in_of V s' = rest
      \<and> out_of V s' = out_of V s @ response_bytes resp \<and> world s' = w') s1"
    by (rule wp_serves [where rest = rest]) (use s1' in auto)
  then obtain s2 where hr: "handle_request net os (request_type req) s1 = Some (Inr (), s2)"
    and s2: "ep_ok V s2" "in_of V s2 = rest" "out_of V s2 = out_of V s @ response_bytes resp" "world s2 = w'"
    by (auto simp: wp_iff)
  from handler.flush_spec [OF s2(1)] obtain s3 where fl: "flush (ClientHandler_write net) s2 = Some (Inr (), s3)"
    and s3: "io_step V (in_of V s2) (out_of V s2) s2 s3" "buffer_bytes_filled (writer s3) = 0"
    by (auto simp: wp_iff)
  have "handle_messages net os s = handle_messages net os s3"
    by (subst handle_messages.simps) (simp add: bindM_def catchM_def rb returnM_def hr fl)
  then show thesis
    using io_step_handler [OF s3(1)] s2 s3(2) by (intro that) auto
qed

lemma messages_eof:
  assumes "ep_ok V s" and "in_of V s = []"
  shows "wp (handle_messages net os) (\<lambda>r s'. r = Inr () \<and> ep_ok V s' \<and> in_of V s' = [] \<and> out_of V s' = out_of V s
     \<and> writer s' = writer s \<and> world s' = world s) s"
proof -
  obtain s1 where rb: "read_byte (ClientHandler_read net) s = Some (Inl EOFException, s1)"
    and s1: "io_step V [] (out_of V s) s s1" "writer s1 = writer s"
    using handler.wp_read_byte_eof [OF assms, of "\<lambda>r s'. r = Inl EOFException
        \<and> io_step V [] (out_of V s) s s' \<and> writer s' = writer s"]
    by (auto simp: wp_iff)
  have "handle_messages net os s = Some (Inr (), s1)"
    by (subst handle_messages.simps) (simp add: bindM_def catchM_def rb returnM_def)
  with s1 io_step_handler [OF s1(1)] show ?thesis by (auto simp: wp_iff)
qed

lemma session:
  assumes "ep_ok V s" and "in_of V s = concat (map request_bytes reqs)" and "buffer_bytes_filled (writer s) = 0"
    and "list_all valid_request reqs" and "all_in_sync os reqs (world s)" and "respond_all os reqs (world s) = Some (resps, w')"
  shows "wp (handle_messages net os) (\<lambda>r s'. r = Inr () \<and> world s' = w'
     \<and> outgoing V (socket s') = outgoing V (socket s) @ concat (map response_bytes resps)) s"
  using assms
proof (induction reqs arbitrary: s resps)
  case Nil
  with messages_eof [of s] show ?case
    by (auto simp: wp_iff out_of_def buffered_def)
next
  case (Cons req reqs)
  from Cons.prems obtain resp w1 resps' where one: "respond os req (world s) = Some (resp, w1)"
    and rest: "respond_all os reqs w1 = Some (resps', w')" "resps = resp # resps'" "all_in_sync os reqs w1"
    and req: "valid_request req" "in_sync os req (world s)"
    using Cons.prems by (auto split: bind_splits)
  from Cons.prems have "in_of V s = request_bytes req @ concat (map request_bytes reqs)" by simp
  from serve_one [OF Cons.prems(1) this req one] obtain s' where
    step: "handle_messages net os s = handle_messages net os s'" and s': "ep_ok V s'"
    "in_of V s' = concat (map request_bytes reqs)" "out_of V s' = out_of V s @ response_bytes resp" "world s' = w1"
    "buffer_bytes_filled (writer s') = 0"
    by metis
  have "outgoing V (socket s') = outgoing V (socket s) @ response_bytes resp"
    using s'(3,5) Cons.prems(3) by (simp add: out_of_def buffered_def)
  with Cons.IH [OF s'(1,2,5)] Cons.prems(4) s'(4) rest step show ?case
    by (auto simp: wp_iff)
qed

end

section \<open>Handshake and protocol errors\<close>

context unix_socket
begin

lemma handshake_echoes:
  fixes s :: "('s, 'w) ClientHandler" and x :: u32
  assumes "ep_ok V s" and "in_of V s = be_bytes 4 x @ rest"
  shows "wp (ClientHandler_handshake net) (\<lambda>r s'. r = Inr () \<and> io_step V rest (out_of V s @ be_bytes 4 x) s s'
     \<and> buffer_bytes_filled (writer s') = 0) s"
proof -
  have "transacts V (be_bytes 4 x @ []) ([] @ be_bytes 4 x)
      (bindM (read_u32 (ClientHandler_read net)) (write_u32 (ClientHandler_write net)) :: (('s, 'w) ClientHandler, unit) M) ()"
    by (rule transacts_bindM [OF handler.transacts_read_u32 handler.transacts_write_u32])
  then have "wp (bindM (read_u32 (ClientHandler_read net)) (write_u32 (ClientHandler_write net)))
      (\<lambda>r s'. r = Inr () \<and> io_step V rest (out_of V s @ be_bytes 4 x) s s') s"
    by (rule wp_transacts [OF _ assms(1)]) (simp_all add: assms(2))
  then obtain s1 where run: "bindM (read_u32 (ClientHandler_read net)) (write_u32 (ClientHandler_write net)) s = Some (Inr (), s1)"
    and s1: "io_step V rest (out_of V s @ be_bytes 4 x) s s1" by (auto simp: wp_iff)
  have "wp (flush (ClientHandler_write net)) (\<lambda>r s'. r = Inr () \<and> io_step V rest (out_of V s @ be_bytes 4 x) s s'
     \<and> buffer_bytes_filled (writer s') = 0) s1"
    by (rule handler.wp_flush [OF io_stepD(1) [OF s1]]) (use io_step_trans [OF s1] in \<open>simp add: io_stepD(3,4) [OF s1]\<close>)
  moreover have "ClientHandler_handshake net = bindM (bindM (read_u32 (ClientHandler_read net)) (write_u32 (ClientHandler_write net)))
      (\<lambda>_. flush (ClientHandler_write net) :: (('s, 'w) ClientHandler, unit) M)"
    by (simp add: ClientHandler_handshake_def bindM_assoc thenM_def)
  ultimately show ?thesis by (simp add: wp_def bindM_def [of "bindM _ _"] run)
qed

lemma unknown_request:
  fixes s :: "('s, 'w) ClientHandler"
  assumes "RequestType_of_u8 b = OtherRequest b" and "ep_ok V s" and "in_of V s = b # rest"
  shows "wp (handle_messages net os) (\<lambda>r s'. r = Inl (RuntimeError ''Unknown request type received!'')
     \<and> io_step V rest (out_of V s) s s') s"
proof -
  obtain s1 where rb: "read_byte (ClientHandler_read net) s = Some (Inr b, s1)"
    and s1: "io_step V rest (out_of V s) s s1"
    using handler.wp_read_byte [OF assms(2,3), of "\<lambda>r s'. r = Inr b \<and> io_step V rest (out_of V s) s s'"]
    by (auto simp: wp_iff)
  have "handle_messages net os s = Some (Inl (RuntimeError ''Unknown request type received!''), s1)"
    by (subst handle_messages.simps)
       (simp add: bindM_def catchM_def rb returnM_def assms(1) handle_request_def throwM_def)
  with s1 show ?thesis by (auto simp: wp_iff)
qed

text \<open>
  A write request whose length is negative as an \<open>int\<close>: nothing of its data is read, and the
  buffer is written as it is, with zeros behind its old content.
\<close>

lemma write_loop_frame:
  fixes s :: "('s, 'w) ClientHandler"
  assumes "write_loop os a n s = Some (r, s')"
  shows "\<exists>w. s' = s\<lparr>world := w\<rparr>"
proof -
  have "\<exists>w. snd (r, s') = s\<lparr>world := w\<rparr>"
  proof (rule write_loop.raw_induct [OF _ assms, where P = "\<lambda>os a n s y. \<exists>w. snd y = s\<lparr>world := w\<rparr>"])
    fix loop :: "('w, 'd) posix \<Rightarrow> WriteHandleInitArgs \<Rightarrow> u32 \<Rightarrow> ('s, 'w) ClientHandler \<Rightarrow> ((exn + (errno + unit)) \<times> ('s, 'w) ClientHandler) option"
      and os :: "('w, 'd) posix" and a n and s :: "('s, 'w) ClientHandler" and y
    assume IH: "\<And>os a n s y. loop os a n s = Some y \<Longrightarrow> \<exists>w. snd y = s\<lparr>world := w\<rparr>"
    have same: "\<exists>w. s = s\<lparr>world := w\<rparr>" by (rule exI [of _ "world s"]) simp
    assume "(if n < wh_data_len a
      then if sint n < 0 then throwM UndefinedBehaviour s
           else bindM (sysM (sys_write os (sint (wh_handle a)) (take (unat (wh_data_len a - n)) (drop (unat n) (rw_buffer s)))))
                  (\<lambda>res. case res of Inl e \<Rightarrow> returnM (Inl e) | Inr write_result \<Rightarrow> loop os a (n + word_of_int write_result)) s
      else returnM (Inr ()) s) = Some y"
    then show "\<exists>w. snd y = s\<lparr>world := w\<rparr>"
      using same by (auto simp: bindM_def sysM_def throwM_def returnM_def split: if_splits prod.splits sum.splits dest!: IH)
  qed
  then show ?thesis by simp
qed

lemma oversized_write:
  fixes s :: "('s, 'w) ClientHandler"
  assumes "ep_ok V s" and "in_of V s = WriteHandleInitArgs_bytes a @ rest" and "2 ^ 31 \<le> uint (wh_data_len a)"
    and "sys_lseek os (sint (wh_handle a)) (sint (wh_offset a)) (world s) = (Inr pos, w1)"
  obtains u where "handle_write_file net os s = bindM (write_loop os a 0) (\<lambda>res. write_status net (status_of res)) u"
    and "ep_ok V u" and "in_of V u = rest" and "out_of V u = out_of V s" and "world u = w1"
    and "rw_buffer u = rw_buffer s @ replicate (unat (wh_data_len a) - length (rw_buffer s)) 0"
proof -
  obtain s1 where rd: "WriteHandleInitArgs_read (ClientHandler_read net) s = Some (Inr a, s1)"
    and s1: "io_step V rest (out_of V s) s s1"
    using wp_transacts [OF handler.WriteHandleInitArgs_read_spec assms(1,2), of "\<lambda>r s'. r = Inr a \<and> io_step V rest (out_of V s) s s'"]
    by (auto simp: wp_iff)
  note s1' = io_step_handler [OF s1]
  let ?u = "s1\<lparr>world := w1, rw_buffer := rw_buffer s @ replicate (unat (wh_data_len a) - length (rw_buffer s)) 0\<rparr>"
  have "sint (wh_data_len a) < 0" by (rule sint_large [OF assms(3)])
  then have rx: "read_exact rd' (sint (wh_data_len a)) t = Some (Inr [], t)" for rd' and t :: "('s, 'w) ClientHandler"
    by (simp add: read_exact_def read_exact_loop.simps returnM_def)
  have sk: "sysM (sys_lseek os (sint (wh_handle a)) (sint (wh_offset a))) s1 = Some (Inr (Inr pos), s1\<lparr>world := w1\<rparr>)"
    using assms(4) s1' by (simp add: sysM_def)
  have en: "ensure_rw_buffer_size (unat (wh_data_len a)) (s1\<lparr>world := w1\<rparr>) = Some (Inr (), ?u)"
    using s1' by (auto simp: ensure_rw_buffer_size_def modifyM_def)
  have cp: "modifyM (\<lambda>s. s\<lparr>rw_buffer := memcpy_at (rw_buffer s) 0 []\<rparr>) ?u = Some (Inr (), ?u)"
    by (simp add: modifyM_def memcpy_at_def)
  have "handle_write_file net os s = bindM (write_loop os a 0) (\<lambda>res. write_status net (status_of res)) ?u"
    by (simp add: handle_write_file_def thenM_def bindM_def rd sk en rx cp)
  then show thesis by (rule that) (use s1' in simp_all)
qed

lemma oversized_write_keeps:
  fixes u :: "('s, 'w) ClientHandler"
  assumes "bindM (write_loop os a 0) (\<lambda>res. write_status net (status_of res)) u = Some (r, s')" and "ep_ok V u"
  shows "in_of V s' = in_of V u"
proof -
  have "in_of V s' = in_of V u" if "write_status net st v = Some (r, s')" "v = u\<lparr>world := w\<rparr>" for st v w
    using wp_transacts [OF handler.transacts_write_byte, of v "in_of V v" "u8_of_ResponseStatus st" "\<lambda>r s'. in_of V s' = in_of V v"] that assms(2)
    by (auto simp: wp_def write_status_def dest: io_step_handler)
  with assms(1) show ?thesis
    by (auto simp: bindM_def split: Option.bind_splits sum.splits dest!: write_loop_frame)
qed

text \<open>
  A write request whose seek fails: the loop goes on with the data of the request in front
  of the stream.
\<close>

lemma write_seek_failure:
  assumes "ep_ok V s" and "in_of V s = request_bytes (ReqWrite h off bs) @ rest"
    and "sys_lseek os (sint h) (sint off) (world s) = (Inl e, w')"
  obtains s' where "handle_messages net os s = handle_messages net os s'" and "ep_ok V s'"
    and "in_of V s' = bs @ rest" and "out_of V s' = out_of V s @ [u8_of_ResponseStatus (get_status_from_errno e)]"
proof -
  let ?b = "u8_of_RequestType WriteHandle" and ?a = "write_args h off bs"
  let ?out = "out_of V s @ [u8_of_ResponseStatus (get_status_from_errno e)]"
  obtain s1 where rb: "read_byte (ClientHandler_read net) s = Some (Inr ?b, s1)"
    and s1: "io_step V (WriteHandleInitArgs_bytes ?a @ bs @ rest) (out_of V s) s s1"
    using handler.wp_read_byte [OF assms(1), of ?b _ "\<lambda>r s'. r = Inr ?b
        \<and> io_step V (WriteHandleInitArgs_bytes ?a @ bs @ rest) (out_of V s) s s'"] assms(2)
    by (auto simp: wp_iff request_bytes_def)
  note s1' = io_step_handler [OF s1]
  have "serves V (WriteHandleInitArgs_bytes ?a) [u8_of_ResponseStatus (get_status_from_errno e)] (world s) w'
      (handle_write_file net os) ()"
    unfolding handle_write_file_def write_status_def
    by (rule serves_args [OF handler.WriteHandleInitArgs_read_spec], rule serves_sys)
       (use assms(3) in \<open>auto simp: write_args_def intro: serves_transacts [OF handler.transacts_write_byte]\<close>)
  from wp_serves [OF this, of s1 "bs @ rest" "\<lambda>r s'. r = Inr () \<and> ep_ok V s' \<and> in_of V s' = bs @ rest \<and> out_of V s' = ?out"] s1'
  obtain s2 where hr: "handle_write_file net os s1 = Some (Inr (), s2)"
    and s2: "ep_ok V s2" "in_of V s2 = bs @ rest" "out_of V s2 = ?out"
    by (auto simp: wp_iff)
  from handler.flush_spec [OF s2(1)] obtain s3 where fl: "flush (ClientHandler_write net) s2 = Some (Inr (), s3)"
    and s3: "io_step V (in_of V s2) (out_of V s2) s2 s3"
    by (auto simp: wp_iff)
  have "handle_messages net os s = handle_messages net os s3"
    by (subst handle_messages.simps)
       (simp add: bindM_def catchM_def rb returnM_def RequestType_of_u8_def handle_request_def hr fl)
  then show thesis
    using io_step_handler [OF s3] s2 by (intro that [of s3]) auto
qed

end

end
