(* ===== verification/Ram_FS.thy ===== *)
theory Ram_FS
  imports Daemon_Refinement
begin

text \<open>
  An executable file system in memory that meets the contract \<open>posix_os\<close>: one directory
  with regular files, descriptors with a position, short reads (at most 3 bytes) and short
  writes (at most 2), so that the loops of the handlers run more than once. It instantiates
  the daemon's contracts, and the examples of the other theories run on it.
\<close>

record ramfs =
  rf_files :: "(string \<times> u8 list) list"
  rf_fds :: "(string \<times> nat) list"
  rf_dirs :: "string list list"

definition EBADF :: errno where
  "EBADF = Errno 9"

definition rf_content :: "string \<Rightarrow> ramfs \<Rightarrow> u8 list option" where
  "rf_content p w = map_of (rf_files w) p"

definition rf_put :: "string \<Rightarrow> u8 list \<Rightarrow> ramfs \<Rightarrow> ramfs" where
  "rf_put p c w = w\<lparr>rf_files := (p, c) # filter (\<lambda>(q, _). q \<noteq> p) (rf_files w)\<rparr>"

definition rf_remove :: "string \<Rightarrow> ramfs \<Rightarrow> ramfs" where
  "rf_remove p w = w\<lparr>rf_files := filter (\<lambda>(q, _). q \<noteq> p) (rf_files w)\<rparr>"

text \<open>A descriptor's path, position and content.\<close>

definition rf_fd :: "int \<Rightarrow> ramfs \<Rightarrow> (string \<times> nat \<times> u8 list) option" where
  "rf_fd fd w =
     (if 0 \<le> fd \<and> nat fd < length (rf_fds w)
      then (case rf_fds w ! nat fd of (p, pos) \<Rightarrow> map_option (\<lambda>c. (p, pos, c)) (rf_content p w))
      else None)"

definition rf_opendir :: "string \<Rightarrow> ramfs \<Rightarrow> (errno + nat) \<times> ramfs" where
  "rf_opendir p w =
     (if p = ''/mnt/sdcard'' then (Inr (length (rf_dirs w)), w\<lparr>rf_dirs := rf_dirs w @ [map (\<lambda>(p, _). drop (length ''/mnt/sdcard/'') p) (rf_files w)]\<rparr>)
      else (Inl (if rf_content p w = None then ENOENT else ENOTDIR), w))"

definition rf_readdir :: "nat \<Rightarrow> ramfs \<Rightarrow> string option \<times> ramfs" where
  "rf_readdir d w =
     (if d < length (rf_dirs w)
      then (case rf_dirs w ! d of
              [] \<Rightarrow> (None, w)
            | x # xs \<Rightarrow> (if length x \<le> 255 then (Some x, w\<lparr>rf_dirs := (rf_dirs w)[d := xs]\<rparr>) else (None, w)))
      else (None, w))"

definition rf_dir_left :: "nat \<Rightarrow> ramfs \<Rightarrow> nat" where
  "rf_dir_left d w = (if d < length (rf_dirs w) then length (rf_dirs w ! d) else 0)"

definition rf_open :: "string \<Rightarrow> u32 \<Rightarrow> ramfs \<Rightarrow> (errno + int) \<times> ramfs" where
  "rf_open p flags w =
     (let fd = int (length (rf_fds w)); w1 = w\<lparr>rf_fds := rf_fds w @ [(p, 0)]\<rparr> in
      case rf_content p w of
        None \<Rightarrow> if and flags O_CREAT \<noteq> 0 then (Inr fd, rf_put p [] w1) else (Inl ENOENT, w)
      | Some c \<Rightarrow> if and flags O_EXCL \<noteq> 0 then (Inl EEXIST, w)
                  else if and flags O_TRUNC \<noteq> 0 then (Inr fd, rf_put p [] w1) else (Inr fd, w1))"

definition rf_lseek :: "int \<Rightarrow> int \<Rightarrow> ramfs \<Rightarrow> (errno + int) \<times> ramfs" where
  "rf_lseek fd off w =
     (case rf_fd fd w of
        Some (p, pos, c) \<Rightarrow> if 0 \<le> off then (Inr off, w\<lparr>rf_fds := (rf_fds w)[nat fd := (p, nat off)]\<rparr>)
                            else (Inl (Errno 22), w)
      | None \<Rightarrow> (Inl EBADF, w))"

definition rf_read :: "int \<Rightarrow> nat \<Rightarrow> ramfs \<Rightarrow> (errno + u8 list) \<times> ramfs" where
  "rf_read fd n w =
     (case rf_fd fd w of
        Some (p, pos, c) \<Rightarrow> (let bs = take (min n 3) (drop pos c)
           in (Inr bs, w\<lparr>rf_fds := (rf_fds w)[nat fd := (p, pos + length bs)]\<rparr>))
      | None \<Rightarrow> (Inl EBADF, w))"

definition rf_write :: "int \<Rightarrow> u8 list \<Rightarrow> ramfs \<Rightarrow> (errno + int) \<times> ramfs" where
  "rf_write fd bs w =
     (case rf_fd fd w of
        Some (p, pos, c) \<Rightarrow> (let bs = take 2 bs; c = c @ replicate (pos - length c) 0
           in (Inr (int (length bs)),
               rf_put p (take pos c @ bs @ drop (pos + length bs) c)
                 (w\<lparr>rf_fds := (rf_fds w)[nat fd := (p, pos + length bs)]\<rparr>)))
      | None \<Rightarrow> (Inl EBADF, w))"

definition rf_ftruncate :: "int \<Rightarrow> int \<Rightarrow> ramfs \<Rightarrow> (errno + unit) \<times> ramfs" where
  "rf_ftruncate fd n w =
     (case rf_fd fd w of
        Some (p, pos, c) \<Rightarrow> (Inr (), rf_put p (take (nat n) c @ replicate (nat n - length c) 0) w)
      | None \<Rightarrow> (Inl EBADF, w))"

definition on_file :: "string \<Rightarrow> (u8 list \<Rightarrow> 'a \<times> ramfs) \<Rightarrow> ramfs \<Rightarrow> (errno + 'a) \<times> ramfs" where
  "on_file p f w = (case rf_content p w of None \<Rightarrow> (Inl ENOENT, w) | Some c \<Rightarrow> map_prod Inr id (f c))"

definition ram_os :: "(ramfs, nat) posix" where
  "ram_os = \<lparr>
     sys_stat = (\<lambda>p w. case rf_content p w of
        None \<Rightarrow> Inl ENOENT
      | Some c \<Rightarrow> Inr \<lparr>st_mode = DEFAULT_FILE_MODE, st_size = word_of_nat (length c), st_atime = 0, st_mtime = 0\<rparr>),
     sys_opendir = rf_opendir,
     sys_readdir = rf_readdir,
     sys_closedir = (\<lambda>d w. w),
     sys_rename = (\<lambda>p q w. on_file p (\<lambda>c. ((), rf_put q c (rf_remove p w))) w),
     sys_unlink = (\<lambda>p w. on_file p (\<lambda>c. ((), rf_remove p w)) w),
     sys_rmdir = (\<lambda>p w. (Inl ENOTDIR, w)),
     sys_mkdir = (\<lambda>p m w. (Inl EACCES, w)),
     sys_open = (\<lambda>p flags m. rf_open p flags),
     sys_close = (\<lambda>fd w. w),
     sys_lseek = rf_lseek,
     sys_read = rf_read,
     sys_write = rf_write,
     sys_ftruncate = rf_ftruncate,
     sys_utimensat = (\<lambda>p ts w. on_file p (\<lambda>c. ((), w)) w),
     sys_statvfs = (\<lambda>p w. Inr \<lparr>f_bsize = 4096, f_frsize = 4096, f_blocks = 1000, f_bfree = 500, f_bavail = 400, f_favail = 77\<rparr>),
     sys_access = (\<lambda>p m w. Inr ())\<rparr>"

lemma ram_posix_os: "posix_os ram_os rf_dir_left"
proof
  show "length bs \<le> n" if "sys_read ram_os fd n w = (Inr bs, w')" for fd n w bs w'
    using that by (auto simp: ram_os_def rf_read_def Let_def split: option.splits)
  show "1 \<le> k \<and> k \<le> int (length bs)" if "sys_write ram_os fd bs w = (Inr k, w')" "bs \<noteq> []" for fd bs w k w'
    using that by (cases bs) (auto simp: ram_os_def rf_write_def Let_def split: option.splits)
  show "rf_dir_left d w' < rf_dir_left d w \<and> length name \<le> 255" if "sys_readdir ram_os d w = (Some name, w')" for d w name w'
    using that by (auto simp: ram_os_def rf_readdir_def rf_dir_left_def split: if_splits list.splits)
qed

interpretation ram: posix_os ram_os rf_dir_left
  by (rule ram_posix_os)

interpretation ram_daemon: daemon scripted_api scripted_view ram_os rf_dir_left
  by unfold_locales

end
