(* ===== verification/Daemon.thy ===== *)
theory Daemon
  imports Ram_FS
begin

text \<open>
  The daemon's guarantees, stated over the handlers of \<open>ClientHandler.cpp\<close> on any socket
  and any system that meet their contracts: whole sessions, single turns of the message
  loop, and what a client gets from regular files and directories (the further contracts
  \<open>regular_file\<close> and \<open>dir_stream\<close>).
\<close>

section \<open>Regular files\<close>

text \<open>\<open>overlay c pos bs\<close>: the content \<open>c\<close> after writing \<open>bs\<close> at \<open>pos\<close> (a gap is filled with zeros).\<close>

definition overlay :: "u8 list \<Rightarrow> nat \<Rightarrow> u8 list \<Rightarrow> u8 list" where
  "overlay c pos bs = (let c = c @ replicate (pos - length c) 0 in take pos c @ bs @ drop (pos + length bs) c)"

lemma overlay_overlay: "overlay (overlay c pos a) (pos + length a) b = overlay c pos (a @ b)"
proof -
  have "min (length c) pos + (pos - length c) = pos" by simp
  then show ?thesis by (simp add: overlay_def Let_def add.assoc add.left_commute add.commute [of "length b"])
qed

lemma overlay_read: "take (length bs) (drop pos (overlay c pos bs)) = bs"
  by (simp add: overlay_def Let_def)

text \<open>
  What POSIX promises of an open regular file: \<open>view w\<close> is its content and position when
  \<open>fd\<close> is open on it; reads and writes may be short, a read of nothing means end of file.
\<close>

locale regular_file =
  fixes os :: "('w, 'd) posix"
    and fd :: int
    and view :: "'w \<Rightarrow> (u8 list \<times> nat) option"
  assumes seek_file: "view w = Some (c, pos) \<Longrightarrow> 0 \<le> off \<Longrightarrow>
      \<exists>w'. sys_lseek os fd off w = (Inr off, w') \<and> view w' = Some (c, nat off)"
    and read_file: "view w = Some (c, pos) \<Longrightarrow> 0 < n \<Longrightarrow>
      \<exists>bs w'. sys_read os fd n w = (Inr bs, w') \<and> view w' = Some (c, pos + length bs)
        \<and> length bs \<le> n \<and> bs = take (length bs) (drop pos c) \<and> (bs = [] \<longrightarrow> length c \<le> pos)"
    and write_file: "view w = Some (c, pos) \<Longrightarrow> bs \<noteq> [] \<Longrightarrow>
      \<exists>k w'. sys_write os fd bs w = (Inr (int k), w') \<and> 1 \<le> k \<and> k \<le> length bs
        \<and> view w' = Some (overlay c pos (take k bs), pos + k)"
begin

lemma read_all_file:
  assumes "view w = Some (c, pos)" and "length acc \<le> n"
  shows "\<exists>w'. read_all os fd n acc w = (Inr (acc @ take (n - length acc) (drop pos c)), w')
    \<and> (\<exists>pos'. view w' = Some (c, pos'))"
  using assms
proof (induction "n - length acc" arbitrary: acc w pos rule: less_induct)
  case less
  show ?case
  proof (cases "length acc < n")
    case True
    with read_file [OF less.prems(1), of "n - length acc"] obtain bs w1 where
      rd: "sys_read os fd (n - length acc) w = (Inr bs, w1)" and w1: "view w1 = Some (c, pos + length bs)"
      and len: "length bs \<le> n - length acc" and bs: "bs = take (length bs) (drop pos c)" "bs = [] \<longrightarrow> length c \<le> pos"
      by auto
    show ?thesis
    proof (cases "bs = []")
      case True
      with rd w1 bs \<open>length acc < n\<close> show ?thesis by (simp add: read_all.simps [of os fd n acc])
    next
      case False
      have "n - length (acc @ bs) < n - length acc" "length (acc @ bs) \<le> n"
        using False len True by (auto intro!: diff_less_mono2)
      from less.hyps [OF this(1) w1 this(2)] obtain w' where
        "read_all os fd n (acc @ bs) w1 = (Inr ((acc @ bs) @ take (n - length (acc @ bs)) (drop (pos + length bs) c)), w')"
        "\<exists>pos'. view w' = Some (c, pos')" by auto
      moreover have "bs @ take (n - length (acc @ bs)) (drop (pos + length bs) c) = take (n - length acc) (drop pos c)"
      proof -
        from len obtain r where r: "n - length acc = length bs + r" by (metis le_Suc_ex)
        then have "n - length (acc @ bs) = r" by simp
        with bs(1) r show ?thesis by (simp add: take_add add.commute [of pos])
      qed
      ultimately show ?thesis
        using True False rd by (simp add: read_all.simps [of os fd n acc])
    qed
  qed (use less.prems in \<open>simp add: read_all.simps [of os fd n acc]\<close>)
qed

lemma write_all_file:
  assumes "view w = Some (c, pos)"
  shows "\<exists>w'. write_all os fd bs w = Some (Inr (), w') \<and> view w' = Some (overlay c pos bs, pos + length bs)
    \<or> bs = [] \<and> write_all os fd bs w = Some (Inr (), w)"
  using assms
proof (induction "length bs" arbitrary: bs w c pos rule: less_induct)
  case less
  show ?case
  proof (cases "bs = []")
    case False
    from write_file [OF less.prems False] obtain k w1 where wr: "sys_write os fd bs w = (Inr (int k), w1)"
      and k: "1 \<le> k" "k \<le> length bs" and w1: "view w1 = Some (overlay c pos (take k bs), pos + k)"
      by blast
    have ov: "overlay (overlay c pos (take k bs)) (pos + k) (drop k bs) = overlay c pos bs"
      using overlay_overlay [of c pos "take k bs" "drop k bs"] k by simp
    have "length (drop k bs) < length bs" using k by simp
    from less.hyps [OF this w1] False wr k w1 ov show ?thesis
      by (cases "drop k bs = []") (auto simp: write_all.simps [of os fd bs])
  qed simp
qed

lemma respond_read:
  assumes "view w = Some (c, pos)" and "sint (rh_handle a) = fd" and "0 \<le> sint (rh_offset a)"
  shows "\<exists>w'. respond os (ReqRead a) w = Some (RespData (take (unat (rh_data_len a)) (drop (nat (sint (rh_offset a))) c)), w')
    \<and> (\<exists>pos'. view w' = Some (c, pos'))"
proof -
  from seek_file [OF assms(1,3)] obtain w1 where sk: "sys_lseek os fd (sint (rh_offset a)) w = (Inr (sint (rh_offset a)), w1)"
    and w1: "view w1 = Some (c, nat (sint (rh_offset a)))" by blast
  from read_all_file [OF w1, of "[]" "unat (rh_data_len a)"] sk assms(2) show ?thesis
    by (auto simp: fail_or_def)
qed

lemma respond_write:
  assumes "view w = Some (c, pos)" and "sint h = fd" and "0 \<le> sint off" and "bs \<noteq> []"
  shows "\<exists>w'. respond os (ReqWrite h off bs) w = Some (RespStatus Success, w')
    \<and> view w' = Some (overlay c (nat (sint off)) bs, nat (sint off) + length bs)"
proof -
  from seek_file [OF assms(1,3)] obtain w1 where sk: "sys_lseek os fd (sint off) w = (Inr (sint off), w1)"
    and w1: "view w1 = Some (c, nat (sint off))" by blast
  from write_all_file [OF w1, of bs] sk assms show ?thesis
    by (auto simp: fail_or_def simple_def status_of_def)
qed

end

definition rf_view :: "int \<Rightarrow> ramfs \<Rightarrow> (u8 list \<times> nat) option" where
  "rf_view fd w = map_option (\<lambda>(p, pos, c). (c, pos)) (rf_fd fd w)"

interpretation ram_file: regular_file ram_os fd "rf_view fd"
proof
  fix w c pos and off :: int
  assume "rf_view fd w = Some (c, pos)" and "0 \<le> off"
  then show "\<exists>w'. sys_lseek ram_os fd off w = (Inr off, w') \<and> rf_view fd w' = Some (c, nat off)"
    by (auto simp: ram_os_def rf_lseek_def rf_view_def rf_fd_def rf_content_def split: if_splits prod.splits)
next
  fix w c pos and n :: nat
  assume "rf_view fd w = Some (c, pos)" and "0 < n"
  then obtain p where "rf_fd fd w = Some (p, pos, c)" by (auto simp: rf_view_def)
  moreover from this have "rf_view fd (w\<lparr>rf_fds := (rf_fds w)[nat fd := (p, q)]\<rparr>) = Some (c, q)" for q
    by (auto simp: rf_view_def rf_fd_def rf_content_def split: if_splits prod.splits)
  ultimately show "\<exists>bs w'. sys_read ram_os fd n w = (Inr bs, w') \<and> rf_view fd w' = Some (c, pos + length bs)
      \<and> length bs \<le> n \<and> bs = take (length bs) (drop pos c) \<and> (bs = [] \<longrightarrow> length c \<le> pos)"
    using \<open>0 < n\<close> by (simp add: ram_os_def rf_read_def Let_def min_def)
next
  fix w c pos and bs :: "u8 list"
  assume "rf_view fd w = Some (c, pos)" and "bs \<noteq> []"
  then obtain p where "rf_fd fd w = Some (p, pos, c)" by (auto simp: rf_view_def)
  moreover from this have "rf_view fd (rf_put p c' (w\<lparr>rf_fds := (rf_fds w)[nat fd := (p, q)]\<rparr>)) = Some (c', q)" for c' q
    by (auto simp: rf_view_def rf_fd_def rf_put_def rf_content_def split: if_splits prod.splits)
  moreover have "take (length (take 2 bs)) bs = take 2 bs" by (simp add: min_def)
  moreover have "1 \<le> length (take 2 bs)" using \<open>bs \<noteq> []\<close> by (cases bs) simp_all
  ultimately show "\<exists>k w'. sys_write ram_os fd bs w = (Inr (int k), w') \<and> 1 \<le> k \<and> k \<le> length bs
      \<and> rf_view fd w' = Some (overlay c pos (take k bs), pos + k)"
    by (intro exI [of _ "length (take 2 bs)"]) (simp add: ram_os_def rf_write_def overlay_def Let_def)
qed

section \<open>Directory streams\<close>

text \<open>An open directory: \<open>remaining d w\<close> are the names \<open>readdir\<close> will still return.\<close>

locale dir_stream =
  fixes os :: "('w, 'd) posix"
    and remaining :: "'d \<Rightarrow> 'w \<Rightarrow> string list"
  assumes readdir_none: "remaining dir w = [] \<Longrightarrow> fst (sys_readdir os dir w) = None"
    and readdir_some: "remaining dir w = name # names \<Longrightarrow>
      fst (sys_readdir os dir w) = Some name \<and> remaining dir (snd (sys_readdir os dir w)) = names"
    and readdir_stat: "sys_stat os p (snd (sys_readdir os dir w)) = sys_stat os p w"
begin

definition cur_names :: "string option \<Rightarrow> 'd \<Rightarrow> 'w \<Rightarrow> string list" where
  "cur_names cur dir w = (case cur of None \<Rightarrow> [] | Some name \<Rightarrow> name # remaining dir w)"

lemma cur_names_readdir:
  "cur_names (fst (sys_readdir os dir w)) dir (snd (sys_readdir os dir w)) = remaining dir w"
  using readdir_none [of dir w] readdir_some [of dir w] by (cases "remaining dir w") (auto simp: cur_names_def)

lemma stat_file_readdir: "stat_file os p (snd (sys_readdir os dir w)) = stat_file os p w"
  by (simp add: stat_file_def readdir_stat)

lemma entries_from_stream:
  "\<exists>w'. entries_from os p dir cur w
     = Some (map (\<lambda>name. (name, stat_file os (get_full_path p name) w)) (cur_names cur dir w), w')"
proof (induction "cur_names cur dir w" arbitrary: cur w)
  case Nil
  then show ?case by (auto simp: cur_names_def split: option.splits)
next
  case (Cons name names)
  then have cur: "cur = Some name" "names = remaining dir w"
    by (auto simp: cur_names_def split: option.splits)
  let ?nxt = "fst (sys_readdir os dir w)" and ?w1 = "snd (sys_readdir os dir w)"
  have "names = cur_names ?nxt dir ?w1" by (simp add: cur cur_names_readdir)
  from Cons.hyps(1) [OF this] obtain w' where "entries_from os p dir ?nxt ?w1
      = Some (map (\<lambda>name. (name, stat_file os (get_full_path p name) w)) (remaining dir w), w')"
    by (auto simp only: cur_names_readdir stat_file_readdir)
  then show ?case by (simp add: cur(1) cur_names_def)
qed

lemma other_entry_stream:
  "\<exists>w'. other_entry os dir cur w = Some (\<exists>name \<in> set (cur_names cur dir w). name \<noteq> ''.'' \<and> name \<noteq> ''..'', w')"
proof (induction "cur_names cur dir w" arbitrary: cur w)
  case Nil
  then show ?case by (auto simp: cur_names_def split: option.splits)
next
  case (Cons name names)
  then have cur: "cur = Some name" "names = remaining dir w"
    by (auto simp: cur_names_def split: option.splits)
  let ?nxt = "fst (sys_readdir os dir w)" and ?w1 = "snd (sys_readdir os dir w)"
  have "names = cur_names ?nxt dir ?w1" by (simp add: cur cur_names_readdir)
  from Cons.hyps(1) [OF this] obtain w' where "other_entry os dir ?nxt ?w1
      = Some (\<exists>name \<in> set (remaining dir w). name \<noteq> ''.'' \<and> name \<noteq> ''..'', w')"
    by (auto simp only: cur_names_readdir)
  then show ?case by (simp add: cur(1) cur_names_def)
qed

lemma respond_list:
  assumes "sys_opendir os (c_str p) w = (Inr dir, w1)"
  shows "\<exists>w'. respond os (ReqList p) w
    = Some (RespListing (map (\<lambda>name. (name, stat_file os (get_full_path p name) w1)) (remaining dir w1)), w')"
  using entries_from_stream [of p dir "fst (sys_readdir os dir w1)" "snd (sys_readdir os dir w1)"] assms
  by (auto simp: fail_or_def cur_names_readdir stat_file_readdir split: prod.split)

lemma respond_check_remove:
  assumes "can_remove_directory_entry os p w = Success" and "sys_opendir os (c_str p) w = (Inr dir, w1)"
  shows "\<exists>w'. respond os (ReqCheckRemoveDirectory p) w
    = Some (RespStatus (if \<exists>name \<in> set (remaining dir w1). name \<noteq> ''.'' \<and> name \<noteq> ''..''
                        then DirectoryNotEmpty else Success), w')"
proof -
  obtain cur w2 where rd: "sys_readdir os dir w1 = (cur, w2)" by fastforce
  with cur_names_readdir [of dir w1] have "cur_names cur dir w2 = remaining dir w1" by simp
  with other_entry_stream [of dir cur w2] obtain w3
    where "other_entry os dir cur w2 = Some (\<exists>name \<in> set (remaining dir w1). name \<noteq> ''.'' \<and> name \<noteq> ''..'', w3)"
    by auto
  with assms rd show ?thesis by (simp add: fail_or_def)
qed

end

definition rf_remaining :: "nat \<Rightarrow> ramfs \<Rightarrow> string list" where
  "rf_remaining d w = (if d < length (rf_dirs w) then takeWhile (\<lambda>x. length x \<le> 255) (rf_dirs w ! d) else [])"

interpretation ram_dir: dir_stream ram_os rf_remaining
  by unfold_locales
     (auto simp: ram_os_def rf_readdir_def rf_remaining_def rf_content_def split: if_splits list.splits)

section \<open>Sessions\<close>

lemma ClientHandler_init_ok [simp]:
  "ep_ok V (ClientHandler_init t w) = usable V t" "in_of V (ClientHandler_init t w) = incoming V t"
  "out_of V (ClientHandler_init t w) = outgoing V t" "world (ClientHandler_init t w) = w"
  "socket (ClientHandler_init t w) = t" "buffer_bytes_filled (writer (ClientHandler_init t w)) = 0"
  by (simp_all add: ClientHandler_init_def ep_ok_def in_of_def out_of_def BUFFER_SIZE_def
      reader_inv_DataReader writer_inv_DataWriter) (simp add: DataWriter_def)

lemmas daemonI = daemon.intro

definition ex_world :: ramfs where
  "ex_world = \<lparr>rf_files = [(''/mnt/sdcard/a'', [1, 2, 3, 4, 5])], rf_fds = [], rf_dirs = []\<rparr>"

definition ex_open :: OpenHandleArgs where
  "ex_open = \<lparr>oh_path = ''/mnt/sdcard/a'', oh_mode = OpenOnly, oh_read_access = True, oh_write_access = True\<rparr>"

definition ex_requests :: "request list" where
  "ex_requests = [ReqOpen ex_open, ReqWrite 0 3 [9, 8, 7],
     ReqRead \<lparr>rh_handle = 0, rh_data_len = 100, rh_offset = 1\<rparr>, ReqClose 0, ReqList ''/mnt/sdcard'']"

definition ex_responses :: "response list" where
  "ex_responses = [RespHandle 0, RespStatus Success, RespData [2, 3, 9, 8, 7], RespStatus Success,
     RespListing [(''a'', Success, \<lparr>fs_mode = 33200, fs_size = 6, fs_access_time = 0, fs_write_time = 0\<rparr>)]]"

definition ex_sock :: "u8 list \<Rightarrow> sock" where
  "ex_sock bs = \<lparr>sk_in = bs, sk_out = [], sk_chunks = [1, 2, 3, 4, 1, 5, 6]\<rparr>"

lemma ex_sock_view [simp]:
  "incoming scripted_view (ex_sock bs) = bs" "outgoing scripted_view t = sk_out t" "usable scripted_view t"
  "sk_out (ex_sock bs) = []"
  by (simp_all add: scripted_view_def ex_sock_def)

text \<open>
  C2: the daemon's message loop implements its specification. On any socket and system that
  meet their contracts, when the client sends any sequence of valid requests (each write's
  seek succeeding) and closes the connection, the loop ends normally, has sent exactly the
  wire forms of the responses \<open>respond\<close> gives, in order, and leaves the device in the state
  \<open>respond\<close> gives; the specification answers every such sequence.
\<close>

theorem daemon_session:
  assumes "unix_socket net V" and "posix_os os dir_left"
    and "ep_ok V s" and "in_of V s = concat (map request_bytes reqs)" and "buffer_bytes_filled (writer s) = 0"
    and "list_all valid_request reqs" and "all_in_sync os reqs (world s)"
  shows "\<exists>resps w'. respond_all os reqs (world s) = Some (resps, w')
    \<and> wp (handle_messages net os) (\<lambda>r s'. r = Inr () \<and> world s' = w'
         \<and> outgoing V (socket s') = outgoing V (socket s) @ concat (map response_bytes resps)) s"
  using daemon.respond_all_total [OF daemonI [OF assms(1,2)], of reqs "world s"]
    daemon.session [OF daemonI [OF assms(1,2)] assms(3-7)]
  by blast

theorem daemon_session_witness:
  "wp (handle_messages scripted_api ram_os) (\<lambda>r s'. r = Inr ()
       \<and> sk_out (socket s') = concat (map response_bytes ex_responses))
     (ClientHandler_init (ex_sock (concat (map request_bytes ex_requests))) ex_world)"
proof -
  let ?s = "ClientHandler_init (ex_sock (concat (map request_bytes ex_requests))) ex_world"
  have "map_option fst (respond_all ram_os ex_requests ex_world) = Some ex_responses" by code_simp
  moreover have "all_in_sync ram_os ex_requests ex_world" by code_simp
  moreover have "list_all valid_request ex_requests"
    by (simp add: ex_requests_def ex_open_def named_mode_def)
  ultimately show ?thesis
    using daemon_session [OF scripted_unix.unix_socket_axioms ram_posix_os, of ?s ex_requests]
    by (auto simp: wp_iff)
qed

text \<open>
  C9: one turn of the message loop: the loop continues from a state in which exactly the
  request has been consumed, the device is as \<open>respond\<close> says, and the whole response has
  been handed to the socket (nothing is left in the write buffer), so a client that waits
  for the answer before its next request always gets it.
\<close>

theorem daemon_turn:
  assumes "unix_socket net V" and "posix_os os dir_left"
    and "ep_ok V s" and "in_of V s = request_bytes req @ rest"
    and "valid_request req" and "in_sync os req (world s)"
  shows "\<exists>resp w' s'. respond os req (world s) = Some (resp, w')
    \<and> handle_messages net os s = handle_messages net os s' \<and> ep_ok V s' \<and> in_of V s' = rest
    \<and> world s' = w' \<and> outgoing V (socket s') = out_of V s @ response_bytes resp"
proof -
  note d = daemonI [OF assms(1,2)]
  from daemon.respond_total [OF d] obtain resp w' where resp: "respond os req (world s) = Some (resp, w')" by blast
  from daemon.serve_one [OF d assms(3-6) resp] obtain s' where
    "handle_messages net os s = handle_messages net os s'" "ep_ok V s'" "in_of V s' = rest"
    "out_of V s' = out_of V s @ response_bytes resp" "world s' = w'" "buffer_bytes_filled (writer s') = 0"
    by metis
  with resp show ?thesis by (auto simp: out_of_def buffered_def)
qed

theorem daemon_turn_witness:
  "\<exists>s'. handle_messages scripted_api ram_os (ClientHandler_init (ex_sock (request_bytes (ReqStat ''/mnt/sdcard/b''))) ex_world)
       = handle_messages scripted_api ram_os s'
     \<and> sk_out (socket s') = response_bytes (RespStatus FileNotFound)"
proof -
  have "respond ram_os (ReqStat ''/mnt/sdcard/b'') ex_world = Some (RespStatus FileNotFound, ex_world)"
    by code_simp
  then show ?thesis
    using daemon_turn [OF scripted_unix.unix_socket_axioms ram_posix_os,
      of "ClientHandler_init (ex_sock (request_bytes (ReqStat ''/mnt/sdcard/b''))) ex_world" "ReqStat ''/mnt/sdcard/b''" "[]"]
    by (auto simp del: respond.simps)
qed

section \<open>Files\<close>

text \<open>
  Bytes written through a handle are the bytes read back. On a handle open on a regular
  file, a write request of \<open>bs\<close> at an offset followed by a read request of the same region
  is answered with success and then with exactly \<open>bs\<close>, whatever short reads and writes the
  system makes, and the file then holds \<open>bs\<close> over its old content.
\<close>

lemma daemon_file_roundtrip:
  assumes "unix_socket net V" and "posix_os os dir_left" and "regular_file os (sint h) view"
    and "view (world s) = Some (c, pos)" and "0 \<le> sint off" and "bs \<noteq> []" and "length bs < 2 ^ 31"
    and "ep_ok V s" and "buffer_bytes_filled (writer s) = 0"
    and "in_of V s = request_bytes (ReqWrite h off bs)
           @ request_bytes (ReqRead \<lparr>rh_handle = h, rh_data_len = word_of_nat (length bs), rh_offset = off\<rparr>)"
  shows "wp (handle_messages net os) (\<lambda>r s'. r = Inr ()
       \<and> outgoing V (socket s') = outgoing V (socket s) @ response_bytes (RespStatus Success) @ response_bytes (RespData bs)
       \<and> (\<exists>pos'. view (world s') = Some (overlay c (nat (sint off)) bs, pos'))) s"
proof -
  let ?rd = "ReqRead \<lparr>rh_handle = h, rh_data_len = word_of_nat (length bs), rh_offset = off\<rparr>"
  from regular_file.respond_write [OF assms(3,4) refl assms(5,6)] obtain w1 where
    w1: "respond os (ReqWrite h off bs) (world s) = Some (RespStatus Success, w1)"
    "view w1 = Some (overlay c (nat (sint off)) bs, nat (sint off) + length bs)" by blast
  from regular_file.respond_read [OF assms(3) w1(2), of "\<lparr>rh_handle = h, rh_data_len = word_of_nat (length bs), rh_offset = off\<rparr>"]
    assms(5,7) obtain w2 pos' where w2: "respond os ?rd w1 = Some (RespData bs, w2)"
    "view w2 = Some (overlay c (nat (sint off)) bs, pos')"
    by (auto simp: small_word overlay_read)
  from regular_file.seek_file [OF assms(3,4,5)] have "in_sync os (ReqWrite h off bs) (world s)" by auto
  then have sync: "all_in_sync os [ReqWrite h off bs, ?rd] (world s)" by (auto split: option.splits)
  have valid: "list_all valid_request [ReqWrite h off bs, ?rd]"
    using assms(7) by (simp add: small_word)
  have "respond_all os [ReqWrite h off bs, ?rd] (world s) = Some ([RespStatus Success, RespData bs], w2)"
    using w1 w2 by simp
  from daemon.session [OF daemonI [OF assms(1,2)] assms(8) _ assms(9) valid sync this] assms(10) w2(2)
  show ?thesis by (simp del: response_bytes.simps) (erule wp_mono, auto)
qed

text \<open>
  C32: a read request on a handle open on a regular file returns the whole region asked for,
  cut only by the end of the file, as memory-mapped files on the computer need, whatever
  short reads the system makes.
\<close>

theorem daemon_reads_full_length:
  assumes "unix_socket net V" and "posix_os os dir_left" and "regular_file os (sint (rh_handle a)) view"
    and "view (world s) = Some (c, pos)" and "0 \<le> sint (rh_offset a)" and "uint (rh_data_len a) < 2 ^ 31"
    and "ep_ok V s" and "in_of V s = ReadHandleArgs_bytes a @ rest"
  shows "wp (handle_read_file net os) (\<lambda>r s'. r = Inr () \<and> ep_ok V s' \<and> in_of V s' = rest
       \<and> out_of V s' = out_of V s @ response_bytes (RespData
            (take (unat (rh_data_len a)) (drop (nat (sint (rh_offset a))) c)))) s"
proof -
  from regular_file.respond_read [OF assms(3,4) refl assms(5)] obtain w' where
    resp: "respond os (ReqRead a) (world s) = Some (RespData
       (take (unat (rh_data_len a)) (drop (nat (sint (rh_offset a))) c)), w')" by blast
  note d = daemonI [OF assms(1,2)]
  show ?thesis
    by (rule wp_mono [OF daemon.handler_answers [OF d daemon.implements_read [OF d] resp]])
       (use assms in \<open>auto simp del: response_bytes.simps\<close>)
qed

theorem daemon_reads_full_length_witness:
  "wp (handle_read_file scripted_api ram_os) (\<lambda>r s'. r = Inr ()
       \<and> out_of scripted_view s' = response_bytes (RespData [2, 3, 4, 5]))
     (ClientHandler_init (ex_sock (ReadHandleArgs_bytes \<lparr>rh_handle = 0, rh_data_len = 50, rh_offset = 1\<rparr>))
       (ex_world\<lparr>rf_fds := [(''/mnt/sdcard/a'', 0)]\<rparr>))"
proof -
  let ?w = "ex_world\<lparr>rf_fds := [(''/mnt/sdcard/a'', 0)]\<rparr>" and ?a = "\<lparr>rh_handle = 0, rh_data_len = 50, rh_offset = 1\<rparr>"
  let ?s = "ClientHandler_init (ex_sock (ReadHandleArgs_bytes ?a)) ?w"
  have v: "rf_view (sint (rh_handle ?a)) (world ?s) = Some ([1, 2, 3, 4, 5], 0)"
    unfolding ClientHandler_init_ok by code_simp
  have "wp (handle_read_file scripted_api ram_os) (\<lambda>r s'. r = Inr () \<and> ep_ok scripted_view s' \<and> in_of scripted_view s' = []
       \<and> out_of scripted_view s' = out_of scripted_view ?s @ response_bytes (RespData
            (take (unat (rh_data_len ?a)) (drop (nat (sint (rh_offset ?a))) [1, 2, 3, 4, 5])))) ?s"
    by (rule daemon_reads_full_length [OF scripted_unix.unix_socket_axioms ram_posix_os ram_file.regular_file_axioms v])
       simp_all
  then show ?thesis by (rule wp_mono) simp
qed

section \<open>Directories and moves\<close>

text \<open>
  A listing answers with one entry per name of the directory, in the order of the
  directory stream, each with the status and stat of the path built from the directory and
  the name, and ends with the end marker, whatever the number of entries.
\<close>

lemma daemon_lists_directory:
  assumes "unix_socket net V" and "posix_os os dir_left" and "dir_stream os remaining"
    and "sys_opendir os (c_str p) (world s) = (Inr dir, w1)" and "length p \<le> 65535"
    and "ep_ok V s" and "in_of V s = utf8_bytes p @ rest"
  shows "wp (handle_list_dir_stats net os) (\<lambda>r s'. r = Inr () \<and> ep_ok V s' \<and> in_of V s' = rest
       \<and> out_of V s' = out_of V s @ response_bytes (RespListing
            (map (\<lambda>name. (name, stat_file os (get_full_path p name) w1)) (remaining dir w1)))) s"
proof -
  from dir_stream.respond_list [OF assms(3,4)] obtain w' where
    resp: "respond os (ReqList p) (world s) = Some (RespListing
       (map (\<lambda>name. (name, stat_file os (get_full_path p name) w1)) (remaining dir w1)), w')" by blast
  note d = daemonI [OF assms(1,2)]
  show ?thesis
    by (rule wp_mono [OF daemon.handler_answers [OF d daemon.implements_list [OF d] resp]])
       (use assms in \<open>auto simp del: response_bytes.simps\<close>)
qed

text \<open>
  C34: the check before a directory is deleted says yes only for a directory with no entry
  but \<open>.\<close> and \<open>..\<close>: with a writable parent and a directory that opens, the answer is
  \<open>DirectoryNotEmpty\<close> exactly when some other name is in it, and \<open>Success\<close> otherwise.
\<close>

theorem daemon_checks_directory_empty:
  assumes "unix_socket net V" and "posix_os os dir_left" and "dir_stream os remaining"
    and "can_remove_directory_entry os p (world s) = Success"
    and "sys_opendir os (c_str p) (world s) = (Inr dir, w1)" and "length p \<le> 65535"
    and "ep_ok V s" and "in_of V s = utf8_bytes p @ rest"
  shows "wp (handle_check_remove_directory net os) (\<lambda>r s'. r = Inr () \<and> ep_ok V s' \<and> in_of V s' = rest
       \<and> out_of V s' = out_of V s @ [u8_of_ResponseStatus
            (if set (remaining dir w1) \<subseteq> {''.'', ''..''} then Success else DirectoryNotEmpty)]) s"
proof -
  from dir_stream.respond_check_remove [OF assms(3-5)] obtain w' where
    "respond os (ReqCheckRemoveDirectory p) (world s) = Some (RespStatus
       (if \<exists>name \<in> set (remaining dir w1). name \<noteq> ''.'' \<and> name \<noteq> ''..'' then DirectoryNotEmpty else Success), w')"
    by blast
  moreover have "(\<exists>name \<in> set (remaining dir w1). name \<noteq> ''.'' \<and> name \<noteq> ''..'')
      \<longleftrightarrow> \<not> set (remaining dir w1) \<subseteq> {''.'', ''..''}" by auto
  ultimately have resp: "respond os (ReqCheckRemoveDirectory p) (world s) = Some (RespStatus
       (if set (remaining dir w1) \<subseteq> {''.'', ''..''} then Success else DirectoryNotEmpty), w')"
    by (simp del: respond.simps)
  note d = daemonI [OF assms(1,2)]
  show ?thesis
    by (rule wp_mono [OF daemon.handler_answers [OF d daemon.implements_check_remove_directory [OF d] resp]])
       (use assms in auto)
qed

theorem daemon_checks_directory_empty_witness:
  "wp (handle_check_remove_directory scripted_api ram_os) (\<lambda>r s'. r = Inr ()
       \<and> out_of scripted_view s' = [u8_of_ResponseStatus DirectoryNotEmpty])
     (ClientHandler_init (ex_sock (utf8_bytes ''/mnt/sdcard'')) ex_world)"
proof -
  let ?s = "ClientHandler_init (ex_sock (utf8_bytes ''/mnt/sdcard'')) ex_world"
  let ?w1 = "ex_world\<lparr>rf_dirs := [[''a'']]\<rparr>"
  have can: "can_remove_directory_entry ram_os ''/mnt/sdcard'' (world ?s) = Success"
    unfolding ClientHandler_init_ok by code_simp
  have od: "sys_opendir ram_os (c_str ''/mnt/sdcard'') (world ?s) = (Inr 0, ?w1)"
    unfolding ClientHandler_init_ok by code_simp
  have names: "set (rf_remaining 0 ?w1) = {''a''}" by code_simp
  have "wp (handle_check_remove_directory scripted_api ram_os) (\<lambda>r s'. r = Inr () \<and> ep_ok scripted_view s'
       \<and> in_of scripted_view s' = [] \<and> out_of scripted_view s' = out_of scripted_view ?s @ [u8_of_ResponseStatus
            (if set (rf_remaining 0 ?w1) \<subseteq> {''.'', ''..''} then Success else DirectoryNotEmpty)]) ?s"
    by (rule daemon_checks_directory_empty
        [OF scripted_unix.unix_socket_axioms ram_posix_os ram_dir.dir_stream_axioms can od]) simp_all
  then show ?thesis unfolding names by (rule wp_mono) simp
qed

text \<open>
  C31: a move never replaces an existing entry unless it is asked to: when the destination
  exists and the request does not allow overwriting, the answer is \<open>FileExists\<close> and the
  device is unchanged.
\<close>

theorem daemon_move_keeps_existing:
  assumes "unix_socket net V" and "posix_os os dir_left"
    and "sys_stat os (c_str (to_path a)) (world s) = Inr existing" and "\<not> overwrite a"
    and "length (from_path a) \<le> 65535" and "length (to_path a) \<le> 65535"
    and "ep_ok V s" and "in_of V s = MoveEntryArgs_bytes a @ rest"
  shows "wp (handle_move_entry net os) (\<lambda>r s'. r = Inr () \<and> ep_ok V s' \<and> in_of V s' = rest
       \<and> out_of V s' = out_of V s @ [u8_of_ResponseStatus FileExists] \<and> world s' = world s) s"
proof -
  note d = daemonI [OF assms(1,2)]
  have resp: "respond os (ReqMove a) (world s) = Some (RespStatus FileExists, world s)"
    using assms(3,4) by (simp add: Let_def)
  show ?thesis
    by (rule wp_mono [OF daemon.handler_answers [OF d daemon.implements_move [OF d] resp]])
       (use assms in auto)
qed

theorem daemon_move_keeps_existing_witness:
  "wp (handle_move_entry scripted_api ram_os) (\<lambda>r s'. r = Inr ()
       \<and> out_of scripted_view s' = [u8_of_ResponseStatus FileExists] \<and> world s' = ex_world)
     (ClientHandler_init (ex_sock (MoveEntryArgs_bytes
        \<lparr>from_path = ''/mnt/sdcard/b'', to_path = ''/mnt/sdcard/a'', overwrite = False\<rparr>)) ex_world)"
proof -
  let ?a = "\<lparr>from_path = ''/mnt/sdcard/b'', to_path = ''/mnt/sdcard/a'', overwrite = False\<rparr>"
  let ?s = "ClientHandler_init (ex_sock (MoveEntryArgs_bytes ?a)) ex_world"
  have st: "sys_stat ram_os (c_str (to_path ?a)) (world ?s)
      = Inr \<lparr>st_mode = DEFAULT_FILE_MODE, st_size = 5, st_atime = 0, st_mtime = 0\<rparr>"
    unfolding ClientHandler_init_ok by code_simp
  show ?thesis
    by (rule wp_mono [OF daemon_move_keeps_existing [OF scripted_unix.unix_socket_axioms ram_posix_os st]]) auto
qed

section \<open>Connection start, protocol errors and codes\<close>

text \<open>
  The daemon's side of the handshake: the constructor consumes the four bytes the client
  sends and has sent back exactly the same four bytes when it returns, leaving the object
  ready for the message loop.
\<close>

lemma daemon_handshake_echoes:
  assumes "unix_socket net V" and "usable V t" and "incoming V t = be_bytes 4 (x :: u32) @ rest"
  shows "wp (ClientHandler_handshake net) (\<lambda>r s'. r = Inr () \<and> ep_ok V s' \<and> in_of V s' = rest
       \<and> outgoing V (socket s') = outgoing V t @ be_bytes 4 x \<and> buffer_bytes_filled (writer s') = 0 \<and> world s' = w)
     (ClientHandler_init t w)"
  using unix_socket.handshake_echoes [OF assms(1), of "ClientHandler_init t w" x rest] assms(2,3)
  by (auto simp: out_of_def buffered_def elim!: wp_mono dest!: io_step_handler)

text \<open>
  An unknown request code ends the session with an exception: nothing is answered and
  the device is not touched.
\<close>

lemma daemon_unknown_request:
  assumes "unix_socket net V" and "RequestType_of_u8 b = OtherRequest b" and "ep_ok V s" and "in_of V s = b # rest"
  shows "wp (handle_messages net os) (\<lambda>r s'. r = Inl (RuntimeError ''Unknown request type received!'')
       \<and> out_of V s' = out_of V s \<and> in_of V s' = rest \<and> world s' = world s) s"
  by (rule wp_mono [OF unix_socket.unknown_request [OF assms]]) (auto dest!: io_step_handler)

text \<open>
  C36: the one case in which the two sides lose step, and the reason the session theorem
  asks for seeks of writes to succeed: a write request whose seek fails is answered with the
  error, but its data is not read, so the loop takes the first data byte as the next
  request code.
\<close>

theorem daemon_write_seek_failure_desync:
  assumes "unix_socket net V" and "ep_ok V s" and "in_of V s = request_bytes (ReqWrite h off bs) @ rest"
    and "sys_lseek os (sint h) (sint off) (world s) = (Inl e, w')"
  shows "\<exists>s'. handle_messages net os s = handle_messages net os s' \<and> ep_ok V s' \<and> in_of V s' = bs @ rest
    \<and> out_of V s' = out_of V s @ [u8_of_ResponseStatus (get_status_from_errno e)]"
  using unix_socket.write_seek_failure [OF assms] by metis

theorem daemon_write_seek_failure_desync_witness:
  "wp (handle_messages scripted_api ram_os) (\<lambda>r s'. r = Inl (RuntimeError ''Unknown request type received!''))
     (ClientHandler_init (ex_sock (request_bytes (ReqWrite 3 0 [77, 1, 2]))) ex_world)"
proof -
  let ?s = "ClientHandler_init (ex_sock (request_bytes (ReqWrite 3 0 [77, 1, 2]))) ex_world"
  have sk: "sys_lseek ram_os (sint (3::u32)) (sint (0::u64)) (world ?s) = (Inl EBADF, ex_world)"
    unfolding ClientHandler_init_ok by code_simp
  obtain s' where "handle_messages scripted_api ram_os ?s = handle_messages scripted_api ram_os s'"
    and s': "ep_ok scripted_view s'" "in_of scripted_view s' = 77 # [1, 2]"
    using daemon_write_seek_failure_desync [OF scripted_unix.unix_socket_axioms _ _ sk, of "[77, 1, 2]" "[]"] by auto
  with scripted_unix.unknown_request [OF _ s', of ram_os] show ?thesis
    by (auto simp: wp_iff RequestType_of_u8_def)
qed

text \<open>
  An error is never reported as a success or as the end of a listing, and a success
  never as an error: the status of a failed call is one of the named failure codes.
\<close>

lemma status_of_errors:
  "(status_of r = Success \<longleftrightarrow> \<not> isl r) \<and> status_of r \<noteq> NoMoreEntries \<and> named_status (status_of r)"
proof (cases r)
  case (Inl e)
  then show ?thesis by (cases e) (simp_all add: status_of_def named_status_def)
qed (simp add: status_of_def named_status_def)

text \<open>
  C38: a write request of 2 GiB or more loses its data. Its length is a negative \<open>int\<close> for
  \<open>read_exact\<close>, so that \<open>handle_write_file\<close>, after a successful seek, goes straight to writing: it writes
  to the file what its buffer held before, with zeros behind it, and when it ends, in whatever
  way, every byte of the data is still on the stream, where the message loop takes it for requests.
\<close>

theorem daemon_oversized_write_desync:
  fixes s :: "('s, 'w) ClientHandler"
  assumes "unix_socket net V" and "ep_ok V s" and "in_of V s = WriteHandleInitArgs_bytes a @ bs @ rest"
    and "2 ^ 31 \<le> uint (wh_data_len a)"
    and "sys_lseek os (sint (wh_handle a)) (sint (wh_offset a)) (world s) = (Inr pos, w1)"
  shows "(\<exists>u. handle_write_file net os s = bindM (write_loop os a 0) (\<lambda>res. write_status net (status_of res)) u
      \<and> in_of V u = bs @ rest \<and> out_of V u = out_of V s \<and> world u = w1
      \<and> rw_buffer u = rw_buffer s @ replicate (unat (wh_data_len a) - length (rw_buffer s)) 0)
    \<and> (\<forall>r s'. handle_write_file net os s = Some (r, s') \<longrightarrow> in_of V s' = bs @ rest)"
proof -
  from unix_socket.oversized_write [OF assms] obtain u where
    run: "handle_write_file net os s = bindM (write_loop os a 0) (\<lambda>res. write_status net (status_of res)) u" and "ep_ok V u"
    and u: "in_of V u = bs @ rest" "out_of V u = out_of V s" "world u = w1"
      "rw_buffer u = rw_buffer s @ replicate (unat (wh_data_len a) - length (rw_buffer s)) 0" .
  from unix_socket.oversized_write_keeps [OF assms(1) _ \<open>ep_ok V u\<close>, of os a] run u show ?thesis
    by (intro conjI exI [of _ u]) auto
qed

theorem daemon_oversized_write_desync_witness:
  "\<exists>u. handle_write_file scripted_api ram_os (ClientHandler_init (ex_sock (WriteHandleInitArgs_bytes
       \<lparr>wh_handle = 0, wh_offset = 0, wh_data_len = 0x80000000\<rparr> @ [7, 8, 9])) (ex_world\<lparr>rf_fds := [(''/mnt/sdcard/a'', 0)]\<rparr>))
     = bindM (write_loop ram_os \<lparr>wh_handle = 0, wh_offset = 0, wh_data_len = 0x80000000\<rparr> 0) (\<lambda>res. write_status scripted_api (status_of res)) u
     \<and> in_of scripted_view u = [7, 8, 9]"
proof -
  let ?a = "\<lparr>wh_handle = 0, wh_offset = 0, wh_data_len = 0x80000000\<rparr>" and ?w = "ex_world\<lparr>rf_fds := [(''/mnt/sdcard/a'', 0)]\<rparr>"
  let ?s = "ClientHandler_init (ex_sock (WriteHandleInitArgs_bytes ?a @ [7, 8, 9])) ?w"
  have "sys_lseek ram_os (sint (wh_handle ?a)) (sint (wh_offset ?a)) (world ?s) = (Inr 0, ?w)"
    unfolding ClientHandler_init_ok by code_simp
  from daemon_oversized_write_desync [OF scripted_unix.unix_socket_axioms _ _ _ this, of "[7, 8, 9]" "[]", THEN conjunct1] show ?thesis
    by (auto simp del: write_loop.simps)
qed

end
