(* ===== verification/Client.thy ===== *)
theory Client
  imports Client_Refinement Daemon
begin

text \<open>
  The guarantees of the computer's side, stated over the request functions of
  \<open>Connection.cpp\<close> on any connected socket: the handshake, what the two caches may answer
  and when a request must go to the daemon, and the composition of a request function with
  the daemon's handler for its request.
\<close>

section \<open>Facts about single cache operations\<close>

lemma get_after_put:
  assumes "cache_inv c" and "now2 - now \<le> cache_window c" and "t - now \<le> cache_window c"
  shows "fst (get_cached t k (cache now now2 k v c)) = Some v"
proof -
  have "cache_entry (cache now now2 k v c) k = Some (v, now)"
    using timed.put_entry [OF assms(1), of now now2 k v k] assms(2) by auto
  with timed.get_value [of "cache now now2 k v c" t k] timed.put_keeps [OF assms(1), of now now2 k v] assms(3)
  show ?thesis by simp
qed

lemma get_after_invalidate: "cache_inv c \<Longrightarrow> fst (get_cached t k (invalidate k c)) = None"
  using timed.get_value [of "invalidate k c" t k] timed.drop_entry [of c k] timed.drop_keeps [of c k] by simp

text \<open>Both caches of a connection hold one entry per key and have the validity period of 200 ms.\<close>

definition conn_inv :: "'s Connection \<Rightarrow> bool" where
  "conn_inv s \<longleftrightarrow> cache_inv (stat_cache s) \<and> cache_inv (dir_list_cache s)
     \<and> cache_window (stat_cache s) = ms STAT_CACHE_PERIOD \<and> cache_window (dir_list_cache s) = ms STAT_CACHE_PERIOD"

lemma conn_inv_states:
  assumes "conn_inv s"
  shows "conn_inv (looked_up env p s)" "conn_inv (stat_stored env p st s)" "conn_inv (dir_looked_up env p s)"
    "conn_inv (dir_stored env p names s)" "conn_inv (drop_path p s)" "conn_inv (parent_dropped p s)"
  using assms
  by (auto simp: conn_inv_def timed.get_keeps timed.put_keeps timed.drop_keeps looked_up_def stat_stored_def dir_looked_up_def dir_stored_def drop_path_def
      parent_dropped_def drop_parent_def split: option.splits)

lemma conn_inv_init [simp]: "conn_inv (Connection_init env t)"
  by (simp add: conn_inv_def Connection_init_def cache_inv_def cache_window_def TimedCache_new_def)

lemma conn_inv_step: "io_step V i out s s' \<Longrightarrow> conn_inv s' = conn_inv s"
  by (auto simp: conn_inv_def dest!: io_step_conn)

lemma init_caches_empty [simp]:
  "fst (get_cached t p (stat_cache (Connection_init env sk))) = None"
  "fst (get_cached t p (dir_list_cache (Connection_init env sk))) = None"
  by (simp_all add: Connection_init_def TimedCache_new_def get_cached_def Let_def)

section \<open>Connection start\<close>

context client
begin

lemma handshake_spec:
  fixes s :: "'s Connection" and x :: u32
  assumes "ep_ok V s" and "in_of V s = be_bytes 4 x @ rest"
  shows "wp (handshake env) (\<lambda>r s'. r = (if x = HANDSHAKE_DATA then Inr ()
        else Inl (RuntimeError ''Failed handshake! Did not receive same bytes that were sent''))
     \<and> io_step V rest (out_of V s @ be_bytes 4 HANDSHAKE_DATA) s s') s"
proof -
  let ?io = "thenM (write_u32 (conn_write env) HANDSHAKE_DATA) (thenM (flush (conn_write env)) (read_u32 (conn_read env)))"
  have "transacts V ([] @ [] @ be_bytes 4 x) (be_bytes 4 HANDSHAKE_DATA @ [] @ []) (?io :: ('s Connection, u32) M) x"
    by (rule transacts_thenM conn.transacts_write_u32 conn.transacts_flush conn.transacts_read_u32)+
  then have "wp ?io (\<lambda>r s'. r = Inr x \<and> io_step V rest (out_of V s @ be_bytes 4 HANDSHAKE_DATA) s s') s"
    by (rule wp_transacts [OF _ assms(1)]) (simp_all add: assms(2))
  moreover have "handshake env = bindM ?io (\<lambda>received. if received = HANDSHAKE_DATA then returnM ()
       else throwM (RuntimeError ''Failed handshake! Did not receive same bytes that were sent''))"
    by (simp add: handshake_def thenM_def bindM_assoc)
  ultimately show ?thesis
    by (auto simp: wp_iff bindM_def [of "thenM _ _"] returnM_def throwM_def)
qed

end

text \<open>
  The handshake of the two sides: the client sends the four magic bytes, and it succeeds
  exactly when the same four bytes come back, as the daemon's constructor sends them.
\<close>

lemma client_handshake:
  fixes x :: u32
  assumes "win_socket (winsock env) V" and "usable V t" and "incoming V t = be_bytes 4 x @ rest"
  shows "wp (handshake env) (\<lambda>r s'. (r = Inr () \<longleftrightarrow> x = HANDSHAKE_DATA)
       \<and> out_of V s' = outgoing V t @ be_bytes 4 HANDSHAKE_DATA \<and> in_of V s' = rest) (Connection_init env t)"
  using client.handshake_spec [OF client.intro [OF assms(1)], of "Connection_init env t" x rest] assms(2,3)
  by (auto elim!: wp_mono dest!: io_step_conn split: if_splits)

definition ascii :: "string \<Rightarrow> wstring" where
  "ascii = map (\<lambda>c. of_char c)"

text \<open>An environment for examples: a clock that ticks once a millisecond, paths in ASCII.\<close>

definition ex_env :: "sock conn_env" where
  "ex_env = \<lparr>winsock = scripted_api, steady_clock = (\<lambda>n. ms (int n)),
     to_utf8 = map (\<lambda>u. char_of (unat u)), from_utf8 = (\<lambda>s. Some (ascii s))\<rparr>"

lemma ex_win: "win_socket (winsock ex_env) scripted_view"
  using scripted_win.win_socket_axioms by (simp add: ex_env_def)

section \<open>What the caches may answer\<close>

text \<open>Running two request functions one after the other.\<close>

definition both :: "('o, 'a) M \<Rightarrow> ('o, 'b) M \<Rightarrow> ('o, 'a \<times> 'b) M" where
  "both m n = bindM m (\<lambda>a. bindM n (\<lambda>b. returnM (a, b)))"

lemma wp_both:
  assumes "wp m (\<lambda>r s'. \<exists>a. r = Inr a \<and> wp n (\<lambda>r' s''. \<exists>b. r' = Inr b \<and> Q a b s'') s') s"
  shows "wp (both m n) (\<lambda>r s''. \<exists>a b. r = Inr (a, b) \<and> Q a b s'') s"
  unfolding both_def wp_bindM
  by (rule wp_mono [OF assms]) (auto elim!: wp_mono)

text \<open>
  A stat that the daemon answered is used again without asking: two stat requests for
  the same path, with at most 200 ms between the store of the first answer and the second
  lookup, return the same stat, and exactly one request is sent.
\<close>

lemma client_stat_cached:
  fixes s :: "'s Connection"
  assumes "win_socket (winsock env) V" and "mono (steady_clock env)" and "conn_inv s" and "ep_ok V s"
    and "p = win32_path_to_unix (to_utf8 env) path" and "length p \<le> 65535" and "\<not> ends_with p ''desktop.ini''"
    and "fst (get_cached (steady_clock env (clock_reads s)) p (stat_cache s)) = None"
    and "in_of V s = response_bytes (RespStat st) @ rest"
    and "steady_clock env (clock_reads s + 4) - steady_clock env (clock_reads s + 2) \<le> ms STAT_CACHE_PERIOD"
  shows "wp (both (req_stat_file env path) (req_stat_file env path)) (\<lambda>r s'.
       r = Inr ((Success, Some st), (Success, Some st))
       \<and> out_of V s' = out_of V s @ request_bytes (ReqStat p) \<and> in_of V s' = rest) s"
proof -
  note c = client.intro [OF assms(1)]
  let ?s2 = "looked_up env p (looked_up env p s)"
  let ?r = "clock_reads s"
  have inv: "conn_inv ?s2" using assms(3) by (simp add: conn_inv_states)
  have "steady_clock env (?r + 3) \<le> steady_clock env (?r + 4)" using assms(2) by (simp add: monoD)
  then have fresh: "fst (get_cached (steady_clock env (?r + 4)) p (stat_cache (stat_stored env p st ?s2))) = Some st"
    using get_after_put [of "stat_cache ?s2" "steady_clock env (?r + 3)" "steady_clock env (?r + 2)" "steady_clock env (?r + 4)" p st]
      inv assms(10) by (simp add: conn_inv_def stat_stored_def numeral_eq_Suc)
  have reads: "clock_reads (stat_stored env p st ?s2) = ?r + 4" by (simp add: stat_stored_def)
  have "wp (req_stat_file env path) (\<lambda>r s'. r = Inr (Success, Some st) \<and>
      io_step V rest (out_of V s @ request_bytes (ReqStat p)) (stat_stored env p st ?s2) s') s"
    using client.req_stat_file_spec(1) [OF c assms(5-7,2,8,4,9)] .
  then have "wp (req_stat_file env path) (\<lambda>r s'. \<exists>a. r = Inr a \<and> wp (req_stat_file env path)
      (\<lambda>r' s''. \<exists>b. r' = Inr b \<and> (a = (Success, Some st) \<and> b = (Success, Some st)
         \<and> out_of V s'' = out_of V s @ request_bytes (ReqStat p) \<and> in_of V s'' = rest)) s') s"
  proof (rule wp_mono, elim conjE)
    fix r and s' :: "'s Connection"
    assume r: "r = Inr (Success, Some st)"
      and "io_step V rest (out_of V s @ request_bytes (ReqStat p)) (stat_stored env p st ?s2) s'"
    note s' = io_step_conn [OF this(2)]
    with fresh reads have "fst (get_cached (steady_clock env (clock_reads s')) p (stat_cache s')) = Some st" by simp
    from client.req_stat_file_hit [OF c assms(5) this]
    have "wp (req_stat_file env path) (\<lambda>r' s''. \<exists>b. r' = Inr b \<and> (b = (Success, Some st)
         \<and> out_of V s'' = out_of V s @ request_bytes (ReqStat p) \<and> in_of V s'' = rest)) s'"
      by (rule wp_mono) (use s' in auto)
    with r show "\<exists>a. r = Inr a \<and> wp (req_stat_file env path)
      (\<lambda>r' s''. \<exists>b. r' = Inr b \<and> (a = (Success, Some st) \<and> b = (Success, Some st)
         \<and> out_of V s'' = out_of V s @ request_bytes (ReqStat p) \<and> in_of V s'' = rest)) s'"
      by simp
  qed
  from wp_both [OF this] show ?thesis by (rule wp_mono) auto
qed

lemma ex_path [simp]: "win32_path_to_unix (to_utf8 ex_env) (ascii ''/mnt/a'') = ''/mnt/a''"
  by code_simp

lemma ex_clock_mono [simp]: "mono (steady_clock ex_env)"
  by (auto simp: ex_env_def ms_def mono_def)

definition ex_stat :: FileStat where
  "ex_stat = \<lparr>fs_mode = 33200, fs_size = 5, fs_access_time = 7, fs_write_time = 9\<rparr>"

text \<open>
  C30: a write does not touch the cached stat: as long as the stat of a path is cached, a stat
  request right after a write to the file, whatever its handle, returns the size and times from
  before the write, and the daemon is not asked.
\<close>

theorem client_stat_stale_after_write:
  fixes s :: "'s Connection"
  assumes "win_socket (winsock env) V" and "ep_ok V s" and "p = win32_path_to_unix (to_utf8 env) path"
    and "fst (get_cached (steady_clock env (clock_reads s)) p (stat_cache s)) = Some st"
    and "named_status status" and "length bs < 2 ^ 31" and "in_of V s = response_bytes (RespStatus status) @ rest"
  shows "wp (both (req_write_to_file env h off bs (word_of_nat (length bs))) (req_stat_file env path)) (\<lambda>r s'.
       r = Inr (status, (Success, Some st)) \<and> out_of V s' = out_of V s @ request_bytes (ReqWrite h off bs) \<and> in_of V s' = rest) s"
proof -
  note c = client.intro [OF assms(1)]
  let ?out = "out_of V s @ request_bytes (ReqWrite h off bs)"
  have "wp (req_write_to_file env h off bs (word_of_nat (length bs))) (\<lambda>r s'. r = Inr status \<and> io_step V rest ?out s s') s"
    by (rule wp_transacts [OF client.req_write_to_file_spec [OF c assms(5,6)] assms(2)]) (simp_all add: assms(7))
  then have "wp (req_write_to_file env h off bs (word_of_nat (length bs))) (\<lambda>r s'. \<exists>a. r = Inr a \<and> wp (req_stat_file env path)
      (\<lambda>r' s''. \<exists>b. r' = Inr b \<and> (a = status \<and> b = (Success, Some st) \<and> out_of V s'' = ?out \<and> in_of V s'' = rest)) s') s"
  proof (rule wp_mono, elim conjE)
    fix r and s' :: "'s Connection"
    assume r: "r = Inr status" and "io_step V rest ?out s s'"
    note s' = io_step_conn [OF this(2)]
    with assms(4) have "fst (get_cached (steady_clock env (clock_reads s')) p (stat_cache s')) = Some st" by simp
    from client.req_stat_file_hit [OF c assms(3) this] r
    show "\<exists>a. r = Inr a \<and> wp (req_stat_file env path)
      (\<lambda>r' s''. \<exists>b. r' = Inr b \<and> (a = status \<and> b = (Success, Some st) \<and> out_of V s'' = ?out \<and> in_of V s'' = rest)) s'"
      using s' by (auto elim!: wp_mono)
  qed
  from wp_both [OF this] show ?thesis by (rule wp_mono) auto
qed

theorem client_stat_stale_after_write_witness:
  "wp (both (req_write_to_file ex_env 4 0 [1, 2, 3, 4, 5, 6, 7] (word_of_nat (length [1, 2, 3, 4, 5, 6, 7 :: u8]))) (req_stat_file ex_env (ascii ''/mnt/a''))) (\<lambda>r s'.
       r = Inr (Success, (Success, Some ex_stat)) \<and> fs_size ex_stat = 5)
     (stat_stored ex_env ''/mnt/a'' ex_stat (Connection_init ex_env (ex_sock (response_bytes (RespStatus Success)))))"
proof -
  let ?s = "stat_stored ex_env ''/mnt/a'' ex_stat (Connection_init ex_env (ex_sock (response_bytes (RespStatus Success))))"
  have "fst (get_cached (steady_clock ex_env (clock_reads ?s)) ''/mnt/a'' (stat_cache ?s)) = Some ex_stat" by code_simp
  from client_stat_stale_after_write [OF ex_win _ ex_path [symmetric] this, of Success "[1, 2, 3, 4, 5, 6, 7]" "[]" 4 0] show ?thesis
    by (auto simp: named_status_def ex_stat_def simp del: response_bytes.simps elim!: wp_mono)
qed

lemma ex_parent [simp]: "win32_path_to_unix (to_utf8 ex_env) (ascii ''/mnt'') = ''/mnt''"
  by code_simp

text \<open>
  C37: the exception to the rule that a created entry drops the cached listing of its parent: for an
  entry directly under the root the parent is not found, so creating it leaves the cached listings as they are, that of the root included.
\<close>

theorem client_root_listing_kept:
  fixes s :: "'s Connection"
  assumes "win_socket (winsock env) V" and "ep_ok V s" and "CHR ''/'' \<notin> set name"
    and "win32_path_to_unix (to_utf8 env) path = ''/'' @ name" and "length name < 65535"
    and "named_status st" and "in_of V s = response_bytes (RespStatus st) @ rest"
  shows "wp (req_create_directory env path) (\<lambda>r s'. r = Inr st \<and> dir_list_cache s' = dir_list_cache s) s"
proof -
  have "get_parent_path (''/'' @ name) = None"
    using assms(3) find_last_of_append [of "CHR ''/''" name "[]"]
    by (cases name rule: rev_cases) (auto simp: get_parent_path_def Let_def ends_with_char find_last_of_def)
  moreover have "length (''/'' @ name) \<le> 65535" using assms(5) by simp
  note client.req_create_directory_spec [OF client.intro [OF assms(1)] assms(4) this assms(6,2,7)]
  then have "wp (req_create_directory env path) (\<lambda>r s'. r = Inr st \<and> dir_list_cache s' = drop_parent (''/'' @ name) (dir_list_cache s)) s"
    by (rule wp_mono) (auto simp: drop_path_def dest!: io_step_conn)
  ultimately show ?thesis by (simp add: drop_parent_def)
qed

theorem client_root_listing_kept_witness:
  "wp (req_create_directory ex_env (ascii ''/a'')) (\<lambda>r s'. r = Inr Success
       \<and> fst (get_cached (ms 5) ''/'' (dir_list_cache s')) = Some [''b''])
     (dir_stored ex_env ''/'' [''b''] (Connection_init ex_env (ex_sock (response_bytes (RespStatus Success)))))"
proof -
  let ?s = "dir_stored ex_env ''/'' [''b''] (Connection_init ex_env (ex_sock (response_bytes (RespStatus Success))))"
  have "win32_path_to_unix (to_utf8 ex_env) (ascii ''/a'') = ''/'' @ ''a''" by code_simp
  from client_root_listing_kept [OF ex_win _ _ this, of ?s Success "[]"]
  have "wp (req_create_directory ex_env (ascii ''/a'')) (\<lambda>r s'. r = Inr Success \<and> dir_list_cache s' = dir_list_cache ?s) ?s"
    by (simp add: named_status_def)
  moreover have "fst (get_cached (ms 5) ''/'' (dir_list_cache ?s)) = Some [''b'']"
    using get_after_put [of "dir_list_cache (Connection_init ex_env (ex_sock (response_bytes (RespStatus Success))))"
        "ms 3" "ms 2" "ms 5" "''/''" "[''b'']"] conn_inv_init [of ex_env "ex_sock (response_bytes (RespStatus Success))"]
    by (simp add: dir_stored_def conn_inv_def ex_env_def ms_def STAT_CACHE_PERIOD_def)
  ultimately show ?thesis by (auto elim: wp_mono)
qed

text \<open>
  Requests for any \<open>desktop.ini\<close> never reach the daemon: opening one fails at once, and
  a stat of one that is not cached reports that it does not exist; no byte is sent or read.
\<close>

lemma client_desktop_ini:
  fixes s :: "'s Connection"
  assumes "ends_with (win32_path_to_unix (to_utf8 env) path) ''desktop.ini''" and "mono (steady_clock env)"
    and "fst (get_cached (steady_clock env (clock_reads s)) (win32_path_to_unix (to_utf8 env) path) (stat_cache s)) = None"
  shows "req_open_file env path mode ra wa s = Some (Inr (GenericFailure, None), s)
    \<and> wp (req_stat_file env path) (\<lambda>r s'. r = Inr (FileNotFound, None)
        \<and> socket s' = socket s \<and> reader s' = reader s \<and> writer s' = writer s) s"
proof -
  let ?p = "win32_path_to_unix (to_utf8 env) path"
  have "steady_clock env (clock_reads s) \<le> steady_clock env (clock_reads s + 1)"
    using assms(2) by (simp add: monoD)
  with assms(3) have "fst (get_cached (steady_clock env (clock_reads s + 1)) ?p (stat_cache (looked_up env ?p s))) = None"
    by (auto simp: looked_up_def get_cached_def Let_def split: option.splits if_splits)
  with assms have "wp (req_stat_file env path) (\<lambda>r s'. r = Inr (FileNotFound, None)
        \<and> socket s' = socket s \<and> reader s' = reader s \<and> writer s' = writer s) s"
    by (simp add: req_stat_file_def Let_def) (simp add: looked_up_def)
  moreover have "req_open_file env path mode ra wa s = Some (Inr (GenericFailure, None), s)"
    using assms(1) by (simp add: req_open_file_def Let_def returnM_def)
  ultimately show ?thesis by simp
qed

interpretation ex_client: client ex_env scripted_view
  by (rule client.intro [OF ex_win])

end
