(* ===== verification/Drive.thy ===== *)
theory Drive
  imports Operations Client
begin

text \<open>
  What the callbacks of the mounted drive do, over the protocol: the requests each sends, how
  the answers become the results Dokan gets, which calls are refused without any traffic,
  and that no exception ever reaches Dokan.
\<close>

section \<open>Example states\<close>

text \<open>A mounted drive for examples, with an identity in place of Dokan's mapping of flags.\<close>

definition ex_cb :: "u8 list \<Rightarrow> FileContext option \<Rightarrow> sock callback" where
  "ex_cb bs ctx = \<lparr>connection = Some (Connection_init ex_env (ex_sock bs)),
     file_info = \<lparr>Context = ctx, DeleteOnClose = False, IsDirectory = False\<rparr>, unmount_called = False\<rparr>"

definition ex_ctx :: FileContext where
  "ex_ctx = \<lparr>fc_handle = 7, fc_read_access = True, fc_write_access = True\<rparr>"

definition ex_flags :: flag_map where
  "ex_flags = (\<lambda>access attributes options disposition. (access, attributes, disposition))"

text \<open>The context \<open>create_file\<close> stores first.\<close>

definition requested_ctx :: "u32 \<Rightarrow> FileContext" where
  "requested_ctx access = \<lparr>fc_handle = NO_HANDLE, fc_read_access = access AND GENERIC_READ \<noteq> 0,
     fc_write_access = access AND GENERIC_WRITE \<noteq> 0\<rparr>"

lemma ex_cb_simps [simp]:
  "connection (ex_cb bs ctx) = Some (Connection_init ex_env (ex_sock bs))" "Context (file_info (ex_cb bs ctx)) = ctx"
  "\<not> DeleteOnClose (file_info (ex_cb bs ctx))" "\<not> IsDirectory (file_info (ex_cb bs ctx))" "\<not> unmount_called (ex_cb bs ctx)"
  "fc_handle ex_ctx = 7" "fc_read_access ex_ctx" "fc_write_access ex_ctx" "ex_flags access attributes options disposition = (access, attributes, disposition)"
  by (simp_all add: ex_cb_def ex_ctx_def ex_flags_def)

lemma ex_handle [simp]: "(7 :: u32) \<noteq> NO_HANDLE"
  by (simp add: NO_HANDLE_def)

section \<open>Containment of errors and the open file's context\<close>

text \<open>
  C28: no exception leaves a callback: whatever a callback of the table meets (a lost
  connection, a failed conversion, a protocol error), it returns a status to Dokan. The only
  other ends are those of the process itself.
\<close>

theorem callbacks_contain_exceptions:
  assumes "nandroid_operations env fm serial op s = Some (Inl e, s')"
  shows "e = UndefinedBehaviour \<or> e = ProcessAbort"
proof -
  have "contained (nandroid_operations env fm serial op)"
    by (cases op) (simp_all add: callback_defs)
  with assms show ?thesis by (auto simp: contained_def is_exception_def)
qed

theorem callbacks_contain_exceptions_witness:
  "nandroid_operations ex_env ex_flags [] OpCloseFile (ex_cb [] None) = Some (Inl UndefinedBehaviour, ex_cb [] None)
     \<and> (UndefinedBehaviour = UndefinedBehaviour \<or> UndefinedBehaviour = ProcessAbort)"
proof -
  have "nandroid_operations ex_env ex_flags [] OpCloseFile (ex_cb [] None) = Some (Inl UndefinedBehaviour, ex_cb [] None)"
    by (simp add: close_file_def mapM_def nan_handler_def catchM_def thenM_def bindM_def get_conn_def file_ctx_def throwM_def
        returnM_def is_exception_def)
  from this callbacks_contain_exceptions [OF this] show ?thesis ..
qed

text \<open>The two callbacks that own the context.\<close>

fun owns_context :: "dokan_op \<Rightarrow> bool" where
  "owns_context (OpCreateFile name access attributes disposition options) = True"
| "owns_context OpCloseFile = True"
| "owns_context _ = False"

lemma callback_keeps_context: "\<not> owns_context op \<Longrightarrow> keeps_context (nandroid_operations env fm serial op)"
  by (cases op) (auto simp: callback_defs Let_def intro!: keeps split: prod.split option.split)

text \<open>A sequence of callbacks on one open file.\<close>

fun run_callbacks :: "'s conn_env \<Rightarrow> flag_map \<Rightarrow> wstring \<Rightarrow> dokan_op list \<Rightarrow> ('s callback, NTSTATUS option list) M" where
  "run_callbacks env fm serial [] = returnM []"
| "run_callbacks env fm serial (op # ops) = bindM (nandroid_operations env fm serial op) (\<lambda>r.
     bindM (run_callbacks env fm serial ops) (\<lambda>rs. returnM (r # rs)))"

text \<open>
  C26: the context of an open file belongs to \<open>create_file\<close> and \<open>close_file\<close>: any sequence of
  other callbacks leaves it exactly as it is, also when some of them fail, so the handle and the
  access rights granted at opening stay in force until the file is closed.
\<close>

theorem callbacks_keep_context:
  assumes "run_callbacks env fm serial ops s = Some (r, s')" and "list_all (\<lambda>op. \<not> owns_context op) ops"
  shows "Context (file_info s') = Context (file_info s)"
proof -
  have "keeps_context (run_callbacks env fm serial ops)"
    using assms(2) by (induction ops) (auto intro!: keeps callback_keeps_context)
  with assms(1) show ?thesis by (auto simp: keeps_context_def)
qed

theorem callbacks_keep_context_witness:
  "wp (run_callbacks ex_env ex_flags [] [OpFlushFileBuffers, OpLockFile, OpGetVolumeInformation 0 0])
     (\<lambda>r s'. Context (file_info s') = Some ex_ctx) (ex_cb [] (Some ex_ctx))"
proof -
  let ?ops = "[OpFlushFileBuffers, OpLockFile, OpGetVolumeInformation 0 0]"
  have "wp (run_callbacks ex_env ex_flags [] ?ops) (\<lambda>r s'. True) (ex_cb [] (Some ex_ctx))"
    by (simp add: callback_defs Let_def is_exception_def)
  then obtain r s' where run: "run_callbacks ex_env ex_flags [] ?ops (ex_cb [] (Some ex_ctx)) = Some (r, s')"
    unfolding wp_iff by blast
  from callbacks_keep_context [OF this] run show ?thesis by (auto simp: wp_iff)
qed

section \<open>Requests of the callbacks\<close>

text \<open>The state after a request on the connection has been answered.\<close>

definition conversed :: "'s sock_view \<Rightarrow> u8 list \<Rightarrow> u8 list \<Rightarrow> 's callback \<Rightarrow> 's callback \<Rightarrow> bool" where
  "conversed V rest sent s s' \<longleftrightarrow> (\<exists>c c'. connection s = Some c \<and> connection s' = Some c' \<and> ep_ok V c'
     \<and> in_of V c' = rest \<and> out_of V c' = out_of V c @ sent)
     \<and> unmount_called s' = unmount_called s \<and> file_info s' = file_info s"

text \<open>The drive is mounted: there is a connection and its streams are usable.\<close>

definition mounted_on :: "'s sock_view \<Rightarrow> u8 list \<Rightarrow> 's callback \<Rightarrow> bool" where
  "mounted_on V inp s \<longleftrightarrow> (\<exists>c. connection s = Some c \<and> ep_ok V c \<and> in_of V c = inp)"

lemma mounted_on_upd [simp]:
  "mounted_on V inp (s\<lparr>file_info := fi\<rparr>) = mounted_on V inp s" "mounted_on V inp (s\<lparr>unmount_called := b\<rparr>) = mounted_on V inp s"
  by (simp_all add: mounted_on_def)

lemma mounted_conn: "mounted_on V inp s \<Longrightarrow> wp get_conn Q s = Q (Inr ()) s"
  by (auto simp: mounted_on_def)

text \<open>A request whose exchange is known, and what the callback does with the answer.\<close>

lemma wp_exchange:
  fixes s :: "'s callback"
  assumes "transacts V inp out m a" and "mounted_on V (inp @ rest) s"
    and "\<And>s'. conversed V rest out s s' \<Longrightarrow> wp (k a) Q s'"
  shows "wp (bindM (connM m) k) Q s"
proof -
  obtain c where c: "connection s = Some c" "ep_ok V c" "in_of V c = inp @ rest"
    using assms(2) by (auto simp: mounted_on_def)
  have "wp m (\<lambda>r c'. case r of Inl e \<Rightarrow> Q (Inl e) (s\<lparr>connection := Some c'\<rparr>) | Inr a \<Rightarrow> wp (k a) Q (s\<lparr>connection := Some c'\<rparr>)) c"
    by (rule wp_transacts [OF assms(1) c(2,3)]) (use c(1) in \<open>auto intro!: assms(3) simp: conversed_def dest!: io_step_conn\<close>)
  with c(1) show ?thesis by (simp add: wp_connM)
qed

lemma wp_exchange_step:
  fixes s :: "'s callback"
  assumes "wp m (\<lambda>r c'. r = Inr a \<and> P c') c" and "connection s = Some c"
    and "\<And>c'. P c' \<Longrightarrow> wp (k a) Q (s\<lparr>connection := Some c'\<rparr>)"
  shows "wp (bindM (connM m) k) Q s"
  using assms(2) by (simp add: wp_connM) (rule wp_mono [OF assms(1)], use assms(3) in auto)

text \<open>The frame of a callback whose body returns, without and with the open file's context.\<close>

lemma wp_callback:
  assumes "mounted_on V inp s" and "wp m (\<lambda>r s'. r = Inr b \<and> P s') s"
  shows "wp (nan_handler a (thenM get_conn m)) (\<lambda>r s'. r = Inr b \<and> P s') s"
  unfolding wp_nan_handler wp_thenM mounted_conn [OF assms(1)] sum.case
  by (rule wp_mono [OF assms(2)]) simp

lemma wp_file_callback:
  assumes "mounted_on V inp s" and "Context (file_info s) = Some ctx" and "wp (k ctx) (\<lambda>r s'. r = Inr b \<and> P s') s"
  shows "wp (nan_handler a (thenM get_conn (bindM file_ctx k))) (\<lambda>r s'. r = Inr b \<and> P s') s"
  by (rule wp_callback [OF assms(1)]) (simp add: assms(2,3))

text \<open>A callback that only passes a request on and converts the status of the answer.\<close>

lemma wp_status_callback:
  fixes s :: "'s callback"
  assumes "transacts V (response_bytes (RespStatus st)) out m st" and "mounted_on V (response_bytes (RespStatus st) @ rest) s"
  shows "wp (nan_handler a (thenM get_conn (bindM (connM m) (\<lambda>status. returnM (f status)))))
    (\<lambda>r s'. r = Inr (f st) \<and> conversed V rest out s s') s"
  by (rule wp_callback [OF assms(2)], rule wp_exchange [OF assms]) simp

section \<open>Reading and writing\<close>

text \<open>
  \<open>read_file\<close> on a file opened for reading asks the daemon for exactly the region Dokan
  asks for, and gives Dokan exactly the bytes of the answer and their number.
\<close>

lemma wp_read_file:
  fixes s :: "'s callback"
  assumes "win_socket (winsock env) V" and "Context (file_info s) = Some ctx"
    and "fc_read_access ctx" and "fc_handle ctx \<noteq> NO_HANDLE"
    and "mounted_on V (response_bytes (RespData bs) @ rest) s" and "length bs \<le> unat n" and "length bs < 2 ^ 31"
  shows "wp (read_file env n off) (\<lambda>r s'. r = Inr (STATUS_SUCCESS, Some (word_of_nat (length bs), bs))
     \<and> conversed V rest (request_bytes (ReqRead \<lparr>rh_handle = fc_handle ctx, rh_data_len = n, rh_offset = off\<rparr>)) s s') s"
  unfolding read_file_def
  by (rule wp_file_callback [OF assms(5,2)])
     (use assms(3,4) in \<open>auto intro!: wp_exchange [OF client.req_read_from_file_spec(1)
         [OF client.intro [OF assms(1)] refl assms(6,7)] assms(5)] simp del: wp_bindM\<close>)

text \<open>
  \<open>write_file\<close> on a file opened for writing sends exactly the bytes of the buffer for the
  offset, and reports the whole length as written exactly when the daemon reports success.
\<close>

lemma wp_write_file:
  fixes s :: "'s callback"
  assumes "win_socket (winsock env) V" and "Context (file_info s) = Some ctx"
    and "fc_write_access ctx" and "fc_handle ctx \<noteq> NO_HANDLE"
    and "mounted_on V (response_bytes (RespStatus st) @ rest) s" and "named_status st" and "length bs < 2 ^ 31"
  shows "wp (write_file env bs (word_of_nat (length bs)) off) (\<lambda>r s'.
       r = Inr (if st = Success then (STATUS_SUCCESS, Some (word_of_nat (length bs))) else (ntstatus_from_respstatus st, None))
     \<and> conversed V rest (request_bytes (ReqWrite (fc_handle ctx) off bs)) s s') s"
  unfolding write_file_def
  by (rule wp_file_callback [OF assms(5,2)])
     (use assms(3,4) in \<open>auto intro!: wp_exchange [OF client.req_write_to_file_spec
         [OF client.intro [OF assms(1)] assms(6,7)] assms(5)] simp del: wp_bindM\<close>)

text \<open>
  C27: without the access right granted at opening, or without a handle on the device, reading and
  writing are refused: the status is \<open>STATUS_ACCESS_DENIED\<close> and nothing is sent or changed.
\<close>

theorem drive_access_denied:
  fixes s :: "'s callback"
  assumes "connection s = Some c" and "Context (file_info s) = Some ctx"
  shows "(\<not> fc_read_access ctx \<or> fc_handle ctx = NO_HANDLE \<longrightarrow>
      read_file env n off s = Some (Inr (STATUS_ACCESS_DENIED, None), s))
    \<and> (\<not> fc_write_access ctx \<or> fc_handle ctx = NO_HANDLE \<longrightarrow>
      write_file env bs m off s = Some (Inr (STATUS_ACCESS_DENIED, None), s))
    \<and> (\<not> fc_write_access ctx \<longrightarrow> set_end_of_file env len s = Some (Inr STATUS_ACCESS_DENIED, s))"
  using assms
  by (auto simp: read_file_def write_file_def set_end_of_file_def nan_handler_def catchM_def thenM_def bindM_def get_conn_def
      file_ctx_def returnM_def)

theorem drive_access_denied_witness:
  "read_file ex_env 100 0 (ex_cb [] (Some (requested_ctx GENERIC_WRITE)))
     = Some (Inr (STATUS_ACCESS_DENIED, None), ex_cb [] (Some (requested_ctx GENERIC_WRITE)))"
  using drive_access_denied [of "ex_cb [] (Some (requested_ctx GENERIC_WRITE))" _ "requested_ctx GENERIC_WRITE" ex_env 100 0]
  by (simp add: requested_ctx_def)

section \<open>A lost connection\<close>

context client
begin

lemma request_eof_status:
  fixes m :: "('s Connection, unit) M"
  assumes "transacts V [] (request_body req) m ()" and "ep_ok V s" and "in_of V s = []"
  shows "wp (thenM (write_request env (request_type req)) (thenM m (thenM (flush (conn_write env)) (read_status env))))
    (\<lambda>r s'. r = Inl EOFException) s"
  using request_eof [OF assms, of returnM] by (simp only: bindM_returnM)

lemma requests_eof:
  fixes c :: "'s Connection"
  assumes "ep_ok V c" and "in_of V c = []"
  shows "wp (req_read_from_file env h off n) (\<lambda>r s'. r = Inl EOFException) c"
    and "length bs < 2 ^ 31 \<Longrightarrow> wp (req_write_to_file env h off bs (word_of_nat (length bs))) (\<lambda>r s'. r = Inl EOFException) c"
    and "length (win32_path_to_unix (to_utf8 env) name) \<le> 65535 \<Longrightarrow> wp (req_can_remove_file env name) (\<lambda>r s'. r = Inl EOFException) c"
proof -
  let ?a = "\<lparr>rh_handle = h, rh_data_len = n, rh_offset = off\<rparr>"
  show "wp (req_read_from_file env h off n) (\<lambda>r s'. r = Inl EOFException) c"
    unfolding req_read_from_file_def
    using request_eof [OF _ assms, of "ReqRead ?a" "ReadHandleArgs_write (conn_write env) ?a"]
    by (simp only: request_type.simps) (simp add: conn.ReadHandleArgs_write_spec)
  show "wp (req_write_to_file env h off bs (word_of_nat (length bs))) (\<lambda>r s'. r = Inl EOFException) c" if "length bs < 2 ^ 31"
  proof -
    have "sint (word_of_nat (length bs) :: u32) = int (length bs)" using that by (rule small_word)
    then have "transacts V [] (request_body (ReqWrite h off bs))
       (thenM (WriteHandleInitArgs_write (conn_write env) (write_args h off bs))
              (write_exact (conn_write env) bs (sint (word_of_nat (length bs) :: u32)))) ()"
      unfolding request_body.simps by (rule transacts_write [OF conn.WriteHandleInitArgs_write_spec conn.transacts_write_exact])
    from request_eof_status [OF this assms] show ?thesis
      by (simp add: req_write_to_file_def write_args_def thenM_assoc del: wp_thenM)
  qed
  show "wp (req_can_remove_file env name) (\<lambda>r s'. r = Inl EOFException) c"
    if "length (win32_path_to_unix (to_utf8 env) name) \<le> 65535"
    using request_eof_status [OF _ assms, of "ReqCheckRemoveFile (win32_path_to_unix (to_utf8 env) name)"
        "write_utf8_string (conn_write env) (win32_path_to_unix (to_utf8 env) name)"] that
    by (simp add: req_can_remove_file_def conn.transacts_write_utf8_string del: wp_thenM)
qed

end

lemma wp_callback_eof:
  fixes s :: "'s callback"
  assumes "wp m (\<lambda>r c'. r = Inl EOFException) c" and "connection s = Some c"
  shows "wp (nan_handler a (thenM get_conn (bindM (connM m) k))) (\<lambda>r s'. r = Inr a \<and> unmount_called s' \<and> connection s' = None) s"
  using assms(2) by (simp add: wp_connM) (rule wp_mono [OF assms(1)], simp add: is_exception_def)

lemma wp_file_callback_eof:
  fixes s :: "'s callback"
  assumes "wp m (\<lambda>r c'. r = Inl EOFException) c" and "connection s = Some c" and "Context (file_info s) = Some ctx"
    and "\<exists>k. body ctx = bindM (connM m) k"
  shows "wp (nan_handler a (thenM get_conn (bindM file_ctx body))) (\<lambda>r s'. r = Inr a \<and> unmount_called s' \<and> connection s' = None) s"
proof -
  from assms(4) obtain k where "body ctx = bindM (connM m) k" ..
  with assms(2,3) show ?thesis
    by (simp add: wp_connM) (rule wp_mono [OF assms(1)], simp add: is_exception_def)
qed

text \<open>
  C29: when the daemon is gone (its end of the connection is closed), a callback that needs it
  fails and unmounts the drive: reading, writing and the check before a deletion give
  \<open>STATUS_UNSUCCESSFUL\<close> and call \<open>Nandroid::unmount\<close>, which takes the connection down.
\<close>

theorem drive_unmounts_without_daemon:
  fixes s :: "'s callback"
  assumes "win_socket (winsock env) V" and "mounted_on V [] s" and "Context (file_info s) = Some ctx"
    and "fc_read_access ctx" and "fc_write_access ctx" and "fc_handle ctx \<noteq> NO_HANDLE" and "length bs < 2 ^ 31"
    and "length (win32_path_to_unix (to_utf8 env) name) \<le> 65535"
  shows "wp (read_file env n off) (\<lambda>r s'. r = Inr (STATUS_UNSUCCESSFUL, None) \<and> unmount_called s' \<and> connection s' = None) s
    \<and> wp (write_file env bs (word_of_nat (length bs)) off) (\<lambda>r s'. r = Inr (STATUS_UNSUCCESSFUL, None) \<and> unmount_called s' \<and> connection s' = None) s
    \<and> wp (delete_file env name) (\<lambda>r s'. r = Inr STATUS_UNSUCCESSFUL \<and> unmount_called s' \<and> connection s' = None) s"
proof -
  obtain c where c: "connection s = Some c" "ep_ok V c" "in_of V c = []"
    using assms(2) by (auto simp: mounted_on_def)
  note eof = client.requests_eof [OF client.intro [OF assms(1)] c(2,3)]
  show ?thesis
    unfolding read_file_def write_file_def delete_file_def
    by (intro conjI wp_callback_eof [OF eof(3) [OF assms(8)] c(1)] wp_file_callback_eof [OF eof(1) c(1) assms(3)]
        wp_file_callback_eof [OF eof(2) [OF assms(7)] c(1) assms(3)])
       (use assms(4-6) in auto)
qed

theorem drive_unmounts_without_daemon_witness:
  "wp (read_file ex_env 100 0) (\<lambda>r s'. r = Inr (STATUS_UNSUCCESSFUL, None) \<and> unmount_called s' \<and> connection s' = None) (ex_cb [] (Some ex_ctx))"
  using drive_unmounts_without_daemon [OF ex_win, of "ex_cb [] (Some ex_ctx)" ex_ctx "[]" "ascii ''/mnt/a''" 100 0]
  by (simp add: mounted_on_def)

section \<open>Opening and closing\<close>

text \<open>What the daemon answers about an entry that exists with a stat, or does not exist.\<close>

definition stat_answer :: "FileStat option \<Rightarrow> response" where
  "stat_answer entry = (case entry of None \<Rightarrow> RespStatus FileNotFound | Some st \<Rightarrow> RespStat st)"

text \<open>The context it opens with, and the one an answer leaves.\<close>

definition effective_ctx :: "FileContext \<Rightarrow> FileContext" where
  "effective_ctx ctx = (if \<not> fc_read_access ctx \<and> \<not> fc_write_access ctx then ctx\<lparr>fc_read_access := True\<rparr> else ctx)"

definition opened_ctx :: "FileContext \<Rightarrow> response \<Rightarrow> FileContext" where
  "opened_ctx ctx resp = (case snd (open_result resp) of None \<Rightarrow> ctx | Some h \<Rightarrow> ctx\<lparr>fc_handle := h\<rparr>)"

text \<open>The status of an opening that reached the daemon.\<close>

definition create_status :: "u32 \<Rightarrow> bool \<Rightarrow> ResponseStatus \<Rightarrow> NTSTATUS" where
  "create_status disposition existed status =
     (if status = Success
      then (if existed \<and> (disposition = OPEN_ALWAYS \<or> disposition = CREATE_ALWAYS) then STATUS_OBJECT_NAME_COLLISION else STATUS_SUCCESS)
      else ntstatus_from_respstatus status)"

text \<open>The connection can ask about the path, and has no fresh stat of it.\<close>

definition asks_about :: "'s conn_env \<Rightarrow> 's sock_view \<Rightarrow> wstring \<Rightarrow> string \<Rightarrow> 's Connection \<Rightarrow> bool" where
  "asks_about env V path p c \<longleftrightarrow> p = win32_path_to_unix (to_utf8 env) path \<and> length p \<le> 65535 \<and> \<not> ends_with p ''desktop.ini''
     \<and> fst (get_cached (steady_clock env (clock_reads c)) p (stat_cache c)) = None \<and> ep_ok V c"

text \<open>The stat of an entry, and the value the variable keeps when there is none.\<close>

definition entry_stat :: "FileStat option \<Rightarrow> FileStat" where
  "entry_stat entry = (case entry of None \<Rightarrow> FileStat_default | Some st \<Rightarrow> st)"

lemma not_directory_default [simp]: "\<not> is_directory_mode (fs_mode FileStat_default)"
  by (simp add: is_directory_mode_def FileStat_default_def file_attributes_from_st_mode_def FILE_ATTRIBUTE_NORMAL_def
      FILE_ATTRIBUTE_DIRECTORY_def)

context client
begin

lemma stat_outcome:
  fixes c :: "'s Connection"
  assumes "asks_about env V path p c" and "mono (steady_clock env)" and "in_of V c = response_bytes (stat_answer entry) @ rest"
  shows "wp (req_stat_file env path) (\<lambda>r c'. r = Inr (if entry = None then FileNotFound else Success, entry)
     \<and> (ep_ok V c' \<and> in_of V c' = rest \<and> out_of V c' = out_of V c @ request_bytes (ReqStat p))) c"
proof (cases entry)
  case None
  have "wp (req_stat_file env path) (\<lambda>r s'. r = Inr (FileNotFound, None)
      \<and> io_step V rest (out_of V c @ request_bytes (ReqStat p)) (looked_up env p (looked_up env p c)) s') c"
    by (rule req_stat_file_spec(2)) (use assms None in \<open>auto simp: asks_about_def stat_answer_def named_status_def\<close>)
  then show ?thesis by (rule wp_mono) (auto simp: None dest: io_step_conn)
next
  case (Some st)
  have "wp (req_stat_file env path) (\<lambda>r s'. r = Inr (Success, Some st)
      \<and> io_step V rest (out_of V c @ request_bytes (ReqStat p)) (stat_stored env p st (looked_up env p (looked_up env p c))) s') c"
    by (rule req_stat_file_spec(1)) (use assms Some in \<open>auto simp: asks_about_def stat_answer_def\<close>)
  then show ?thesis by (rule wp_mono) (auto simp: Some dest: io_step_conn)
qed

text \<open>The stat at the start of \<open>create_file\<close>, up to the choice between file and directory.\<close>

lemma wp_create_file:
  fixes s :: "'s callback"
  assumes "asks_about env V path p c" and "mono (steady_clock env)" and "in_of V c = response_bytes (stat_answer entry) @ rest"
    and s: "connection s = Some c" "fm access attributes options disposition = (acc, flags, disp)"
    and k: "\<And>c'. ep_ok V c' \<Longrightarrow> in_of V c' = rest \<Longrightarrow> out_of V c' = out_of V c @ request_bytes (ReqStat p) \<Longrightarrow>
      wp (create_entry env path disp options (entry \<noteq> None) (entry_stat entry)) (\<lambda>r s'. r = Inr b \<and> P s')
        (s\<lparr>file_info := (file_info s)\<lparr>DeleteOnClose := flags AND FILE_FLAG_DELETE_ON_CLOSE \<noteq> 0,
             Context := Some (requested_ctx acc)\<rparr>, connection := Some c'\<rparr>)"
  shows "wp (create_file env fm path access attributes disposition options) (\<lambda>r s'. r = Inr b \<and> P s') s"
proof -
  have nan: "wp (nan_handler a m) (\<lambda>r s'. r = Inr b \<and> P s') s" if "wp m (\<lambda>r s'. r = Inr b \<and> P s') s" for a m
    unfolding wp_nan_handler by (rule wp_mono [OF that]) simp
  show ?thesis
    unfolding create_file_def s(2) prod.case
    by (rule nan, simp del: wp_bindM add: s(1) flip: requested_ctx_def, rule wp_exchange_step [OF stat_outcome [OF assms(1-3)]])
       (use k in \<open>auto simp: s(1) entry_stat_def split: option.splits\<close>)
qed

text \<open>The part of \<open>create_file\<close> for a file.\<close>

lemma wp_handle_create_file:
  fixes s :: "'s callback"
  assumes "open_mode_for disp existed ctx = Inr mode" and "Context (file_info s) = Some ctx" and "connection s = Some c"
    and "ep_ok V c" and "p = win32_path_to_unix (to_utf8 env) path" and "length p \<le> 65535" and "\<not> ends_with p ''desktop.ini''"
    and "open_response resp" and "in_of V c = response_bytes resp @ rest"
  shows "wp (handle_create_file env path disp existed) (\<lambda>r s'. r = Inr (create_status disp existed (fst (open_result resp)))
     \<and> file_info s' = (file_info s)\<lparr>Context := Some (opened_ctx (effective_ctx ctx) resp)\<rparr> \<and> unmount_called s' = unmount_called s
     \<and> (\<exists>c'. connection s' = Some c' \<and> ep_ok V c' \<and> in_of V c' = rest
         \<and> out_of V c' = out_of V c @ request_bytes (ReqOpen \<lparr>oh_path = p, oh_mode = mode,
              oh_read_access = fc_read_access (effective_ctx ctx), oh_write_access = fc_write_access (effective_ctx ctx)\<rparr>))) s"
proof -
  let ?ctx = "effective_ctx ctx"
  let ?a = "\<lparr>oh_path = p, oh_mode = mode, oh_read_access = fc_read_access ?ctx, oh_write_access = fc_write_access ?ctx\<rparr>"
  have "wp (req_open_file env path mode (fc_read_access ?ctx) (fc_write_access ?ctx)) (\<lambda>r c'. r = Inr (open_result resp)
     \<and> io_step V rest (out_of V c @ request_bytes (ReqOpen ?a)) (if creates mode then parent_dropped (oh_path ?a) c else c) c') c"
    by (rule req_open_file_spec) (use assms in auto)
  then have sp: "wp (req_open_file env path mode (fc_read_access ?ctx) (fc_write_access ?ctx)) (\<lambda>r c'. r = Inr (open_result resp)
     \<and> (ep_ok V c' \<and> in_of V c' = rest \<and> out_of V c' = out_of V c @ request_bytes (ReqOpen ?a))) c"
    by (rule wp_mono) (auto dest: io_step_conn split: if_splits)
  obtain st h where res: "open_result resp = (st, h)" by (cases "open_result resp")
  show ?thesis
    unfolding handle_create_file_def
    by (simp del: wp_bindM add: wp_bindM [of file_ctx] assms(1,2) Let_def split del: if_split
          flip: effective_ctx_def create_status_def,
        rule wp_exchange_step [OF sp], auto simp: assms(3) res opened_ctx_def split: option.splits)
qed

lemma wp_open_file:
  fixes s :: "'s callback"
  assumes "mono (steady_clock env)" and "asks_about env V path p c"
    and "connection s = Some c" and "\<not> IsDirectory (file_info s)"
    and "fm access attributes options disposition = (acc, flags, disp)"
    and "\<not> is_directory_mode (fs_mode (entry_stat entry))"
    and "open_mode_for disp (entry \<noteq> None) (requested_ctx acc) = Inr mode" and "open_response resp"
    and "in_of V c = response_bytes (stat_answer entry) @ response_bytes resp @ rest"
  shows "wp (create_file env fm path access attributes disposition options) (\<lambda>r s'.
       r = Inr (create_status disp (entry \<noteq> None) (fst (open_result resp)))
     \<and> file_info s' = (file_info s)\<lparr>DeleteOnClose := flags AND FILE_FLAG_DELETE_ON_CLOSE \<noteq> 0,
          Context := Some (opened_ctx (effective_ctx (requested_ctx acc)) resp)\<rparr>
     \<and> unmount_called s' = unmount_called s
     \<and> (\<exists>c'. connection s' = Some c' \<and> ep_ok V c' \<and> in_of V c' = rest
         \<and> out_of V c' = out_of V c @ request_bytes (ReqStat p) @ request_bytes (ReqOpen \<lparr>oh_path = p, oh_mode = mode,
              oh_read_access = fc_read_access (effective_ctx (requested_ctx acc)),
              oh_write_access = fc_write_access (requested_ctx acc)\<rparr>))) s"
proof (rule wp_create_file [OF assms(2,1,9,3), where fm = fm])
  fix c' :: "'s Connection"
  let ?s1 = "s\<lparr>file_info := (file_info s)\<lparr>DeleteOnClose := flags AND FILE_FLAG_DELETE_ON_CLOSE \<noteq> 0,
             Context := Some (requested_ctx acc)\<rparr>, connection := Some c'\<rparr>"
  let ?ctx = "effective_ctx (requested_ctx acc)"
  assume c': "ep_ok V c'" "in_of V c' = response_bytes resp @ rest" "out_of V c' = out_of V c @ request_bytes (ReqStat p)"
  have p: "p = win32_path_to_unix (to_utf8 env) path" "length p \<le> 65535" "\<not> ends_with p ''desktop.ini''"
    using assms(2) unfolding asks_about_def by blast+
  have "wp (handle_create_file env path disp (entry \<noteq> None)) (\<lambda>r s'. r = Inr (create_status disp (entry \<noteq> None) (fst (open_result resp)))
     \<and> file_info s' = (file_info ?s1)\<lparr>Context := Some (opened_ctx ?ctx resp)\<rparr> \<and> unmount_called s' = unmount_called ?s1
     \<and> (\<exists>c''. connection s' = Some c'' \<and> ep_ok V c'' \<and> in_of V c'' = rest
         \<and> out_of V c'' = out_of V c' @ request_bytes (ReqOpen \<lparr>oh_path = p, oh_mode = mode,
              oh_read_access = fc_read_access ?ctx, oh_write_access = fc_write_access ?ctx\<rparr>))) ?s1"
    by (rule wp_handle_create_file [OF assms(7) _ _ c'(1) p assms(8) c'(2)]) simp_all
  then show "wp (create_entry env path disp options (entry \<noteq> None) (entry_stat entry)) (\<lambda>r s'.
       r = Inr (create_status disp (entry \<noteq> None) (fst (open_result resp)))
     \<and> file_info s' = (file_info s)\<lparr>DeleteOnClose := flags AND FILE_FLAG_DELETE_ON_CLOSE \<noteq> 0,
          Context := Some (opened_ctx ?ctx resp)\<rparr>
     \<and> unmount_called s' = unmount_called s
     \<and> (\<exists>c'. connection s' = Some c' \<and> ep_ok V c' \<and> in_of V c' = rest
         \<and> out_of V c' = out_of V c @ request_bytes (ReqStat p) @ request_bytes (ReqOpen \<lparr>oh_path = p, oh_mode = mode,
              oh_read_access = fc_read_access ?ctx, oh_write_access = fc_write_access (requested_ctx acc)\<rparr>))) ?s1"
    using c'(3) assms(4,6) by (auto simp: create_entry_def Let_def effective_ctx_def elim!: wp_mono)
qed (rule assms(5))

end

text \<open>
  What the dispositions of \<open>CreateFile\<close> ask for, as flags of the \<open>open\<close> call that serves them: whether
  a missing file is created, an existing one refused, and its content discarded.
\<close>

definition disposition_flags :: "u32 \<Rightarrow> u32" where
  "disposition_flags disp =
     (if disp \<in> {CREATE_NEW, CREATE_ALWAYS, OPEN_ALWAYS} then O_CREAT else 0)
     OR (if disp = CREATE_NEW then O_EXCL else 0)
     OR (if disp \<in> {CREATE_ALWAYS, TRUNCATE_EXISTING} then O_TRUNC else 0)"

text \<open>
  Whether an opening reaches the device: not when the disposition is unknown, when an existing
  file is asked for and there is none, and when nothing would be created, changed or accessed.
\<close>

definition reaches_device :: "u32 \<Rightarrow> bool \<Rightarrow> FileContext \<Rightarrow> bool" where
  "reaches_device disp existed ctx \<longleftrightarrow> disp \<in> {CREATE_NEW, CREATE_ALWAYS, OPEN_EXISTING, OPEN_ALWAYS, TRUNCATE_EXISTING}
     \<and> (disp = OPEN_EXISTING \<longrightarrow> existed)
     \<and> (existed \<and> disp \<in> {OPEN_EXISTING, OPEN_ALWAYS} \<longrightarrow> fc_read_access ctx \<or> fc_write_access ctx)"

lemma mode_of_disposition:
  assumes "reaches_device disp existed ctx"
  obtains mode where "open_mode_for disp existed ctx = Inr mode" and "named_mode mode" and "mode_flags mode = disposition_flags disp"
proof -
  from assms consider "disp = CREATE_NEW" | "disp = CREATE_ALWAYS" | "disp = OPEN_EXISTING" | "disp = OPEN_ALWAYS" | "disp = TRUNCATE_EXISTING"
    by (auto simp: reaches_device_def)
  then have "\<exists>mode. open_mode_for disp existed ctx = Inr mode \<and> named_mode mode \<and> mode_flags mode = disposition_flags disp"
    using assms
    by cases (auto simp: reaches_device_def open_mode_for_def disposition_flags_def disposition_defs named_mode_def Let_def)
  with that show thesis by blast
qed

text \<open>
  C25: opening a file. For a path whose stat is not cached and that does not end in
  \<open>desktop.ini\<close>, and every opening that reaches the device, \<open>create_file\<close> first asks for the stat of the
  path and then sends one open request: its mode is the one that the daemon turns into the flags of the
  disposition (creating a missing file, refusing an existing one, discarding the content), its access the one
  requested (read access when none is). The handle of the answer and the access are kept in the
  file's context, and the result is success, the collision code Windows expects when the disposition
  would have created an existing file, or the daemon's error.
\<close>

theorem drive_open_file:
  fixes s :: "'s callback"
  assumes "win_socket (winsock env) V" and "mono (steady_clock env)" and "asks_about env V path p c"
    and "connection s = Some c" and "\<not> IsDirectory (file_info s)"
    and "fm access attributes options disposition = (acc, flags, disp)"
    and "\<not> is_directory_mode (fs_mode (entry_stat entry))"
    and "reaches_device disp (entry \<noteq> None) (requested_ctx acc)" and "open_response resp"
    and "in_of V c = response_bytes (stat_answer entry) @ response_bytes resp @ rest"
  shows "\<exists>mode. named_mode mode \<and> mode_flags mode = disposition_flags disp \<and> wp (create_file env fm path access attributes disposition options) (\<lambda>r s'.
       r = Inr (create_status disp (entry \<noteq> None) (fst (open_result resp)))
     \<and> file_info s' = (file_info s)\<lparr>DeleteOnClose := flags AND FILE_FLAG_DELETE_ON_CLOSE \<noteq> 0,
          Context := Some (opened_ctx (effective_ctx (requested_ctx acc)) resp)\<rparr>
     \<and> unmount_called s' = unmount_called s
     \<and> (\<exists>c'. connection s' = Some c' \<and> ep_ok V c' \<and> in_of V c' = rest
         \<and> out_of V c' = out_of V c @ request_bytes (ReqStat p) @ request_bytes (ReqOpen \<lparr>oh_path = p, oh_mode = mode,
              oh_read_access = fc_read_access (effective_ctx (requested_ctx acc)),
              oh_write_access = fc_write_access (requested_ctx acc)\<rparr>))) s"
proof -
  from assms(8) obtain mode where mode: "open_mode_for disp (entry \<noteq> None) (requested_ctx acc) = Inr mode"
    "named_mode mode" "mode_flags mode = disposition_flags disp" by (rule mode_of_disposition)
  have "wp (create_file env fm path access attributes disposition options) (\<lambda>r s'.
       r = Inr (create_status disp (entry \<noteq> None) (fst (open_result resp)))
     \<and> file_info s' = (file_info s)\<lparr>DeleteOnClose := flags AND FILE_FLAG_DELETE_ON_CLOSE \<noteq> 0,
          Context := Some (opened_ctx (effective_ctx (requested_ctx acc)) resp)\<rparr>
     \<and> unmount_called s' = unmount_called s
     \<and> (\<exists>c'. connection s' = Some c' \<and> ep_ok V c' \<and> in_of V c' = rest
         \<and> out_of V c' = out_of V c @ request_bytes (ReqStat p) @ request_bytes (ReqOpen \<lparr>oh_path = p, oh_mode = mode,
              oh_read_access = fc_read_access (effective_ctx (requested_ctx acc)),
              oh_write_access = fc_write_access (requested_ctx acc)\<rparr>))) s"
    by (rule client.wp_open_file [where fm = fm, OF client.intro [OF assms(1)] assms(2-5)]) (rule assms mode)+
  with mode(2,3) show ?thesis by blast
qed

lemma ex_asks [simp]: "asks_about ex_env scripted_view (ascii ''/mnt/a'') ''/mnt/a'' (Connection_init ex_env (ex_sock bs))"
proof -
  have "win32_path_to_unix (to_utf8 ex_env) (ascii ''/mnt/a'') = ''/mnt/a''" "\<not> ends_with ''/mnt/a'' ''desktop.ini''"
    by code_simp+
  then show ?thesis by (simp add: asks_about_def)
qed

lemma ex_mode [simp]: "\<not> is_directory_mode (fs_mode ex_stat)"
  by code_simp

theorem drive_open_file_witness:
  "wp (create_file ex_env ex_flags (ascii ''/mnt/a'') GENERIC_READ 0 OPEN_ALWAYS 0) (\<lambda>r s'. r = Inr STATUS_OBJECT_NAME_COLLISION
       \<and> Context (file_info s') = Some \<lparr>fc_handle = 7, fc_read_access = True, fc_write_access = False\<rparr>)
     (ex_cb (response_bytes (RespStat ex_stat) @ response_bytes (RespHandle 7)) None)"
proof -
  let ?s = "ex_cb (response_bytes (RespStat ex_stat) @ response_bytes (RespHandle 7)) None"
  have reach: "reaches_device OPEN_ALWAYS (Some ex_stat \<noteq> None) (requested_ctx GENERIC_READ)" by code_simp
  have ctx: "opened_ctx (effective_ctx (requested_ctx GENERIC_READ)) (RespHandle 7)
      = \<lparr>fc_handle = 7, fc_read_access = True, fc_write_access = False\<rparr>"
    by code_simp
  obtain mode where "wp (create_file ex_env ex_flags (ascii ''/mnt/a'') GENERIC_READ 0 OPEN_ALWAYS 0) (\<lambda>r s'.
       r = Inr (create_status OPEN_ALWAYS (Some ex_stat \<noteq> None) (fst (open_result (RespHandle 7))))
     \<and> file_info s' = (file_info ?s)\<lparr>DeleteOnClose := 0 AND FILE_FLAG_DELETE_ON_CLOSE \<noteq> 0,
          Context := Some (opened_ctx (effective_ctx (requested_ctx GENERIC_READ)) (RespHandle 7))\<rparr>
     \<and> unmount_called s' = unmount_called ?s
     \<and> (\<exists>c'. connection s' = Some c' \<and> ep_ok scripted_view c' \<and> in_of scripted_view c' = []
         \<and> out_of scripted_view c' = out_of scripted_view (Connection_init ex_env (ex_sock (response_bytes (RespStat ex_stat) @ response_bytes (RespHandle 7))))
             @ request_bytes (ReqStat ''/mnt/a'') @ request_bytes (ReqOpen \<lparr>oh_path = ''/mnt/a'', oh_mode = mode,
              oh_read_access = fc_read_access (effective_ctx (requested_ctx GENERIC_READ)),
              oh_write_access = fc_write_access (requested_ctx GENERIC_READ)\<rparr>))) ?s"
    using drive_open_file [OF ex_win ex_clock_mono ex_asks [of "response_bytes (RespStat ex_stat) @ response_bytes (RespHandle 7)"] _ _ _ _ reach,
        where fm = ex_flags and resp = "RespHandle 7" and rest = "[]" and s = ?s
          and access = GENERIC_READ and attributes = 0 and options = 0 and disposition = OPEN_ALWAYS and flags = 0]
    by (auto simp: stat_answer_def entry_stat_def open_response_def simp del: response_bytes.simps)
  then show ?thesis by (rule wp_mono) (simp add: ctx create_status_def)
qed

text \<open>
  An opening that needs nothing of the device opens nothing there: when only attributes of
  an existing file are asked for, or an existing file is asked for and there is none, the only
  request sent is the stat, and the context carries no handle, so that every later read and
  write through it is refused.
\<close>

lemma drive_open_without_handle:
  fixes s :: "'s callback"
  assumes "win_socket (winsock env) V" and "mono (steady_clock env)" and "asks_about env V path p c"
    and "connection s = Some c" and "\<not> IsDirectory (file_info s)"
    and "fm access attributes options disposition = (acc, flags, disp)"
    and "\<not> is_directory_mode (fs_mode (entry_stat entry))"
    and "open_mode_for disp (entry \<noteq> None) (requested_ctx acc) = Inl status"
    and "in_of V c = response_bytes (stat_answer entry) @ rest"
  shows "wp (create_file env fm path access attributes disposition options) (\<lambda>r s'.
       r = Inr status \<and> unmount_called s' = unmount_called s
     \<and> (\<exists>ctx. Context (file_info s') = Some ctx \<and> fc_handle ctx = NO_HANDLE)
     \<and> (\<exists>c'. connection s' = Some c' \<and> ep_ok V c' \<and> in_of V c' = rest \<and> out_of V c' = out_of V c @ request_bytes (ReqStat p))) s"
  by (rule client.wp_create_file [OF client.intro [OF assms(1)] assms(3,2,9,4), where fm = fm, OF assms(6)])
     (use assms(5,7,8) in \<open>auto simp: create_entry_def Let_def handle_create_file_def requested_ctx_def\<close>)

text \<open>
  Opening a directory. A request for a file only is refused with
  \<open>STATUS_FILE_IS_A_DIRECTORY\<close>; otherwise Dokan is told that the entry is a directory and an
  opening that creates nothing succeeds. Nothing but the stat is sent.
\<close>

lemma drive_open_directory:
  fixes s :: "'s callback"
  assumes "win_socket (winsock env) V" and "mono (steady_clock env)" and "asks_about env V path p c"
    and "connection s = Some c" and "fm access attributes options disposition = (acc, flags, disp)"
    and "is_directory_mode (fs_mode st)" and "disp \<noteq> OPEN_ALWAYS" and "disp \<noteq> CREATE_NEW" and "disp \<noteq> CREATE_ALWAYS"
    and "in_of V c = response_bytes (RespStat st) @ rest"
  shows "wp (create_file env fm path access attributes disposition options) (\<lambda>r s'.
       r = Inr (if options AND FILE_NON_DIRECTORY_FILE \<noteq> 0 then STATUS_FILE_IS_A_DIRECTORY else STATUS_SUCCESS)
     \<and> (options AND FILE_NON_DIRECTORY_FILE = 0 \<longrightarrow> IsDirectory (file_info s')) \<and> unmount_called s' = unmount_called s
     \<and> (\<exists>c'. connection s' = Some c' \<and> ep_ok V c' \<and> in_of V c' = rest \<and> out_of V c' = out_of V c @ request_bytes (ReqStat p))) s"
proof -
  have inp: "in_of V c = response_bytes (stat_answer (Some st)) @ rest" using assms(10) by (simp add: stat_answer_def)
  show ?thesis
    by (rule client.wp_create_file [OF client.intro [OF assms(1)] assms(3,2) inp assms(4), where fm = fm, OF assms(5)])
       (use assms(6-9) in \<open>auto simp: create_entry_def Let_def op_handle_create_directory_def entry_stat_def\<close>)
qed

text \<open>
  Closing a file releases its handle on the device exactly when one was opened, and frees
  the context in either case.
\<close>

lemma drive_close_file:
  fixes s :: "'s callback"
  assumes "win_socket (winsock env) V" and "Context (file_info s) = Some ctx" and "named_status st"
    and "mounted_on V ((if fc_handle ctx = NO_HANDLE then [] else response_bytes (RespStatus st)) @ rest) s"
  shows "wp (close_file env) (\<lambda>r s'. r = Inr () \<and> Context (file_info s') = None
     \<and> conversed V rest (if fc_handle ctx = NO_HANDLE then [] else request_bytes (ReqClose (fc_handle ctx))) s
         (s'\<lparr>file_info := file_info s\<rparr>)) s"
proof (cases "fc_handle ctx = NO_HANDLE")
  case True
  show ?thesis
    unfolding close_file_def
    by (rule wp_file_callback [OF assms(4,2)]) (use True assms(4) in \<open>auto simp: conversed_def mounted_on_def\<close>)
next
  case False
  then have m: "mounted_on V (response_bytes (RespStatus st) @ rest) s" using assms(4) by simp
  have "wp (bindM (connM (req_close_file env (fc_handle ctx))) (\<lambda>_. set_file_info (\<lambda>fi. fi\<lparr>Context := None\<rparr>)))
     (\<lambda>r s'. r = Inr () \<and> Context (file_info s') = None \<and> conversed V rest (request_bytes (ReqClose (fc_handle ctx))) s
         (s'\<lparr>file_info := file_info s\<rparr>)) s"
    by (rule wp_exchange [OF client.req_close_file_spec [OF client.intro [OF assms(1)] assms(3)] m]) (auto simp: conversed_def)
  then show ?thesis
    unfolding close_file_def
    by (intro wp_file_callback [OF assms(4,2)]) (use False in \<open>simp add: thenM_def bindM_assoc del: wp_bindM\<close>)
qed

text \<open>
  C33: a file is removed when its last handle is cleaned up and only then if it was marked:
  \<open>clean_up\<close> without the delete flag does nothing at all, and with it sends the removal request
  for the kind of entry.
\<close>

theorem drive_delete_on_close:
  fixes s :: "'s callback"
  assumes "win_socket (winsock env) V" and "connection s = Some c" and "ep_ok V c"
    and "p = win32_path_to_unix (to_utf8 env) path" and "length p \<le> 65535" and "named_status st"
    and "in_of V c = response_bytes (RespStatus st) @ rest"
  shows "if DeleteOnClose (file_info s)
    then wp (clean_up env path) (\<lambda>r s'. r = Inr () \<and> file_info s' = file_info s
       \<and> (\<exists>c'. connection s' = Some c' \<and> in_of V c' = rest \<and> out_of V c' = out_of V c @
            request_bytes (if IsDirectory (file_info s) then ReqRemoveDirectory p else ReqRemoveFile p))) s
    else clean_up env path s = Some (Inr (), s)"
proof (cases "DeleteOnClose (file_info s)")
  case False
  then show ?thesis
    using assms(2) by (simp add: clean_up_def nan_handler_def catchM_def thenM_def bindM_def get_conn_def getM_def returnM_def)
next
  case True
  let ?Q = "\<lambda>r s'. r = Inr () \<and> file_info s' = file_info s
       \<and> (\<exists>c'. connection s' = Some c' \<and> in_of V c' = rest \<and> out_of V c' = out_of V c @
            request_bytes (if IsDirectory (file_info s) then ReqRemoveDirectory p else ReqRemoveFile p))"
  note cl = client.intro [OF assms(1)]
  have m: "mounted_on V (response_bytes (RespStatus st) @ rest) s" using assms(2,3,7) by (simp add: mounted_on_def)
  have "wp (bindM (connM (req_remove_directory env path)) (\<lambda>_. returnM ())) ?Q s" if "IsDirectory (file_info s)"
    by (rule wp_exchange_step [OF client.req_remove_directory_spec [OF cl assms(4) [symmetric] assms(5,6,3,7)] assms(2)])
       (use that in \<open>auto dest: io_step_conn\<close>)
  moreover have "wp (bindM (connM (req_remove_file env path)) (\<lambda>_. returnM ())) ?Q s" if "\<not> IsDirectory (file_info s)"
    by (rule wp_exchange_step [OF client.req_remove_file_spec [OF cl assms(4) [symmetric] assms(5,6,3,7)] assms(2)])
       (use that in \<open>auto dest: io_step_conn\<close>)
  ultimately have "wp (clean_up env path) ?Q s"
    unfolding clean_up_def
    by (intro wp_callback [OF m]) (simp add: True wp_bindM [of "getM _"] del: wp_bindM)
  with True show ?thesis by simp
qed

theorem drive_delete_on_close_witness:
  "clean_up ex_env (ascii ''/mnt/a'') (ex_cb (response_bytes (RespStatus Success)) (Some ex_ctx))
     = Some (Inr (), ex_cb (response_bytes (RespStatus Success)) (Some ex_ctx))"
  using drive_delete_on_close [OF ex_win, of "ex_cb (response_bytes (RespStatus Success)) (Some ex_ctx)" _ "''/mnt/a''" "ascii ''/mnt/a''" Success "[]"]
  by (simp add: named_status_def)

end
