(* ===== verification/Stat_Cache.thy ===== *)
theory Stat_Cache
  imports Timed_Cache Responses
begin

text \<open>
  \<open>nandroidfs/StatCache.cpp\<close>: the cache of file stats that \<open>TimedCache.hpp\<close> has replaced. The
  file is still in the repository but no longer built, and the header it includes is gone; the
  fields of the records below are those its functions use. It differs from its successor in one point:
  a lookup that finds an entry out of date erases it. It satisfies the same interface,
  \<open>expiring_cache\<close>, and so the replacement has changed no answer.
\<close>

section \<open>Definitions\<close>

record CachedStat =
  cs_fetched_at :: int
  cs_stat :: FileStat

record StatCache =
  sc_cache_scan_interval :: int
  sc_cached_stat_valid_for :: int
  sc_total_cache_hits :: u64
  sc_total_stats_fetched :: u64
  sc_last_cache_scan :: int
  sc_cached_stats :: "(string \<times> CachedStat) list"

definition StatCache_new :: "int \<Rightarrow> int \<Rightarrow> int \<Rightarrow> StatCache" where
  "StatCache_new now scan_interval valid_for =
     \<lparr>sc_cache_scan_interval = scan_interval, sc_cached_stat_valid_for = valid_for,
      sc_total_cache_hits = 0, sc_total_stats_fetched = 0, sc_last_cache_scan = now, sc_cached_stats = []\<rparr>"

text \<open>The hits and the fetched stats.\<close>

definition get_stat_cache_statistics :: "StatCache \<Rightarrow> u64 \<times> u64" where
  "get_stat_cache_statistics c = (sc_total_cache_hits c, sc_total_stats_fetched c)"

definition get_cached_stat :: "int \<Rightarrow> string \<Rightarrow> StatCache \<Rightarrow> FileStat option \<times> StatCache" where
  "get_cached_stat now file_path c =
     (let c = c\<lparr>sc_total_stats_fetched := sc_total_stats_fetched c + 1\<rparr>
      in case map_of (sc_cached_stats c) file_path of
           Some cached_stat \<Rightarrow>
             (if now - cs_fetched_at cached_stat \<le> ms (sc_cached_stat_valid_for c)
              then (Some (cs_stat cached_stat), c\<lparr>sc_total_cache_hits := sc_total_cache_hits c + 1\<rparr>)
              else (None, c\<lparr>sc_cached_stats := AList.delete file_path (sc_cached_stats c)\<rparr>))
         | None \<Rightarrow> (None, c))"

text \<open>The loop of \<open>clean_cache\<close>, with the number of removed entries.\<close>

fun clean_stats :: "int \<Rightarrow> int \<Rightarrow> (string \<times> CachedStat) list \<Rightarrow> int \<Rightarrow> (string \<times> CachedStat) list \<times> int" where
  "clean_stats now valid_for [] removed = ([], removed)"
| "clean_stats now valid_for ((key, cached_stat) # rest) removed =
     (if now - cs_fetched_at cached_stat > ms valid_for then clean_stats now valid_for rest (removed + 1)
      else (case clean_stats now valid_for rest removed of (kept, removed) \<Rightarrow> ((key, cached_stat) # kept, removed)))"

definition clean_stat_cache :: "int \<Rightarrow> StatCache \<Rightarrow> StatCache" where
  "clean_stat_cache now c =
     c\<lparr>sc_cached_stats := fst (clean_stats now (sc_cached_stat_valid_for c) (sc_cached_stats c) 0)\<rparr>"

definition cache_stat :: "int \<Rightarrow> int \<Rightarrow> string \<Rightarrow> FileStat \<Rightarrow> StatCache \<Rightarrow> StatCache" where
  "cache_stat now now2 file_path stat c =
     (let c = c\<lparr>sc_cached_stats := AList.update file_path \<lparr>cs_fetched_at = now, cs_stat = stat\<rparr> (sc_cached_stats c)\<rparr>
      in if now - sc_last_cache_scan c > ms (sc_cache_scan_interval c)
         then clean_stat_cache now2 (c\<lparr>sc_last_cache_scan := now\<rparr>)
         else c)"

definition invalidate_stat :: "string \<Rightarrow> StatCache \<Rightarrow> StatCache" where
  "invalidate_stat file_path c =
     (if map_of (sc_cached_stats c) file_path = None then c
      else c\<lparr>sc_cached_stats := AList.delete file_path (sc_cached_stats c)\<rparr>)"

section \<open>The interface\<close>

definition stat_entry :: "StatCache \<Rightarrow> string \<Rightarrow> (FileStat \<times> int) option" where
  "stat_entry c k = map_option (\<lambda>d. (cs_stat d, cs_fetched_at d)) (map_of (sc_cached_stats c) k)"

definition stat_window :: "StatCache \<Rightarrow> int" where
  "stat_window c = ms (sc_cached_stat_valid_for c)"

definition stat_inv :: "StatCache \<Rightarrow> bool" where
  "stat_inv c \<longleftrightarrow> distinct (map fst (sc_cached_stats c))"

lemma clean_stats_filter:
  "clean_stats now valid_for es n =
     (filter (\<lambda>(k, d). \<not> now - cs_fetched_at d > ms valid_for) es,
      n + int (length (filter (\<lambda>(k, d). now - cs_fetched_at d > ms valid_for) es)))"
  by (induction now valid_for es n rule: clean_stats.induct) auto

lemma map_of_filter_distinct:
  "distinct (map fst es) \<Longrightarrow> map_of (filter (\<lambda>(k, d). P d) es) k
     = (case map_of es k of None \<Rightarrow> None | Some d \<Rightarrow> if P d then Some d else None)"
proof (induction es)
  case (Cons e es)
  then have "fst e \<notin> dom (map_of es)" by (auto simp: dom_map_of_conv_image_fst)
  with Cons show ?case by (cases e) (auto simp: domIff split: option.splits)
qed simp

lemma stat_inv_ops:
  assumes "stat_inv c"
  shows "stat_inv (snd (get_cached_stat now k c))" and "stat_inv (cache_stat now now2 k v c)"
    and "stat_inv (invalidate_stat k c)"
  using assms
  by (auto simp: stat_inv_def get_cached_stat_def cache_stat_def clean_stat_cache_def invalidate_stat_def Let_def
      clean_stats_filter distinct_map_filter distinct_update AList.distinct_delete split: option.splits)

interpretation stat: expiring_cache get_cached_stat cache_stat invalidate_stat stat_entry stat_window stat_inv
proof
  fix c :: StatCache and now now2 :: int and k k' :: string and v :: FileStat
  assume inv: "stat_inv c"
  show "fst (get_cached_stat now k c) = (case stat_entry c k of None \<Rightarrow> None
      | Some (v, t) \<Rightarrow> if now - t \<le> stat_window c then Some v else None)"
    by (auto simp: get_cached_stat_def stat_entry_def stat_window_def Let_def split: option.splits)
  show "stat_entry (snd (get_cached_stat now k c)) k' = stat_entry c k'
      \<or> (stat_entry (snd (get_cached_stat now k c)) k' = None
         \<and> (\<exists>w t. stat_entry c k' = Some (w, t) \<and> now - t > stat_window c))"
    by (auto simp: get_cached_stat_def stat_entry_def stat_window_def Let_def delete_conv' split: option.splits)
  show "stat_inv (snd (get_cached_stat now k c)) \<and> stat_window (snd (get_cached_stat now k c)) = stat_window c"
    using stat_inv_ops(1) [OF inv] by (auto simp: get_cached_stat_def stat_window_def Let_def split: option.splits)
  show "stat_entry (cache_stat now now2 k v c) k' = ((stat_entry c)(k \<mapsto> (v, now))) k'
      \<or> (stat_entry (cache_stat now now2 k v c) k' = None
         \<and> (\<exists>w t. ((stat_entry c)(k \<mapsto> (v, now))) k' = Some (w, t) \<and> now2 - t > stat_window c))"
    using inv by (auto simp: cache_stat_def clean_stat_cache_def stat_inv_def stat_entry_def stat_window_def Let_def
        clean_stats_filter map_of_filter_distinct distinct_update update_conv' split: option.splits)
  show "stat_inv (cache_stat now now2 k v c) \<and> stat_window (cache_stat now now2 k v c) = stat_window c"
    using stat_inv_ops(2) [OF inv] by (simp add: cache_stat_def clean_stat_cache_def stat_window_def Let_def)
  show "stat_entry (invalidate_stat k c) = (stat_entry c)(k := None)"
    by (auto simp: invalidate_stat_def stat_entry_def fun_eq_iff delete_conv')
  show "stat_inv (invalidate_stat k c) \<and> stat_window (invalidate_stat k c) = stat_window c"
    using stat_inv_ops(3) [OF inv] by (simp add: invalidate_stat_def stat_window_def)
qed

section \<open>The two caches\<close>

text \<open>
  After the same history of operations at the same times, the old cache and its successor give
  the same answers, although the old one erases what it finds out of date.
\<close>

theorem stat_cache_replaced:
  assumes "sorted (t0 # readings ops)"
  shows "stat.answers ops (StatCache_new t0 scan valid_for) = timed.answers ops (TimedCache_new t0 scan valid_for)"
proof -
  let ?old = "StatCache_new t0 scan valid_for" and ?new = "TimedCache_new t0 scan valid_for :: FileStat TimedCache"
  have "stat.answers ops ?old = spec_answers (ms valid_for) Map.empty ops"
    using stat.answers_spec [of ?old t0 Map.empty ops] assms
    by (simp add: stat_inv_def stat_entry_def stat_window_def StatCache_new_def stat.agrees_def)
  moreover have "timed.answers ops ?new = spec_answers (ms valid_for) Map.empty ops"
    using timed.answers_spec [of ?new t0 Map.empty ops] assms
    by (simp add: cache_inv_def cache_entry_def cache_window_def TimedCache_new_def timed.agrees_def)
  ultimately show ?thesis by simp
qed

end
