(* ===== verification/Text_Lines.thy ===== *)
theory Text_Lines
  imports Prelude
begin

text \<open>
  Text output taken apart at line ends, as \<open>DeviceTracker::list_authorized_adb_devices\<close> and
  \<open>Nandroid::handle_daemon_output\<close> do: \<open>find_from\<close> is \<open>std::string::find\<close>, \<open>line_loop\<close> the
  loop both functions have (\<open>prev_newline_pos + 1\<close>, with \<open>npos + 1 = 0\<close> at the start, is the
  position \<open>start\<close>), and \<open>split_lines\<close> the specification: the complete lines and what
  follows the last of them. Numbers are written in decimal by \<open>dec_string\<close>, and wide string
  literals (\<open>L"adb"\<close>) by \<open>wide\<close>.
\<close>

abbreviation newline :: char where
  "newline \<equiv> CHR 0x0A"

definition find_from :: "char \<Rightarrow> nat \<Rightarrow> string \<Rightarrow> nat option" where
  "find_from c pos s =
     (let i = pos + length (takeWhile (\<lambda>x. x \<noteq> c) (drop pos s)) in if i < length s then Some i else None)"

lemma find_from_bounds: "find_from c pos s = Some i \<Longrightarrow> pos \<le> i \<and> i < length s"
  by (auto simp: find_from_def Let_def split: if_splits)

function line_loop :: "(nat \<Rightarrow> nat \<Rightarrow> 'a \<Rightarrow> 'a) \<Rightarrow> string \<Rightarrow> nat \<Rightarrow> 'a \<Rightarrow> nat \<times> 'a" where
  "line_loop body buf start a =
     (case find_from newline start buf of
        None \<Rightarrow> (start, a)
      | Some next \<Rightarrow> line_loop body buf (Suc next) (body start next a))"
  by pat_completeness auto
termination
  by (relation "measure (\<lambda>(body, buf, start, a). length buf - start)") (auto dest!: find_from_bounds)

declare line_loop.simps [simp del]

fun split_lines :: "string \<Rightarrow> string list \<times> string" where
  "split_lines [] = ([], [])"
| "split_lines (c # cs) =
     (case split_lines cs of (ls, r) \<Rightarrow>
        if c = newline then ([] # ls, r)
        else (case ls of [] \<Rightarrow> ([], c # r) | l # ls' \<Rightarrow> ((c # l) # ls', r)))"

lemma split_lines_no_newline: "newline \<notin> set s \<Longrightarrow> split_lines s = ([], s)"
  by (induction s) auto

lemma split_lines_line: "newline \<notin> set l \<Longrightarrow> split_lines (l @ newline # s) = (l # fst (split_lines s), snd (split_lines s))"
  by (induction l) (auto split: prod.splits)

lemma split_lines_cases:
  obtains (none) "newline \<notin> set s" "split_lines s = ([], s)"
  | (line) l s' where "s = l @ newline # s'" "newline \<notin> set l" "split_lines s = (l # fst (split_lines s'), snd (split_lines s'))"
proof (cases "newline \<in> set s")
  case True
  from split_list_first [OF this] obtain l s' where "s = l @ newline # s'" "newline \<notin> set l" by auto
  then show thesis using line split_lines_line by metis
qed (use none split_lines_no_newline in metis)

lemma split_lines_snd [simp]: "newline \<notin> set (snd (split_lines s))"
proof (induction "length s" arbitrary: s rule: less_induct)
  case less
  then show ?case by (cases rule: split_lines_cases [of s]) auto
qed

text \<open>Text that arrives in pieces has the lines of the whole.\<close>

lemma split_lines_append:
  "split_lines (s @ t) = (fst (split_lines s) @ fst (split_lines (snd (split_lines s) @ t)), snd (split_lines (snd (split_lines s) @ t)))"
proof (induction "length s" arbitrary: s rule: less_induct)
  case less
  show ?case
  proof (cases rule: split_lines_cases [of s])
    case (line l s')
    with less [of s'] have "split_lines (s' @ t)
        = (fst (split_lines s') @ fst (split_lines (snd (split_lines s') @ t)), snd (split_lines (snd (split_lines s') @ t)))" by simp
    with line split_lines_line [OF line(2), of "s' @ t"] show ?thesis by simp
  qed simp
qed

lemma find_from_line:
  assumes "drop pos s = l @ c # s'" and "c \<notin> set l"
  shows "find_from c pos s = Some (pos + length l)"
proof -
  have "pos + length l < length s"
    using arg_cong [OF assms(1), of length] by simp
  moreover have "takeWhile (\<lambda>x. x \<noteq> c) (drop pos s) = l"
    unfolding assms(1) using assms(2) by (induction l) auto
  ultimately show ?thesis by (simp add: find_from_def)
qed

lemma find_from_none:
  assumes "c \<notin> set (drop pos s)"
  shows "find_from c pos s = None"
proof -
  have "takeWhile (\<lambda>x. x \<noteq> c) (drop pos s) = drop pos s"
    using assms by (auto simp: takeWhile_eq_all_conv)
  then show ?thesis by (simp only: find_from_def) (simp add: Let_def)
qed

text \<open>
  A loop whose body does to \<open>view a\<close> what \<open>f\<close> does with the line: it has processed exactly the
  complete lines, in order, and stops at the start of the unfinished one.
\<close>

lemma line_loop_lines:
  assumes "\<And>start l s' a. drop start buf = l @ newline # s' \<Longrightarrow> newline \<notin> set l \<Longrightarrow>
      view (body start (start + length l) a) = f l (view a)"
  shows "view (snd (line_loop body buf start a)) = fold f (fst (split_lines (drop start buf))) (view a)
    \<and> drop (fst (line_loop body buf start a)) buf = snd (split_lines (drop start buf))"
proof (induction "length buf - start" arbitrary: start a rule: less_induct)
  case less
  show ?case
  proof (cases rule: split_lines_cases [of "drop start buf"])
    case none
    then show ?thesis by (subst line_loop.simps, subst (2) line_loop.simps) (simp add: find_from_none)
  next
    case (line l s')
    have fnd: "find_from newline start buf = Some (start + length l)" by (rule find_from_line [OF line(1,2)])
    have nxt: "drop (Suc (start + length l)) buf = s'"
      using arg_cong [OF line(1), of "drop (Suc (length l))"] by (simp add: add.commute)
    have "length buf - Suc (start + length l) < length buf - start"
      using find_from_bounds [OF fnd] by linarith
    from less [OF this, of "body start (start + length l) a"] show ?thesis
      by (subst line_loop.simps, subst (2) line_loop.simps) (simp add: fnd nxt line(3) assms [OF line(1,2)])
  qed
qed

fun dec_string :: "nat \<Rightarrow> string" where
  "dec_string n = (if n < 10 then [char_of (48 + n)] else dec_string (n div 10) @ [char_of (48 + n mod 10)])"

declare dec_string.simps [simp del]

text \<open>A wide string literal of the source, all ASCII.\<close>

definition wide :: "string \<Rightarrow> wstring" where
  "wide = map (\<lambda>c. of_char c)"

end
