(* ===== verification/Connecting.thy ===== *)
theory Connecting
  imports Connection Text_Lines
begin

text \<open>
  The constructor and the destructor of \<open>Connection\<close>: resolving the address, trying each result in turn, and the
  handshake. The Winsock calls are parameters; \<open>'s\<close> is a socket, \<open>'k\<close> the state of the
  library.
\<close>

record ('s, 'a, 'k) resolver =
  wsa_startup :: "'k \<Rightarrow> int \<times> 'k"
  wsa_cleanup :: "'k \<Rightarrow> 'k"
  getaddrinfo :: "string \<Rightarrow> string \<Rightarrow> 'k \<Rightarrow> (int + 'a list) \<times> 'k"
  new_socket :: "'a \<Rightarrow> 'k \<Rightarrow> (int + 's) \<times> 'k"
  connect :: "'s \<Rightarrow> 'a \<Rightarrow> 'k \<Rightarrow> (bool \<times> 's) \<times> 'k"
  closesocket :: "'s \<Rightarrow> 'k \<Rightarrow> 's \<times> 'k"

text \<open>
  The loop over the addresses; \<open>None\<close> is \<open>INVALID_SOCKET\<close>, the value before the first
  iteration. After a failed \<open>connect\<close> the variable keeps the socket that was just closed.
\<close>

fun connect_loop :: "('s, 'a, 'k) resolver \<Rightarrow> 'a list \<Rightarrow> 's option \<Rightarrow> 'k \<Rightarrow> (exn + 's option) \<times> 'k" where
  "connect_loop R [] connect_socket k = (Inr connect_socket, k)"
| "connect_loop R (addr # addrs) connect_socket k =
     (case new_socket R addr k of
        (Inl err, k) \<Rightarrow> (Inl (WinSockException err), k)
      | (Inr sock, k) \<Rightarrow>
          (case connect R sock addr k of
             ((True, sock), k) \<Rightarrow> (Inr (Some sock), k)
           | ((False, sock), k) \<Rightarrow>
               (case closesocket R sock k of (sock, k) \<Rightarrow> connect_loop R addrs (Some sock) k)))"

definition connect_any :: "('s, 'a, 'k) resolver \<Rightarrow> string \<Rightarrow> u16 \<Rightarrow> 'k \<Rightarrow> (exn + 's) \<times> 'k" where
  "connect_any R address port k =
     (case getaddrinfo R (c_str address) (dec_string (unat port)) k of
        (Inl err, k) \<Rightarrow> (if err \<noteq> 0 then Inl (WinSockException err) else Inl UndefinedBehaviour, k)
      | (Inr addrs, k) \<Rightarrow>
          (case connect_loop R addrs None k of
             (Inl e, k) \<Rightarrow> (Inl e, k)
           | (Inr None, k) \<Rightarrow> (Inl (RuntimeError ''Unable to connect to daemon; none of the supplied addresses led to a successful connection''), k)
           | (Inr (Some sock), k) \<Rightarrow> (Inr sock, k)))"

text \<open>The whole constructor; on an exception the library is released before it is passed on.\<close>

definition Connection_new ::
  "('s, 'a, 'k) resolver \<Rightarrow> 's conn_env \<Rightarrow> string \<Rightarrow> u16 \<Rightarrow> 'k \<Rightarrow> ((exn + 's Connection) \<times> 'k) option" where
  "Connection_new R env address port k =
     (case wsa_startup R k of (err, k) \<Rightarrow>
        if err \<noteq> 0 then Some (Inl (WinSockException err), k)
        else (case connect_any R address port k of
                (Inl e, k) \<Rightarrow> Some (Inl e, if is_exception e then wsa_cleanup R k else k)
              | (Inr sock, k) \<Rightarrow>
                  (case handshake env (Connection_init env sock) of
                     None \<Rightarrow> None
                   | Some (Inl e, c) \<Rightarrow> Some (Inl e, if is_exception e then wsa_cleanup R k else k)
                   | Some (Inr _, c) \<Rightarrow> Some (Inr c, k))))"

text \<open>The destructor of a release build.\<close>

definition Connection_delete :: "('s, 'a, 'k) resolver \<Rightarrow> 's Connection \<Rightarrow> 'k \<Rightarrow> 'k" where
  "Connection_delete R c k = (case closesocket R (socket c) k of (_, k) \<Rightarrow> wsa_cleanup R k)"

section \<open>Lemmas\<close>

text \<open>
  When there is an address, the loop never ends with \<open>INVALID_SOCKET\<close>.
\<close>

lemma connect_loop_never_invalid:
  assumes "connect_loop R addrs cur k = (Inr res, k')" and "addrs \<noteq> [] \<or> cur \<noteq> None"
  shows "res \<noteq> None"
  using assms
  by (induction R addrs cur k rule: connect_loop.induct) (auto split: prod.splits sum.splits bool.splits)

end
