(* ===== verification/Logger.thy ===== *)
theory Logger
  imports Text_Lines
begin

text \<open>
  \<open>nandroidfs/Logger.cpp\<close> and \<open>Logger.hpp\<close>: log levels, the sink that writes to the standard
  output, and loggers with a context. The state of a computation is the list of the lines
  written so far; a message is given after formatting.
\<close>

datatype LogLevel = Trace | Debug | Info | Warn | Error

text \<open>Levels are compared by their integer values.\<close>

fun level_value :: "LogLevel \<Rightarrow> int" where
  "level_value Trace = 0"
| "level_value Debug = 1"
| "level_value Info = 2"
| "level_value Warn = 3"
| "level_value Error = 4"

lemma level_value_inject: "level_value a = level_value b \<longleftrightarrow> a = b"
  by (cases a; cases b) simp_all

instantiation LogLevel :: linorder
begin

definition less_eq_LogLevel :: "LogLevel \<Rightarrow> LogLevel \<Rightarrow> bool" where
  "less_eq_LogLevel a b \<longleftrightarrow> level_value a \<le> level_value b"

definition less_LogLevel :: "LogLevel \<Rightarrow> LogLevel \<Rightarrow> bool" where
  "less_LogLevel a b \<longleftrightarrow> level_value a < level_value b"

instance
  by standard (auto simp: less_eq_LogLevel_def less_LogLevel_def level_value_inject [symmetric])

end

fun get_log_level_name :: "LogLevel \<Rightarrow> string" where
  "get_log_level_name Trace = ''TCE''"
| "get_log_level_name Debug = ''DBG''"
| "get_log_level_name Info = ''INF''"
| "get_log_level_name Warn = ''WAR''"
| "get_log_level_name Error = ''ERR''"

definition StdOutSink_log :: "LogLevel \<Rightarrow> string \<Rightarrow> string \<Rightarrow> (string list, unit) M" where
  "StdOutSink_log level context message =
     modifyM (\<lambda>lines. lines @ [''['' @ get_log_level_name level @ ''('' @ context @ '')] '' @ message])"

record ContextLogger =
  min_level :: LogLevel
  log_context :: string

definition with_context :: "ContextLogger \<Rightarrow> string \<Rightarrow> LogLevel option \<Rightarrow> ContextLogger" where
  "with_context lg new_context new_min_level =
     \<lparr>min_level = (case new_min_level of None \<Rightarrow> min_level lg | Some l \<Rightarrow> l),
      log_context = log_context lg @ '', '' @ new_context\<rparr>"

definition replace_context :: "ContextLogger \<Rightarrow> string \<Rightarrow> LogLevel option \<Rightarrow> ContextLogger" where
  "replace_context lg new_context new_min_level =
     \<lparr>min_level = (case new_min_level of None \<Rightarrow> min_level lg | Some l \<Rightarrow> l), log_context = new_context\<rparr>"

definition logger_log :: "ContextLogger \<Rightarrow> LogLevel \<Rightarrow> string \<Rightarrow> (string list, unit) M" where
  "logger_log lg level message =
     (if min_level lg \<le> level then StdOutSink_log level (log_context lg) message else returnM ())"

definition logger_trace :: "ContextLogger \<Rightarrow> string \<Rightarrow> (string list, unit) M" where
  "logger_trace lg message = logger_log lg Trace message"

definition logger_debug :: "ContextLogger \<Rightarrow> string \<Rightarrow> (string list, unit) M" where
  "logger_debug lg message = logger_log lg Debug message"

definition logger_info :: "ContextLogger \<Rightarrow> string \<Rightarrow> (string list, unit) M" where
  "logger_info lg message = logger_log lg Info message"

definition logger_warn :: "ContextLogger \<Rightarrow> string \<Rightarrow> (string list, unit) M" where
  "logger_warn lg message = logger_log lg Warn message"

definition logger_error :: "ContextLogger \<Rightarrow> string \<Rightarrow> (string list, unit) M" where
  "logger_error lg message = logger_log lg Error message"

text \<open>The loggers that \<open>WinMain\<close>, \<open>DeviceTracker\<close> and \<open>Nandroid\<close> derive from one another.\<close>

definition agent_logger :: "ContextLogger \<Rightarrow> string \<Rightarrow> ContextLogger" where
  "agent_logger parent_logger device_serial =
     with_context (replace_context parent_logger device_serial None) ''agent_std(out|err)'' None"

lemma agent_logger_line:
  assumes "min_level parent_logger \<le> Debug"
  shows "wp (logger_debug (agent_logger parent_logger serial) line)
    (\<lambda>r lines. r = Inr () \<and> lines = old @ [''[DBG('' @ serial @ '', agent_std(out|err))] '' @ line]) old"
  using assms by (simp add: logger_debug_def logger_log_def agent_logger_def with_context_def replace_context_def StdOutSink_log_def)

end
