(* ===== verification/Traffic_Log.thy ===== *)
theory Traffic_Log
  imports Connecting Logger
begin

text \<open>
  The traffic log of debug builds (the parts of \<open>Connection.cpp\<close> under \<open>_DEBUG\<close>): \<open>read\<close> and
  \<open>write\<close> count the bytes they move, and a thread reports the counts every second under
  \<open>request_mutex\<close> and resets them, until the destructor tells it to stop. The theorems show that
  the debug build moves the same bytes as the release build and that each report is the
  number of whole KiB moved since the previous one, as long as the \<open>int\<close> counters
  do not overflow.
\<close>

section \<open>Definitions\<close>

record 's DebugConnection = "'s Connection" +
  data_written :: int
  data_read :: int
  kill_data_log :: bool

text \<open>The addition of two \<open>int\<close>s, without a meaning when the sum is no \<open>int\<close>.\<close>

definition add_int :: "int \<Rightarrow> int \<Rightarrow> exn + int" where
  "add_int a b = (if - (2 ^ 31) \<le> a + b \<and> a + b < 2 ^ 31 then Inr (a + b) else Inl UndefinedBehaviour)"

definition count_read :: "int \<Rightarrow> ('s DebugConnection, unit) M" where
  "count_read result s = (case add_int (data_read s) result of
     Inl e \<Rightarrow> throwM e s | Inr n \<Rightarrow> returnM () (s\<lparr>data_read := n\<rparr>))"

definition count_written :: "int \<Rightarrow> ('s DebugConnection, unit) M" where
  "count_written result s = (case add_int (data_written s) result of
     Inl e \<Rightarrow> throwM e s | Inr n \<Rightarrow> returnM () (s\<lparr>data_written := n\<rparr>))"

definition debug_read :: "('s, int) socket_api \<Rightarrow> int \<Rightarrow> ('s DebugConnection, u8 list) M" where
  "debug_read net len s =
     (case recv net (socket s) len of
        (Inl err, t) \<Rightarrow> throwM (WinSockException err) (s\<lparr>socket := t\<rparr>)
      | (Inr bs, t) \<Rightarrow> thenM (count_read (int (length bs))) (returnM bs) (s\<lparr>socket := t\<rparr>))"

partial_function (option) debug_write ::
  "('s, int) socket_api \<Rightarrow> u8 list \<Rightarrow> int \<Rightarrow> 's DebugConnection \<Rightarrow> ((exn + unit) \<times> 's DebugConnection) option" where
  "debug_write net buffer len s =
     (if len > 0
      then (case send net (socket s) (take (nat len) buffer) of (res, t) \<Rightarrow>
              (case res of
                 Inl err \<Rightarrow> throwM (WinSockException err) (s\<lparr>socket := t\<rparr>)
               | Inr result \<Rightarrow> bindM (count_written result)
                   (\<lambda>_. debug_write net (drop (nat result) buffer) (len - result)) (s\<lparr>socket := t\<rparr>)))
      else returnM () s)"

declare debug_write.simps [code]

definition dec_int :: "int \<Rightarrow> string" where
  "dec_int n = (if n < 0 then ''-'' @ dec_string (nat (- n)) else dec_string (nat n))"

text \<open>
  One turn of the thread's loop, between taking and releasing the mutex: whether the loop goes on,
  and the connection after it. The lines of the log are the state.
\<close>

definition data_log_turn :: "ContextLogger \<Rightarrow> 's DebugConnection \<Rightarrow> (string list, bool \<times> 's DebugConnection) M" where
  "data_log_turn logger s =
     (if kill_data_log s then returnM (False, s)
      else
        let written_kb = drop_bit 10 (data_written s);
            read_kb = drop_bit 10 (data_read s)
        in thenM (logger_debug logger (''wrote '' @ dec_int written_kb @ ''KiB, read '' @ dec_int read_kb @ ''KiB''))
             (returnM (True, s\<lparr>data_written := 0, data_read := 0\<rparr>)))"

text \<open>The destructor's request to the thread.\<close>

definition stop_data_log :: "'s DebugConnection \<Rightarrow> 's DebugConnection" where
  "stop_data_log s = s\<lparr>kill_data_log := True\<rparr>"

section \<open>Lemmas\<close>

lemma add_int_ok [simp]: "0 \<le> a \<Longrightarrow> 0 \<le> b \<Longrightarrow> a + b < 2 ^ 31 \<Longrightarrow> add_int a b = Inr (a + b)"
  by (simp add: add_int_def)

lemma add_int_overflow: "2 ^ 31 \<le> a + b \<Longrightarrow> add_int a b = Inl UndefinedBehaviour"
  by (simp add: add_int_def)

lemma accepts_update:
  fixes s :: "('s, 'z) endpoint_scheme"
  shows "accepts V bs s (Inr ()) (s\<lparr>socket := t\<rparr>) \<longleftrightarrow> usable V t
    \<and> outgoing V t = outgoing V (socket s) @ bs \<and> incoming V t = incoming V (socket s)"
proof -
  have "t = t'" if "s\<lparr>socket := t\<rparr> = s\<lparr>socket := t'\<rparr>" for t'
    using arg_cong [OF that, of socket] by simp
  then show ?thesis by (auto simp: accepts_def)
qed

context win_socket
begin

text \<open>A read counts what it returns, and moves what the release build's read moves.\<close>

lemma debug_read_spec:
  assumes "usable V (socket s)" and "0 < n" and "0 \<le> data_read s" and "data_read s + n < 2 ^ 31"
  shows "wp (debug_read net n) (\<lambda>r s'. \<exists>bs t. r = Inr bs \<and> delivers V n s (Inr bs) (s\<lparr>socket := t\<rparr>)
    \<and> s' = s\<lparr>socket := t, data_read := data_read s + int (length bs)\<rparr>) s"
proof -
  from recv_law [OF assms(1,2)] obtain bs t where t: "recv net (socket s) n = (Inr bs, t)" "usable V t"
      "incoming V (socket s) = bs @ incoming V t" "outgoing V t = outgoing V (socket s)" "int (length bs) \<le> n"
      "bs = [] \<longrightarrow> incoming V (socket s) = []" by blast
  then have "delivers V n s (Inr bs) (s\<lparr>socket := t\<rparr>)" by (auto simp: delivers_def)
  moreover have "debug_read net n s = Some (Inr bs, s\<lparr>socket := t, data_read := data_read s + int (length bs)\<rparr>)"
    using t assms by (simp add: debug_read_def thenM_def bindM_def returnM_def count_read_def)
  ultimately show ?thesis by (intro wpI) auto
qed

text \<open>A write hands over all the bytes, in whatever pieces, and counts each of them once.\<close>

lemma debug_write_spec:
  assumes "usable V (socket s)" and "0 \<le> n" and "n \<le> int (length bs)"
    and "0 \<le> data_written s" and "data_written s + n < 2 ^ 31"
  shows "wp (debug_write net bs n) (\<lambda>r s'. \<exists>t. r = Inr () \<and> accepts V (take (nat n) bs) s (Inr ()) (s\<lparr>socket := t\<rparr>)
    \<and> s' = s\<lparr>socket := t, data_written := data_written s + n\<rparr>) s"
  using assms
proof (induction "nat n" arbitrary: n bs s rule: less_induct)
  case less
  show ?case
  proof (cases "0 < n")
    case False
    with less.prems have "n = 0" by simp
    then have "debug_write net bs n s = Some (Inr (), s)" by (simp add: debug_write.simps returnM_def)
    then show ?thesis
      using less.prems(1) \<open>n = 0\<close> by (intro wpI) (auto simp: accepts_update intro!: exI [of _ "socket s"])
  next
    case True
    with less.prems have "take (nat n) bs \<noteq> []" by auto
    from send_law [OF less.prems(1) this] obtain k t where
      snd: "send net (socket s) (take (nat n) bs) = (Inr k, t)" and t: "usable V t"
      and k: "1 \<le> k" "k \<le> int (length (take (nat n) bs))"
      and out: "outgoing V t = outgoing V (socket s) @ take (nat k) (take (nat n) bs)"
      and inc: "incoming V t = incoming V (socket s)"
      by blast
    let ?s = "s\<lparr>socket := t, data_written := data_written s + k\<rparr>"
    have kn: "k \<le> n" using k True by simp
    have "debug_write net bs n s = debug_write net (drop (nat k) bs) (n - k) ?s"
      using True snd less.prems k kn
      by (subst debug_write.simps) (simp add: bindM_def count_written_def returnM_def)
    moreover have "take (nat k) (take (nat n) bs) @ take (nat (n - k)) (drop (nat k) bs) = take (nat n) bs"
      using k kn by (simp add: min_absorb1 take_add [symmetric] nat_add_distrib [symmetric])
    moreover have "wp (debug_write net (drop (nat k) bs) (n - k)) (\<lambda>r s'. \<exists>t. r = Inr ()
        \<and> accepts V (take (nat (n - k)) (drop (nat k) bs)) ?s (Inr ()) (?s\<lparr>socket := t\<rparr>)
        \<and> s' = ?s\<lparr>socket := t, data_written := data_written ?s + (n - k)\<rparr>) ?s"
      using less.prems k kn t True by (intro less.hyps) auto
    ultimately show ?thesis
      using out inc unfolding accepts_update by (auto simp: wp_iff)
  qed
qed

end

text \<open>
  Each report tells the whole KiB written and read since the previous one: a turn that finds the
  counters at \<open>w\<close> and \<open>r\<close> writes \<open>w div 1024\<close> and \<open>r div 1024\<close>, drops the remainders, and the
  counters start again at zero.
\<close>

lemma data_log_turn_report:
  assumes "\<not> kill_data_log s" and "min_level logger \<le> Debug"
  shows "wp (data_log_turn logger s) (\<lambda>r lines. r = Inr (True, s\<lparr>data_written := 0, data_read := 0\<rparr>)
    \<and> lines = old @ [''[DBG('' @ log_context logger @ '')] wrote '' @ dec_int (data_written s div 1024)
        @ ''KiB, read '' @ dec_int (data_read s div 1024) @ ''KiB'']) old"
  using assms by (simp add: data_log_turn_def Let_def logger_debug_def logger_log_def StdOutSink_log_def drop_bit_eq_div)

text \<open>After the destructor's request the next turn ends the thread, so that the destructor's \<open>join\<close> returns.\<close>

lemma data_log_stops: "wp (data_log_turn logger (stop_data_log s)) (\<lambda>r lines. r = Inr (False, stop_data_log s) \<and> lines = old) old"
  by (simp add: data_log_turn_def stop_data_log_def)

text \<open>
  The counters are \<open>int\<close>s that only the thread resets, and a request holds the mutex for its
  whole exchange: a read or write that takes a counter past \<open>2 ^ 31 - 1\<close> is undefined.
\<close>

lemma count_overflow:
  assumes "2 ^ 31 \<le> data_written s + n"
  shows "wp (count_written n) (\<lambda>r s'. r = Inl UndefinedBehaviour) s"
  using assms by (simp add: count_written_def add_int_overflow wp_def throwM_def)

end
