(* ===== verification/Request_Programs.thy ===== *)
theory Request_Programs
  imports Client
begin

text \<open>
  Several threads on one \<open>Connection\<close>. Dokan runs the callbacks on a pool of threads
  (\<open>SingleThread\<close> is off), so the request functions of \<open>Connection.cpp\<close> run concurrently on
  one object. Everything that touches the socket, the reader and the writer is under
  \<open>request_mutex\<close>; a stat request and a listing first look into the caches without it. Each
  function is given again here as a program of atomic actions, split at the point where it
  takes the mutex, and is shown to be the function of \<open>Connection\<close> when it runs alone.
\<close>

section \<open>Programs of atomic actions\<close>

text \<open>
  A program has returned (or thrown), or performs one action on the shared object and goes
  on. An action that starts the writing of a request is labelled with the request; the label
  is for the specification only.
\<close>

codatatype ('s, 'r) prog =
    Return "exn + 'r"
  | Act "request option" "'s \<Rightarrow> (('s, 'r) prog \<times> 's) option"

definition action :: "request option \<Rightarrow> ('s, 'a) M \<Rightarrow> ('a \<Rightarrow> ('s, 'r) prog) \<Rightarrow> ('s, 'r) prog" where
  "action l m k = Act l (\<lambda>s. map_option (\<lambda>(r, s'). (case r of Inl e \<Rightarrow> Return (Inl e) | Inr a \<Rightarrow> k a, s')) (m s))"

abbreviation act :: "('s, 'a) M \<Rightarrow> ('a \<Rightarrow> ('s, 'r) prog) \<Rightarrow> ('s, 'r) prog" where
  "act \<equiv> action None"

text \<open>The program running alone.\<close>

partial_function (option) run_alone :: "('s, 'r) prog \<Rightarrow> 's \<Rightarrow> ((exn + 'r) \<times> 's) option" where
  "run_alone p s = (case p of
       Return r \<Rightarrow> Some (r, s)
     | Act l f \<Rightarrow> Option.bind (f s) (\<lambda>(p', s'). run_alone p' s'))"

declare run_alone.simps [code]

lemma run_alone_simps [simp]:
  "run_alone (Return (Inr r)) = returnM r" "run_alone (Return (Inl e)) = throwM e"
  "run_alone (action l m k) = bindM m (\<lambda>a. run_alone (k a))"
proof -
  show "run_alone (Return (Inr r)) = returnM r" "run_alone (Return (Inl e)) = throwM e"
    by (auto simp: fun_eq_iff run_alone.simps returnM_def throwM_def)
  have "run_alone (action l m k) s = bindM m (\<lambda>a. run_alone (k a)) s" for s
    by (subst run_alone.simps, cases "m s")
       (auto simp: action_def bindM_def run_alone.simps [of "Return _"] split: sum.split)
  then show "run_alone (action l m k) = bindM m (\<lambda>a. run_alone (k a))" by blast
qed

section \<open>Calls\<close>

text \<open>The requests a callback can make, with their arguments, and what they give back.\<close>

datatype call =
    CallStat wstring | CallList wstring | CallMove wstring wstring bool
  | CallRemoveFile wstring | CallCanRemoveFile wstring
  | CallRemoveDirectory wstring | CallCanRemoveDirectory wstring | CallCreateDirectory wstring
  | CallOpen wstring OpenMode bool bool | CallClose FILE_HANDLE
  | CallWrite FILE_HANDLE u64 "u8 list" u32 | CallRead FILE_HANDLE u64 u32
  | CallSetLen FILE_HANDLE u64 | CallSetTime wstring u64 u64 | CallDiskStats

datatype reply =
    StatusReply ResponseStatus
  | StatReply ResponseStatus "FileStat option"
  | ListReply ResponseStatus "(FileStat \<times> wstring) list"
  | OpenReply ResponseStatus "FILE_HANDLE option"
  | DataReply ResponseStatus "(int \<times> u8 list) option"
  | DiskReply ResponseStatus "DiskStats option"

definition fmapM :: "('a \<Rightarrow> 'b) \<Rightarrow> ('s, 'a) M \<Rightarrow> ('s, 'b) M" where
  "fmapM f m = bindM m (\<lambda>a. returnM (f a))"

fun perform :: "'s conn_env \<Rightarrow> call \<Rightarrow> ('s Connection, reply) M" where
  "perform env (CallStat path) = fmapM (\<lambda>(st, out). StatReply st out) (req_stat_file env path)"
| "perform env (CallList path) = fmapM (\<lambda>(st, calls). ListReply st calls) (req_list_file_stats env path)"
| "perform env (CallMove from to replace_if_exists) = fmapM StatusReply (req_move_entry env from to replace_if_exists)"
| "perform env (CallRemoveFile path) = fmapM StatusReply (req_remove_file env path)"
| "perform env (CallCanRemoveFile path) = fmapM StatusReply (req_can_remove_file env path)"
| "perform env (CallRemoveDirectory path) = fmapM StatusReply (req_remove_directory env path)"
| "perform env (CallCanRemoveDirectory path) = fmapM StatusReply (req_can_remove_directory env path)"
| "perform env (CallCreateDirectory path) = fmapM StatusReply (req_create_directory env path)"
| "perform env (CallOpen path mode ra wa) = fmapM (\<lambda>(st, h). OpenReply st h) (req_open_file env path mode ra wa)"
| "perform env (CallClose h) = fmapM StatusReply (req_close_file env h)"
| "perform env (CallWrite h off buf n) = fmapM StatusReply (req_write_to_file env h off buf n)"
| "perform env (CallRead h off n) = fmapM (\<lambda>(st, out). DataReply st out) (req_read_from_file env h off n)"
| "perform env (CallSetLen h n) = fmapM StatusReply (req_set_file_len env h n)"
| "perform env (CallSetTime path at wt) = fmapM StatusReply (req_set_file_time env path at wt)"
| "perform env CallDiskStats = fmapM (\<lambda>(st, ds). DiskReply st ds) (req_get_disk_stats env)"

section \<open>Before the mutex\<close>

text \<open>What a call does before it takes the mutex; \<open>Some\<close> is the reply of a call that ends there.\<close>

fun look_up_entries :: "'s conn_env \<Rightarrow> string \<Rightarrow> string list \<Rightarrow> (FileStat \<times> wstring) list \<Rightarrow> ('s Connection, reply option) prog" where
  "look_up_entries env dir [] calls = Return (Inr (Some (ListReply Success calls)))"
| "look_up_entries env dir (name # names) calls =
     act (stat_cache_get env (get_full_path dir name)) (\<lambda>cached.
       case cached of
         Some st \<Rightarrow>
           (case unix_path_to_win32 (from_utf8 env) name of
              Inl e \<Rightarrow> Return (Inl e)
            | Inr wname \<Rightarrow> look_up_entries env dir names (calls @ [(st, wname)]))
       | None \<Rightarrow> look_up_entries env dir names calls)"

fun unlocked :: "'s conn_env \<Rightarrow> call \<Rightarrow> ('s Connection, reply option) prog" where
  "unlocked env (CallStat path) =
     act (stat_cache_get env (win32_path_to_unix (to_utf8 env) path)) (\<lambda>cached_stat.
       Return (Inr (map_option (\<lambda>st. StatReply Success (Some st)) cached_stat)))"
| "unlocked env (CallList path) =
     act (dir_cache_get env (win32_path_to_unix (to_utf8 env) path)) (\<lambda>opt_cached_dir.
       case opt_cached_dir of
         None \<Rightarrow> Return (Inr None)
       | Some cached_dir \<Rightarrow> look_up_entries env (win32_path_to_unix (to_utf8 env) path) cached_dir [])"
| "unlocked env _ = Return (Inr None)"

section \<open>Under the mutex\<close>

text \<open>Writing a request: its code, its body, the flush.\<close>

definition send_request :: "'s conn_env \<Rightarrow> request \<Rightarrow> ('s Connection, unit) M \<Rightarrow> ('s Connection, 'r) prog \<Rightarrow> ('s Connection, 'r) prog" where
  "send_request env req body k =
     action (Some req) (write_request env (request_type req)) (\<lambda>_. act body (\<lambda>_. act (flush (conn_write env)) (\<lambda>_. k)))"

text \<open>Dropping a path and its parent's listing from the caches.\<close>

definition forget_path :: "string \<Rightarrow> ('s Connection, 'r) prog \<Rightarrow> ('s Connection, 'r) prog" where
  "forget_path p k = act (stat_cache_invalidate p) (\<lambda>_. act (invalidate_parent_dir p) (\<lambda>_. k))"

definition status_reply :: "'s conn_env \<Rightarrow> ('s Connection, reply) prog" where
  "status_reply env = act (read_status env) (\<lambda>st. Return (Inr (StatusReply st)))"

text \<open>The end of an open request: a created file drops its parent's listing.\<close>

definition opened :: "string \<Rightarrow> OpenMode \<Rightarrow> ResponseStatus \<Rightarrow> FILE_HANDLE option \<Rightarrow> ('s Connection, reply) prog" where
  "opened p mode status h =
     (if mode = CreateAlways \<or> mode = CreateIfNotExist \<or> mode = CreateOrTruncate
      then act (invalidate_parent_dir p) (\<lambda>_. Return (Inr (OpenReply status h)))
      else Return (Inr (OpenReply status h)))"

text \<open>Where the loop over the entries of a listing stands.\<close>

datatype listing_pos =
    Entry_status | Entry_name | Entry_stat string | Entry_store string FileStat
  | All_entries | is_Listed: Listed (listing_result: "exn + reply")

type_synonym listing = "string list \<times> (FileStat \<times> wstring) list \<times> listing_pos"

fun listing_action :: "'s conn_env \<Rightarrow> string \<Rightarrow> listing \<Rightarrow> ('s Connection, listing) M" where
  "listing_action env dir (entries, consumed, Entry_status) =
     bindM (read_status env) (\<lambda>entry_status. returnM (entries, consumed,
       if entry_status = NoMoreEntries then All_entries
       else if entry_status = Success then Entry_name else Entry_status))"
| "listing_action env dir (entries, consumed, Entry_name) =
     bindM (read_utf8_string (conn_read env)) (\<lambda>file_name. returnM (entries, consumed, Entry_stat file_name))"
| "listing_action env dir (entries, consumed, Entry_stat file_name) =
     bindM (FileStat_read (conn_read env)) (\<lambda>entry_stat. returnM (entries, consumed, Entry_store file_name entry_stat))"
| "listing_action env dir (entries, consumed, Entry_store file_name entry_stat) =
     bindM (stat_cache_put env (get_full_path dir file_name) entry_stat) (\<lambda>_.
       returnM (case unix_path_to_win32 (from_utf8 env) file_name of
          Inl e \<Rightarrow> (entries, consumed, Listed (Inl e))
        | Inr wname \<Rightarrow> (entries @ [file_name], consumed @ [(entry_stat, wname)], Entry_status)))"
| "listing_action env dir (entries, consumed, All_entries) =
     bindM (dir_cache_put env dir entries) (\<lambda>_. returnM (entries, consumed, Listed (Inr (ListReply Success consumed))))"
| "listing_action env dir (entries, consumed, Listed r) = returnM (entries, consumed, Listed r)"

fun listing_after :: "listing \<Rightarrow> exn + listing \<Rightarrow> listing" where
  "listing_after (entries, consumed, _) (Inl e) = (entries, consumed, Listed (Inl e))"
| "listing_after _ (Inr l) = l"

primcorec receive_listing :: "'s conn_env \<Rightarrow> string \<Rightarrow> listing \<Rightarrow> ('s Connection, reply) prog" where
  "receive_listing env dir l =
     (if is_Listed (snd (snd l)) then Return (listing_result (snd (snd l)))
      else Act None (\<lambda>s. map_option (map_prod (receive_listing env dir) id)
             (map_option (\<lambda>(r, s'). (listing_after l r, s')) (listing_action env dir l s))))"

lemma receive_listing_Listed [simp]: "receive_listing env dir (entries, consumed, Listed r) = Return r"
  by (subst receive_listing.code) simp

text \<open>The loop in terms of actions.\<close>

lemma receive_listing_action:
  assumes "\<not> is_Listed pos"
  shows "receive_listing env dir (entries, consumed, pos)
    = act (listing_action env dir (entries, consumed, pos)) (receive_listing env dir)"
proof -
  have "(receive_listing env dir (listing_after (entries, consumed, pos) r), s)
      = (case r of Inl e \<Rightarrow> Return (Inl e) | Inr l \<Rightarrow> receive_listing env dir l, s)" for r and s :: "'s Connection"
    by (cases r) simp_all
  with assms show ?thesis
    by (subst receive_listing.code) (simp add: action_def option.map_comp comp_def map_prod_def case_prod_unfold)
qed

text \<open>What each request function does under the mutex.\<close>

definition locked_stat_file :: "'s conn_env \<Rightarrow> wstring \<Rightarrow> ('s Connection, reply) prog" where
  "locked_stat_file env path =
     (let p = win32_path_to_unix (to_utf8 env) path in
      act (stat_cache_get env p) (\<lambda>cached_stat.
        case cached_stat of
          Some st \<Rightarrow> Return (Inr (StatReply Success (Some st)))
        | None \<Rightarrow>
            if ends_with p ''desktop.ini'' then Return (Inr (StatReply FileNotFound None))
            else send_request env (ReqStat p) (write_utf8_string (conn_write env) p)
                (act (read_status env) (\<lambda>status.
                   if status \<noteq> Success then Return (Inr (StatReply status None))
                   else act (FileStat_read (conn_read env)) (\<lambda>st.
                        act (stat_cache_put env p st) (\<lambda>_. Return (Inr (StatReply Success (Some st)))))))))"

definition locked_list_file_stats :: "'s conn_env \<Rightarrow> wstring \<Rightarrow> ('s Connection, reply) prog" where
  "locked_list_file_stats env path =
     (let p = win32_path_to_unix (to_utf8 env) path in
      send_request env (ReqList p) (write_utf8_string (conn_write env) p)
        (act (read_status env) (\<lambda>status.
           if status \<noteq> Success then Return (Inr (ListReply status []))
           else receive_listing env p ([], [], Entry_status))))"

definition locked_move_entry :: "'s conn_env \<Rightarrow> wstring \<Rightarrow> wstring \<Rightarrow> bool \<Rightarrow> ('s Connection, reply) prog" where
  "locked_move_entry env from to replace_if_exists =
     (let a = \<lparr>from_path = win32_path_to_unix (to_utf8 env) from, to_path = win32_path_to_unix (to_utf8 env) to,
               overwrite = replace_if_exists\<rparr> in
      forget_path (from_path a) (forget_path (to_path a)
        (send_request env (ReqMove a) (MoveEntryArgs_write (conn_write env) a) (status_reply env))))"

definition locked_remove_file :: "'s conn_env \<Rightarrow> wstring \<Rightarrow> ('s Connection, reply) prog" where
  "locked_remove_file env path =
     (let p = win32_path_to_unix (to_utf8 env) path in
      forget_path p (send_request env (ReqRemoveFile p) (write_utf8_string (conn_write env) p) (status_reply env)))"

definition locked_can_remove_file :: "'s conn_env \<Rightarrow> wstring \<Rightarrow> ('s Connection, reply) prog" where
  "locked_can_remove_file env path =
     (let p = win32_path_to_unix (to_utf8 env) path in
      send_request env (ReqCheckRemoveFile p) (write_utf8_string (conn_write env) p) (status_reply env))"

definition locked_remove_directory :: "'s conn_env \<Rightarrow> wstring \<Rightarrow> ('s Connection, reply) prog" where
  "locked_remove_directory env path =
     (let p = win32_path_to_unix (to_utf8 env) path in
      forget_path p (send_request env (ReqRemoveDirectory p) (write_utf8_string (conn_write env) p) (status_reply env)))"

definition locked_can_remove_directory :: "'s conn_env \<Rightarrow> wstring \<Rightarrow> ('s Connection, reply) prog" where
  "locked_can_remove_directory env path =
     (let p = win32_path_to_unix (to_utf8 env) path in
      send_request env (ReqCheckRemoveDirectory p) (write_utf8_string (conn_write env) p) (status_reply env))"

definition locked_create_directory :: "'s conn_env \<Rightarrow> wstring \<Rightarrow> ('s Connection, reply) prog" where
  "locked_create_directory env path =
     (let p = win32_path_to_unix (to_utf8 env) path in
      forget_path p (send_request env (ReqCreateDirectory p) (write_utf8_string (conn_write env) p) (status_reply env)))"

definition locked_open_file :: "'s conn_env \<Rightarrow> wstring \<Rightarrow> OpenMode \<Rightarrow> bool \<Rightarrow> bool \<Rightarrow> ('s Connection, reply) prog" where
  "locked_open_file env path mode ra wa =
     (let p = win32_path_to_unix (to_utf8 env) path;
          a = OpenHandleArgs_init p mode ra wa in
      if ends_with p ''desktop.ini'' then Return (Inr (OpenReply GenericFailure None))
      else send_request env (ReqOpen a) (OpenHandleArgs_write (conn_write env) a)
        (act (read_status env) (\<lambda>status.
           if status = Success then act (read_u32 (conn_read env)) (\<lambda>h. opened p mode status (Some h))
           else opened p mode status None)))"

definition locked_close_file :: "'s conn_env \<Rightarrow> FILE_HANDLE \<Rightarrow> ('s Connection, reply) prog" where
  "locked_close_file env h =
     send_request env (ReqClose h) (write_u32 (conn_write env) h) (status_reply env)"

definition locked_write_to_file :: "'s conn_env \<Rightarrow> FILE_HANDLE \<Rightarrow> u64 \<Rightarrow> u8 list \<Rightarrow> u32 \<Rightarrow> ('s Connection, reply) prog" where
  "locked_write_to_file env h off buf n =
     send_request env (ReqWrite h off buf)
       (thenM (WriteHandleInitArgs_write (conn_write env) (WriteHandleInitArgs_init h off n))
              (write_exact (conn_write env) buf (sint n)))
       (status_reply env)"

definition locked_read_from_file :: "'s conn_env \<Rightarrow> FILE_HANDLE \<Rightarrow> u64 \<Rightarrow> u32 \<Rightarrow> ('s Connection, reply) prog" where
  "locked_read_from_file env h off n =
     (let a = ReadHandleArgs_init h n off in
      send_request env (ReqRead a) (ReadHandleArgs_write (conn_write env) a)
        (act (read_status env) (\<lambda>status.
           if status = Success
           then act (read_u32 (conn_read env)) (\<lambda>len.
                let bytes_read = sint len in
                if bytes_read > uint n then Return (Inl UndefinedBehaviour)
                else act (read_exact (conn_read env) bytes_read) (\<lambda>bs. Return (Inr (DataReply status (Some (bytes_read, bs))))))
           else Return (Inr (DataReply status None)))))"

definition locked_set_file_len :: "'s conn_env \<Rightarrow> FILE_HANDLE \<Rightarrow> u64 \<Rightarrow> ('s Connection, reply) prog" where
  "locked_set_file_len env h n =
     (let a = TruncateHandleArgs_init h n in
      send_request env (ReqTruncate a) (TruncateHandleArgs_write (conn_write env) a) (status_reply env))"

definition locked_set_file_time :: "'s conn_env \<Rightarrow> wstring \<Rightarrow> u64 \<Rightarrow> u64 \<Rightarrow> ('s Connection, reply) prog" where
  "locked_set_file_time env path at wt =
     (let p = win32_path_to_unix (to_utf8 env) path; a = SetFileTimeArgs_init p at wt in
      act (stat_cache_invalidate p) (\<lambda>_.
      send_request env (ReqSetTime a) (SetFileTimeArgs_write (conn_write env) a) (status_reply env)))"

definition locked_get_disk_stats :: "'s conn_env \<Rightarrow> ('s Connection, reply) prog" where
  "locked_get_disk_stats env =
     send_request env ReqDiskStats (returnM ())
       (act (read_status env) (\<lambda>status.
          if status = Success
          then act (DiskStats_read (conn_read env)) (\<lambda>stats. Return (Inr (DiskReply status (Some stats))))
          else Return (Inr (DiskReply status None))))"

fun locked :: "'s conn_env \<Rightarrow> call \<Rightarrow> ('s Connection, reply) prog" where
  "locked env (CallStat path) = locked_stat_file env path"
| "locked env (CallList path) = locked_list_file_stats env path"
| "locked env (CallMove from to replace_if_exists) = locked_move_entry env from to replace_if_exists"
| "locked env (CallRemoveFile path) = locked_remove_file env path"
| "locked env (CallCanRemoveFile path) = locked_can_remove_file env path"
| "locked env (CallRemoveDirectory path) = locked_remove_directory env path"
| "locked env (CallCanRemoveDirectory path) = locked_can_remove_directory env path"
| "locked env (CallCreateDirectory path) = locked_create_directory env path"
| "locked env (CallOpen path mode ra wa) = locked_open_file env path mode ra wa"
| "locked env (CallClose h) = locked_close_file env h"
| "locked env (CallWrite h off buf n) = locked_write_to_file env h off buf n"
| "locked env (CallRead h off n) = locked_read_from_file env h off n"
| "locked env (CallSetLen h n) = locked_set_file_len env h n"
| "locked env (CallSetTime path at wt) = locked_set_file_time env path at wt"
| "locked env CallDiskStats = locked_get_disk_stats env"

lemmas locked_defs [simp] = locked_stat_file_def locked_list_file_stats_def locked_move_entry_def locked_remove_file_def locked_can_remove_file_def locked_remove_directory_def locked_can_remove_directory_def locked_create_directory_def locked_open_file_def locked_close_file_def locked_write_to_file_def locked_read_from_file_def locked_set_file_len_def locked_set_file_time_def locked_get_disk_stats_def

text \<open>A whole call of one thread.\<close>

definition call_alone :: "'s conn_env \<Rightarrow> call \<Rightarrow> ('s Connection, reply) M" where
  "call_alone env c = bindM (run_alone (unlocked env c)) (\<lambda>early.
     case early of Some r \<Rightarrow> returnM r | None \<Rightarrow> run_alone (locked env c))"

section \<open>One thread alone\<close>

lemma run_send_request [simp]: "run_alone (send_request env req body k)
    = thenM (write_request env (request_type req)) (thenM body (thenM (flush (conn_write env)) (run_alone k)))"
  by (simp add: send_request_def thenM_def)

lemma run_forget_path [simp]: "run_alone (forget_path p k)
    = thenM (stat_cache_invalidate p) (thenM (invalidate_parent_dir p) (run_alone k))"
  by (simp add: forget_path_def thenM_def)

lemma run_status_reply [simp]: "run_alone (status_reply env) = fmapM StatusReply (read_status env)"
  by (simp add: status_reply_def fmapM_def)

lemma run_opened [simp]: "run_alone (opened p mode status h) = thenM (if mode = CreateAlways \<or> mode = CreateIfNotExist
    \<or> mode = CreateOrTruncate then invalidate_parent_dir p else returnM ()) (returnM (OpenReply status h))"
  by (simp add: opened_def thenM_def)

lemma run_if [simp]: "run_alone (if b then p else q) = (if b then run_alone p else run_alone q)"
  by simp

lemma fmapM_simps:
  "fmapM f (returnM a) = returnM (f a)" "fmapM f (throwM e) = throwM e"
  "fmapM f (bindM m k) = bindM m (\<lambda>a. fmapM f (k a))" "fmapM f (thenM m' n) = thenM m' (fmapM f n)"
  "fmapM f (if b then u else v) = (if b then fmapM f u else fmapM f v)"
  by (simp_all add: fmapM_def bindM_assoc thenM_def)

lemma bindM_fmapM: "bindM (fmapM f m) k = bindM m (\<lambda>a. k (f a))"
  by (simp add: fmapM_def bindM_assoc)

lemma run_look_up_entries:
  "run_alone (look_up_entries env dir names calls)
     = fmapM (\<lambda>rest. Some (ListReply Success (calls @ rest))) (cached_listing env dir names)"
proof (induction env dir names calls rule: look_up_entries.induct)
  case (1 env dir calls)
  show ?case by (simp add: fmapM_simps)
next
  case (2 env dir name names calls)
  have "run_alone (case cached of None \<Rightarrow> look_up_entries env dir names calls
          | Some st \<Rightarrow> (case unix_path_to_win32 (from_utf8 env) name of Inl e \<Rightarrow> Return (Inl e)
             | Inr wname \<Rightarrow> look_up_entries env dir names (calls @ [(st, wname)])))
      = fmapM (\<lambda>rest. Some (ListReply Success (calls @ rest))) (case cached of None \<Rightarrow> cached_listing env dir names
          | Some st \<Rightarrow> (case unix_path_to_win32 (from_utf8 env) name of Inl e \<Rightarrow> throwM e
             | Inr wname \<Rightarrow> bindM (cached_listing env dir names) (\<lambda>rest. returnM ((st, wname) # rest))))" for cached
    using 2 by (cases cached; cases "unix_path_to_win32 (from_utf8 env) name") (simp_all add: fmapM_simps, simp add: fmapM_def)
  then show ?case by (simp add: fmapM_simps)
qed

text \<open>The receiving loop, at the start of an iteration and after the last entry.\<close>

lemma run_receive_listing_step:
  "run_alone (receive_listing env dir (entries, consumed, Entry_status)) =
     bindM (read_status env) (\<lambda>entry_status.
       if entry_status = NoMoreEntries
       then thenM (dir_cache_put env dir entries) (returnM (ListReply Success consumed))
       else if entry_status = Success
       then bindM (read_utf8_string (conn_read env)) (\<lambda>file_name.
            bindM (FileStat_read (conn_read env)) (\<lambda>entry_stat.
            bindM (stat_cache_put env (get_full_path dir file_name) entry_stat) (\<lambda>_.
            case unix_path_to_win32 (from_utf8 env) file_name of
              Inl e \<Rightarrow> throwM e
            | Inr wname \<Rightarrow> run_alone (receive_listing env dir
                (entries @ [file_name], consumed @ [(entry_stat, wname)], Entry_status)))))
       else run_alone (receive_listing env dir (entries, consumed, Entry_status)))"
proof -
  note steps = receive_listing_action [of All_entries] receive_listing_action [of Entry_name]
    receive_listing_action [of "Entry_stat _"] receive_listing_action [of "Entry_store _ _"]
  show ?thesis
    by (subst receive_listing_action, simp)
       (auto simp: bindM_assoc steps thenM_def sum.case_distrib [of "\<lambda>l. run_alone (receive_listing env dir l)"]
          intro!: arg_cong [of _ _ "bindM _"] cong: sum.case_cong)
qed

text \<open>The whole loop: what remains to be done at each position, as one computation.\<close>

definition rest_of_loop :: "'s conn_env \<Rightarrow> string \<Rightarrow> string list \<Rightarrow> (FileStat \<times> wstring) list \<Rightarrow> ('s Connection, reply) M" where
  "rest_of_loop env dir entries consumed = bindM (list_stats_loop env dir entries consumed) (\<lambda>(entries, calls).
     thenM (dir_cache_put env dir entries) (returnM (ListReply Success calls)))"

definition rest_after_stat :: "'s conn_env \<Rightarrow> string \<Rightarrow> string list \<Rightarrow> (FileStat \<times> wstring) list \<Rightarrow> string \<Rightarrow> FileStat
    \<Rightarrow> ('s Connection, reply) M" where
  "rest_after_stat env dir entries consumed file_name entry_stat =
     bindM (stat_cache_put env (get_full_path dir file_name) entry_stat) (\<lambda>_.
       case unix_path_to_win32 (from_utf8 env) file_name of
         Inl e \<Rightarrow> throwM e
       | Inr wname \<Rightarrow> rest_of_loop env dir (entries @ [file_name]) (consumed @ [(entry_stat, wname)]))"

fun listing_rest :: "'s conn_env \<Rightarrow> string \<Rightarrow> listing \<Rightarrow> ('s Connection, reply) M" where
  "listing_rest env dir (entries, consumed, Entry_status) = rest_of_loop env dir entries consumed"
| "listing_rest env dir (entries, consumed, Entry_name) =
     bindM (read_utf8_string (conn_read env)) (\<lambda>file_name.
     bindM (FileStat_read (conn_read env)) (rest_after_stat env dir entries consumed file_name))"
| "listing_rest env dir (entries, consumed, Entry_stat file_name) =
     bindM (FileStat_read (conn_read env)) (rest_after_stat env dir entries consumed file_name)"
| "listing_rest env dir (entries, consumed, Entry_store file_name entry_stat) =
     rest_after_stat env dir entries consumed file_name entry_stat"
| "listing_rest env dir (entries, consumed, All_entries) =
     thenM (dir_cache_put env dir entries) (returnM (ListReply Success consumed))"
| "listing_rest env dir (entries, consumed, Listed (Inl e)) = throwM e"
| "listing_rest env dir (entries, consumed, Listed (Inr r)) = returnM r"

lemma rest_of_loop_unfold:
  "rest_of_loop env dir entries consumed = bindM (read_status env) (\<lambda>st. listing_rest env dir (entries, consumed,
     if st = NoMoreEntries then All_entries else if st = Success then Entry_name else Entry_status))"
proof -
  have "list_stats_loop env dir entries consumed = bindM (read_status env) (\<lambda>entry_status.
       if entry_status = NoMoreEntries then returnM (entries, consumed)
       else if entry_status = Success
       then bindM (read_utf8_string (conn_read env)) (\<lambda>file_name.
            bindM (FileStat_read (conn_read env)) (\<lambda>entry_stat.
            bindM (stat_cache_put env (get_full_path dir file_name) entry_stat) (\<lambda>_.
            case unix_path_to_win32 (from_utf8 env) file_name of
              Inl e \<Rightarrow> throwM e
            | Inr wname \<Rightarrow>
                list_stats_loop env dir (entries @ [file_name]) (consumed @ [(entry_stat, wname)]))))
       else list_stats_loop env dir entries consumed)"
    by (rule ext, subst list_stats_loop.simps) simp
  note unfold = this
  show ?thesis
    unfolding rest_of_loop_def [of env dir entries consumed]
    by (subst unfold, simp only: bindM_assoc, intro arg_cong [of _ _ "bindM _"] ext)
       (simp add: rest_after_stat_def [abs_def] rest_of_loop_def bindM_assoc sum.case_distrib [of "\<lambda>m. bindM m _"]
          cong: sum.case_cong)
qed

lemma listing_rest_action:
  "\<not> is_Listed pos \<Longrightarrow> listing_rest env dir (entries, consumed, pos)
     = bindM (listing_action env dir (entries, consumed, pos)) (listing_rest env dir)"
  by (cases pos) (simp_all only: listing_rest.simps, simp_all add: rest_of_loop_unfold bindM_assoc thenM_def,
      simp_all add: rest_after_stat_def sum.case_distrib [of "listing_rest env dir"] cong: sum.case_cong)

text \<open>The program has a result whenever the loop of \<open>Connection\<close> has one, and conversely.\<close>

lemma dir_cache_put_run: "dir_cache_put env p names s = Some (Inr (), dir_stored env p names s)"
  by (simp add: dir_cache_put_def modifyM_def dir_stored_def)

text \<open>A computation follows another one when it does so after the first step.\<close>

lemma bindM_follows:
  assumes "bindM m k s = Some (r, s')" and "\<And>e t. g (Inl e) t = (Inl e, t)"
    and "\<And>a s1. k a s1 = Some (r, s') \<Longrightarrow> h a s1 = Some (g r s')"
  shows "bindM m h s = Some (g r s')"
  using assms by (cases "m s") (auto simp: bindM_def split: sum.splits)

lemma loop_imp_run:
  fixes s :: "'s Connection"
  assumes "list_stats_loop env dir entries consumed s = Some (r, s')"
  shows "run_alone (receive_listing env dir (entries, consumed, Entry_status)) s = Some (case r of Inl e \<Rightarrow> (Inl e, s')
    | Inr (names, calls) \<Rightarrow> (Inr (ListReply Success calls), dir_stored env dir names s'))"
proof -
  define g :: "'s conn_env \<Rightarrow> string \<Rightarrow> exn + string list \<times> (FileStat \<times> wstring) list \<Rightarrow> 's Connection \<Rightarrow> (exn + reply) \<times> 's Connection"
    where "g env dir r t = (case r of Inl e \<Rightarrow> (Inl e, t)
      | Inr (names, calls) \<Rightarrow> (Inr (ListReply Success calls), dir_stored env dir names t))" for env dir r t
  have gI: "g env dir (Inl e) t = (Inl e, t)"
    and gR: "g env dir (Inr (names, calls)) t = (Inr (ListReply Success calls), dir_stored env dir names t)"
    for env dir e t names calls by (simp_all add: g_def)
  let ?P = "\<lambda>env dir entries consumed s (r, s').
    run_alone (receive_listing env dir (entries, consumed, Entry_status)) s = Some (g env dir r s')"
  have "?P env dir entries consumed s (r, s')"
  proof (rule list_stats_loop.raw_induct [OF _ assms, where P = ?P], goal_cases)
    case (1 loop env dir entries consumed s y)
    obtain r s' where y: "y = (r, s')" by (cases y)
    note IH = 1(1) [where y = "(r, s')", unfolded prod.case]
    note follow = bindM_follows [where g = "g env dir", OF _ gI]
    from 1(2) [unfolded y] show ?case
      unfolding y prod.case
    proof (subst run_receive_listing_step, elim follow)
      fix st and s1 :: "'s Connection"
      assume "(if st = NoMoreEntries then returnM (entries, consumed)
       else if st = Success
       then bindM (read_utf8_string (conn_read env)) (\<lambda>file_name.
            bindM (FileStat_read (conn_read env)) (\<lambda>entry_stat.
            bindM (stat_cache_put env (get_full_path dir file_name) entry_stat) (\<lambda>_.
            case unix_path_to_win32 (from_utf8 env) file_name of
              Inl e \<Rightarrow> throwM e
            | Inr wname \<Rightarrow> loop env dir (entries @ [file_name]) (consumed @ [(entry_stat, wname)]))))
       else loop env dir entries consumed) s1 = Some (r, s')"
      then show "(if st = NoMoreEntries then thenM (dir_cache_put env dir entries) (returnM (ListReply Success consumed))
       else if st = Success
       then bindM (read_utf8_string (conn_read env)) (\<lambda>file_name.
            bindM (FileStat_read (conn_read env)) (\<lambda>entry_stat.
            bindM (stat_cache_put env (get_full_path dir file_name) entry_stat) (\<lambda>_.
            case unix_path_to_win32 (from_utf8 env) file_name of
              Inl e \<Rightarrow> throwM e
            | Inr wname \<Rightarrow> run_alone (receive_listing env dir (entries @ [file_name], consumed @ [(entry_stat, wname)], Entry_status)))))
       else run_alone (receive_listing env dir (entries, consumed, Entry_status))) s1 = Some (g env dir r s')"
        by (auto intro: IH elim!: follow simp: gI gR throwM_def thenM_def bindM_run [OF dir_cache_put_run] returnM_def
            split: if_splits sum.splits)
    qed
  qed
  then show ?thesis by (simp add: g_def)
qed

lemma run_imp_rest:
  assumes "run_alone p s = Some y" and "p = receive_listing env dir l"
  shows "listing_rest env dir l s = Some y"
proof -
  have "\<forall>l. p = receive_listing env dir l \<longrightarrow> listing_rest env dir l s = Some y"
  proof (rule run_alone.raw_induct [OF _ assms(1), where P = "\<lambda>p s y. \<forall>l. p = receive_listing env dir l \<longrightarrow> listing_rest env dir l s = Some y"],
      intro allI impI)
    fix run p s y and l :: listing
    obtain entries consumed pos where l: "l = (entries, consumed, pos)" by (cases l)
    assume IH: "\<And>p s y. run p s = Some y \<Longrightarrow> \<forall>l. p = receive_listing env dir l \<longrightarrow> listing_rest env dir l s = Some y"
      and body: "(case p of Return r \<Rightarrow> Some (r, s) | Act l f \<Rightarrow> Option.bind (f s) (\<lambda>(p', s'). run p' s')) = Some y"
      and p: "p = receive_listing env dir l"
    show "listing_rest env dir l s = Some y"
    proof (cases "is_Listed pos")
      case True
      then obtain r where "pos = Listed r" by (cases pos) auto
      with body p l show ?thesis by (cases r) (auto simp: returnM_def throwM_def)
    next
      case False
      with body p l have "Option.bind (listing_action env dir l s)
          (\<lambda>(r, s1). run (case r of Inl e \<Rightarrow> Return (Inl e) | Inr a \<Rightarrow> receive_listing env dir a) s1) = Some y"
        by (cases "listing_action env dir l s") (simp_all add: receive_listing_action action_def case_prod_unfold)
      then obtain r s1 where r: "listing_action env dir l s = Some (r, s1)"
        and go: "run (case r of Inl e \<Rightarrow> Return (Inl e) | Inr a \<Rightarrow> receive_listing env dir a) s1 = Some y"
        by (cases "listing_action env dir l s") auto
      have "Return (Inl e) = receive_listing env dir ([], [], Listed (Inl e))" for e by simp
      with IH [OF go] have "(case r of Inl e \<Rightarrow> Some (Inl e, s1) | Inr a \<Rightarrow> listing_rest env dir a s1) = Some y"
        by (cases r) (metis listing_rest.simps(6) sum.case(1) throwM_def, cases "projr r", simp)
      with False r l show ?thesis by (simp add: listing_rest_action bindM_def)
    qed
  qed
  with assms(2) show ?thesis by blast
qed

lemma run_receive_listing:
  fixes env :: "'s conn_env"
  shows "run_alone (receive_listing env dir (entries, consumed, Entry_status)) = rest_of_loop env dir entries consumed"
proof
  fix s :: "'s Connection"
  let ?run = "run_alone (receive_listing env dir (entries, consumed, Entry_status)) s"
  show "?run = rest_of_loop env dir entries consumed s"
  proof (cases ?run)
    case (Some y)
    then show ?thesis using run_imp_rest [OF Some refl] by simp
  next
    case None
    then have "list_stats_loop env dir entries consumed s = None"
      using loop_imp_run [of env dir entries consumed s] by (cases "list_stats_loop env dir entries consumed s") auto
    with None show ?thesis by (simp add: rest_of_loop_def bindM_def)
  qed
qed

text \<open>
  The concurrent programs are the request functions: every call, run by one thread with nobody
  else on the connection, is exactly the request function of \<open>Connection\<close>: the same state, the same
  result or exception, and it returns exactly when the function returns.
\<close>

lemma call_alone_perform: "call_alone env c = perform env c"
proof (cases c)
  case (CallStat path)
  then show ?thesis
    by (simp add: call_alone_def req_stat_file_def Let_def fmapM_simps bindM_assoc option.case_distrib [of run_alone]
        option.case_distrib [of "fmapM _"] option.case_distrib [of "case_option _ _"] comp_def thenM_def
        cong: option.case_cong if_cong)
next
  case (CallList path)
  have "fmapM (\<lambda>(st, calls). ListReply st calls) (bindM (list_stats_loop env p [] []) (\<lambda>(entries, calls).
          thenM (dir_cache_put env p entries) (returnM (Success, calls)))) = rest_of_loop env p [] []" for p
    by (simp add: rest_of_loop_def fmapM_simps prod.case_distrib [of "fmapM _"] cong: prod.case_cong)
  with CallList show ?thesis
    by (simp add: call_alone_def req_list_file_stats_def try_use_cached_dir_listing_def Let_def fmapM_simps bindM_assoc 
        option.case_distrib [of run_alone] run_receive_listing run_look_up_entries bindM_fmapM
        option.case_distrib [of "fmapM _"] option.case_distrib [of "\<lambda>m. bindM m _"] comp_def thenM_def
        cong: option.case_cong if_cong)
qed (simp_all add: call_alone_def req_move_entry_def req_remove_file_def req_can_remove_file_def req_remove_directory_def
    req_can_remove_directory_def req_create_directory_def req_open_file_def req_close_file_def req_write_to_file_def
    req_read_from_file_def req_set_file_len_def req_set_file_time_def req_get_disk_stats_def Let_def fmapM_simps bindM_assoc thenM_assoc
    if_distrib [of "\<lambda>m. bindM m _"] cong: if_cong, simp_all add: thenM_def)

end
