(* ===== verification/Response_Types.thy ===== *)
theory Response_Types
  imports Daemon
begin

text \<open>
  The types of the protocol's responses. The comments of \<open>requests.hpp\<close> say for each request what
  follows the status byte of a response; the rules below state it, with the bounds on lengths. The
  daemon's response to a request always has the type of the request, and the type tells the
  reader where the response ends.
\<close>

section \<open>Types\<close>

definition failure :: "ResponseStatus \<Rightarrow> bool" where
  "failure st \<longleftrightarrow> named_status st \<and> st \<noteq> Success"

text \<open>The requests whose response is a status only.\<close>

fun status_only :: "request \<Rightarrow> bool" where
  "status_only (ReqStat p) \<longleftrightarrow> False"
| "status_only (ReqList p) \<longleftrightarrow> False"
| "status_only (ReqOpen a) \<longleftrightarrow> False"
| "status_only (ReqRead a) \<longleftrightarrow> False"
| "status_only ReqDiskStats \<longleftrightarrow> False"
| "status_only _ \<longleftrightarrow> True"

text \<open>An entry of a listing: a name of at most \<open>NAME_MAX\<close> bytes, and a status that cannot be taken for the end.\<close>

fun entry_type :: "string \<times> ResponseStatus \<times> FileStat \<Rightarrow> bool" where
  "entry_type (name, status, st) \<longleftrightarrow> length name \<le> 255 \<and> named_status status \<and> status \<noteq> NoMoreEntries"

inductive response_type :: "request \<Rightarrow> response \<Rightarrow> bool" where
  stat: "response_type (ReqStat p) (RespStat st)"
| listing: "list_all entry_type es \<Longrightarrow> response_type (ReqList p) (RespListing es)"
| handle: "response_type (ReqOpen a) (RespHandle h)"
| data: "length bs \<le> unat (rh_data_len a) \<Longrightarrow> response_type (ReqRead a) (RespData bs)"
| disk: "response_type ReqDiskStats (RespDisk ds)"
| performed: "status_only req \<Longrightarrow> response_type req (RespStatus Success)"
| refused: "failure st \<Longrightarrow> response_type req (RespStatus st)"

declare response_type.intros [intro]

inductive_simps response_type_simps [simp]:
  "response_type req (RespStatus st)" "response_type req (RespStat fs)" "response_type req (RespListing es)"
  "response_type req (RespHandle h)" "response_type req (RespData bs)" "response_type req (RespDisk ds)"

section \<open>The daemon's responses are typed\<close>

lemma stat_file_status:
  "named_status (fst (stat_file os p w)) \<and> fst (stat_file os p w) \<noteq> NoMoreEntries"
proof (cases "sys_stat os (c_str p) w")
  case (Inl e)
  then show ?thesis by (cases e) (simp_all add: stat_file_def named_status_def)
qed (simp add: stat_file_def named_status_def)

lemma failure_errno [simp]: "failure (get_status_from_errno e)"
  using status_of_errors [of "Inl e :: errno + unit"] by (simp add: failure_def status_of_def)

lemma errno_codes [simp]: "named_status (get_status_from_errno e)" "get_status_from_errno e \<noteq> Success"
  using failure_errno [of e] by (simp_all add: failure_def del: failure_errno)

lemma named_status_of [simp]: "named_status (status_of r)" and named_failure: "failure st \<Longrightarrow> named_status st"
  by (simp_all add: status_of_errors failure_def)

lemma named_codes [simp]:
  "named_status FileExists" "named_status DirectoryNotEmpty" "named_status AccessDenied" "named_status GenericFailure"
  by (simp_all add: named_status_def)

lemma named_Success_or_failure: "named_status st \<Longrightarrow> st = Success \<or> failure st"
  by (auto simp: failure_def)

lemma status_of_typed [simp]: "failure (status_of r) \<longleftrightarrow> status_of r \<noteq> Success"
  using named_Success_or_failure [of "status_of r"] by (auto simp: failure_def)

lemma failure_codes [simp]: "failure FileExists" "failure DirectoryNotEmpty" "failure AccessDenied" "failure GenericFailure"
  by (simp_all add: failure_def)

context posix_os
begin

lemma entries_from_ok:
  assumes "entries_from os p dir cur w = Some (es, w')" and "\<And>name. cur = Some name \<Longrightarrow> length name \<le> 255"
  shows "list_all entry_type es"
  using assms
proof (induction "dir_left dir w" arbitrary: cur w es rule: less_induct)
  case less
  show ?case
  proof (cases cur)
    case None
    with less.prems(1) show ?thesis by simp
  next
    case (Some name)
    obtain nxt w1 where rd: "sys_readdir os dir w = (nxt, w1)" by fastforce
    with less.prems(1) Some obtain es1 where es1: "entries_from os p dir nxt w1 = Some (es1, w')"
      and es: "es = (name, stat_file os (get_full_path p name) w) # es1"
      by (auto simp: bind_eq_Some_conv)
    have "list_all entry_type es1"
    proof (cases nxt)
      case None
      with es1 show ?thesis by simp
    next
      case (Some name1)
      with rd have "dir_left dir w1 < dir_left dir w" "length name1 \<le> 255" using readdir_law by blast+
      with Some less.hyps [OF _ es1] show ?thesis by blast
    qed
    with less.prems(2) Some es stat_file_status [of os "get_full_path p name" w] show ?thesis
      by (cases "stat_file os (get_full_path p name) w") auto
  qed
qed

lemma read_all_length:
  assumes "read_all os fd n acc w = (Inr bs, w')" and "length acc \<le> n"
  shows "length bs \<le> n"
  using assms
proof (induction "n - length acc" arbitrary: acc w rule: less_induct)
  case less
  obtain res w1 where rd: "sys_read os fd (n - length acc) w = (res, w1)" by fastforce
  show ?case
  proof (cases "length acc < n \<and> (\<exists>xs. res = Inr xs \<and> xs \<noteq> [])")
    case True
    then obtain xs where xs: "res = Inr xs" "xs \<noteq> []" and "length acc < n" by blast
    with rd read_law have "length xs \<le> n - length acc" by blast
    moreover from less.prems(1) rd xs \<open>length acc < n\<close> have "read_all os fd n (acc @ xs) w1 = (Inr bs, w')"
      by (simp add: read_all.simps [of os fd n acc])
    ultimately show ?thesis using less.hyps [of "acc @ xs"] xs(2) \<open>length acc < n\<close>
      by (simp add: diff_less_mono2)
  next
    case False
    with less.prems rd show ?thesis
      by (auto simp: read_all.simps [of os fd n acc] split: if_splits sum.splits)
  qed
qed

lemma respond_typed:
  assumes "valid_request req" and "respond os req w = Some (resp, w')"
  shows "response_type req resp"
proof (cases req)
  case (ReqList p)
  from assms(2) ReqList consider e w1 where "sys_opendir os (c_str p) w = (Inl e, w1)" "resp = RespStatus (get_status_from_errno e)"
    | dir w1 cur w2 es w3 where "sys_opendir os (c_str p) w = (Inr dir, w1)" "sys_readdir os dir w1 = (cur, w2)"
        "entries_from os p dir cur w2 = Some (es, w3)" "resp = RespListing es"
    by (auto simp: fail_or_def split: prod.splits sum.splits)
  then show ?thesis
  proof cases
    case 2
    have "list_all entry_type es"
      by (rule entries_from_ok [OF 2(3)]) (use readdir_law 2(2) in blast)
    with 2(4) ReqList show ?thesis by simp
  qed (use ReqList in simp)
next
  case (ReqRead a)
  with assms(2) show ?thesis
    by (auto simp: fail_or_def split: prod.splits sum.splits dest!: read_all_length)
next
  case (ReqStat p)
  with assms(2) stat_file_status [of os p w] show ?thesis by (auto simp: failure_def split: prod.splits)
next
  case (ReqMove a)
  with assms(2) show ?thesis by (auto simp: simple_def Let_def split: if_splits)
qed (use assms(2) in \<open>auto simp: simple_def fail_or_def can_remove_directory_entry_def
    bind_eq_Some_conv split: prod.splits sum.splits if_splits option.splits\<close>)

end

section \<open>A type tells where a response ends\<close>

lemma u8_of_named: "named_status a \<Longrightarrow> named_status b \<Longrightarrow> u8_of_ResponseStatus a = u8_of_ResponseStatus b \<longleftrightarrow> a = b"
  by (metis ResponseStatus_of_u8_of)

lemma failure_byte: "failure st \<Longrightarrow> u8_of_ResponseStatus st \<noteq> u8_of_ResponseStatus Success"
  using u8_of_named [of st Success] by (simp add: failure_def named_status_def)

lemma same_length_prefix: "a @ x = b @ y \<Longrightarrow> length a = length b \<Longrightarrow> a = b \<and> x = y"
  by simp

text \<open>A string and a block of data say how long they are.\<close>

lemma length_prefix:
  assumes "be_bytes n (word_of_nat k :: 'a::len word) @ x = be_bytes n (word_of_nat k' :: 'a word) @ y"
    and "LENGTH('a) = 8 * n" and "k < 2 ^ LENGTH('a)" and "k' < 2 ^ LENGTH('a)"
  shows "k = k' \<and> x = y"
proof -
  from assms(1) have "be_bytes n (word_of_nat k :: 'a word) = be_bytes n (word_of_nat k' :: 'a word)" and xy: "x = y" by simp_all
  then have "(word_of_nat k :: 'a word) = word_of_nat k'"
    using le_bytes_inj [OF assms(2)] by (simp add: be_bytes_def)
  from arg_cong [OF this, of unat] assms(3,4) xy show ?thesis by (simp add: unat_of_nat)
qed

lemma utf8_framing:
  assumes "utf8_bytes a @ x = utf8_bytes b @ y" and "length a \<le> 65535" and "length b \<le> 65535"
  shows "utf8_bytes a = utf8_bytes b \<and> x = y"
proof -
  from assms have "length a = length b \<and> bytes_of_string a @ x = bytes_of_string b @ y"
    by (intro length_prefix [where 'a = 16 and n = 2]) (simp_all add: utf8_bytes_def)
  with assms(1) show ?thesis by (intro same_length_prefix) (simp_all add: utf8_bytes_def)
qed

lemma entry_framing:
  assumes "entry_type e1" and "entry_type e2" and "entry_bytes e1 @ x = entry_bytes e2 @ y"
  shows "entry_bytes e1 = entry_bytes e2 \<and> x = y"
proof -
  obtain n1 s1 f1 n2 s2 f2 where e: "e1 = (n1, s1, f1)" "e2 = (n2, s2, f2)" by (cases e1, cases e2)
  from assms e have s: "s1 = s2" using u8_of_named [of s1 s2] by (auto split: if_splits)
  show ?thesis
  proof (cases "s1 = Success")
    case True
    with assms(3) e s have "utf8_bytes n1 @ FileStat_bytes f1 @ x = utf8_bytes n2 @ FileStat_bytes f2 @ y" by simp
    from utf8_framing [OF this] assms(1,2) e have "utf8_bytes n1 = utf8_bytes n2 \<and> FileStat_bytes f1 @ x = FileStat_bytes f2 @ y" by simp
    moreover have "length (FileStat_bytes f1) = length (FileStat_bytes f2)" by (simp add: FileStat_bytes_def)
    then have "FileStat_bytes f1 = FileStat_bytes f2 \<and> x = y" using same_length_prefix calculation by blast
    ultimately show ?thesis using True e s by simp
  qed (use assms(3) e s in simp)
qed

lemma entry_not_end: "entry_type e \<Longrightarrow> entry_bytes e @ x \<noteq> u8_of_ResponseStatus NoMoreEntries # y"
  using u8_of_named [of _ NoMoreEntries] by (cases e) (auto simp: named_status_def split: if_splits)

lemma listing_framing:
  assumes "list_all entry_type es1" and "list_all entry_type es2"
    and "concat (map entry_bytes es1) @ u8_of_ResponseStatus NoMoreEntries # x
      = concat (map entry_bytes es2) @ u8_of_ResponseStatus NoMoreEntries # y"
  shows "concat (map entry_bytes es1) = concat (map entry_bytes es2) \<and> x = y"
  using assms
proof (induction es1 arbitrary: es2)
  case Nil
  then show ?case by (cases es2) (auto dest: entry_not_end [THEN not_sym])
next
  case (Cons e1 es1)
  note prems = Cons.prems
  show ?case
  proof (cases es2)
    case Nil
    with prems show ?thesis using entry_not_end [of e1] by simp
  next
    case (Cons e2 es2')
    with prems have "entry_bytes e1 @ (concat (map entry_bytes es1) @ u8_of_ResponseStatus NoMoreEntries # x)
        = entry_bytes e2 @ (concat (map entry_bytes es2') @ u8_of_ResponseStatus NoMoreEntries # y)" by simp
    from entry_framing [OF _ _ this] prems Cons Cons.IH [of es2'] show ?thesis by simp
  qed
qed

text \<open>After the byte of success the request tells the form of the rest; any other byte is the whole response.\<close>

lemma payload_framing:
  assumes "response_type req r1" and "response_type req r2" and "valid_request req"
    and "response_bytes r1 = u8_of_ResponseStatus Success # p1" and "response_bytes r2 = u8_of_ResponseStatus Success # p2"
    and "p1 @ x = p2 @ y"
  shows "p1 = p2 \<and> x = y"
proof -
  have "\<not> failure st" if "u8_of_ResponseStatus st = u8_of_ResponseStatus Success" for st
    using that failure_byte by blast
  note ok = this
  show ?thesis
    using assms(1)
  proof cases
    case (listing es p)
    with assms(2,5) ok obtain es' where "r2 = RespListing es'" "list_all entry_type es'" by cases auto
    with listing assms(4-6) listing_framing [of es es' x y] show ?thesis by auto
  next
    case (data bs a)
    with assms(2,5) ok obtain bs' where bs': "r2 = RespData bs'" "length bs' \<le> unat (rh_data_len a)" by cases auto
    have "unat (rh_data_len a) < 2 ^ 32" by (rule order_less_le_trans [OF unsigned_less]) simp
    with data bs' assms(4-6) have "length bs = length bs' \<and> bs @ x = bs' @ y"
      by (intro length_prefix [where 'a = 32 and n = 4]) auto
    with data bs' assms(4-6) show ?thesis by auto
  next
    case (stat p st)
    with assms(2,5) ok obtain st' where "r2 = RespStat st'" by cases auto
    with stat assms(4-6) show ?thesis by (auto simp: FileStat_bytes_def)
  next
    case (handle a h)
    with assms(2,5) ok obtain h' where "r2 = RespHandle h'" by cases auto
    with handle assms(4-6) show ?thesis by auto
  next
    case (disk ds)
    with assms(2,5) ok obtain ds' where "r2 = RespDisk ds'" by cases auto
    with disk assms(4-6) show ?thesis by (auto simp: DiskStats_bytes_def)
  next
    case performed
    with assms(2,5) ok have "r2 = RespStatus Success" by cases auto
    with performed assms(4-6) show ?thesis by simp
  next
    case (refused st)
    with assms(4) ok show ?thesis by auto
  qed
qed

lemma response_head:
  assumes "response_type req r"
  obtains p where "response_bytes r = u8_of_ResponseStatus Success # p" | st where "r = RespStatus st" "failure st"
  using assms by cases auto

lemma response_framing:
  assumes "response_type req r1" and "response_type req r2" and "valid_request req"
    and "response_bytes r1 @ x = response_bytes r2 @ y"
  shows "response_bytes r1 = response_bytes r2 \<and> x = y"
proof (rule response_head [OF assms(1)])
  fix p1 assume p1: "response_bytes r1 = u8_of_ResponseStatus Success # p1"
  show ?thesis
  proof (rule response_head [OF assms(2)])
    fix p2 assume p2: "response_bytes r2 = u8_of_ResponseStatus Success # p2"
    with assms(4) p1 have "p1 @ x = p2 @ y" by simp
    from payload_framing [OF assms(1-3) p1 p2 this] p1 p2 show ?thesis by simp
  next
    fix st assume "r2 = RespStatus st" "failure st"
    with assms(4) p1 failure_byte [of st] show ?thesis by simp
  qed
next
  fix st assume r1: "r1 = RespStatus st" "failure st"
  with assms(2,4) failure_byte [of st] show ?thesis by (elim response_head) auto
qed

text \<open>
  C8: every response of the daemon has the type of its request. A valid request is answered,
  with a stat, a handle, data of at most the length asked for, a listing of entries with known status
  codes, or disk statistics after the byte of success, as the request prescribes, or with the single
  byte of an error known to the client; and no other response of that type begins with the same
  bytes and goes on differently, so that the client always finds the end of the response.
\<close>

theorem daemon_response_typed:
  fixes d :: "('s, 'w) ClientHandler"
  assumes "unix_socket net V" and "posix_os os dir_left" and "valid_request req" and "in_sync os req (world d)"
    and "ep_ok V d" and "in_of V d = request_body req @ rest"
  shows "\<exists>resp. response_type req resp
    \<and> wp (handle_request net os (request_type req)) (\<lambda>r d'. r = Inr () \<and> ep_ok V d' \<and> in_of V d' = rest
        \<and> out_of V d' = out_of V d @ response_bytes resp) d
    \<and> (\<forall>resp' x y. response_type req resp' \<longrightarrow> response_bytes resp @ x = response_bytes resp' @ y
        \<longrightarrow> response_bytes resp' = response_bytes resp \<and> x = y)"
proof -
  note dm = daemonI [OF assms(1,2)]
  from daemon.respond_total [OF dm] obtain resp w' where resp: "respond os req (world d) = Some (resp, w')" by blast
  have typed: "response_type req resp" by (rule posix_os.respond_typed [OF assms(2,3) resp])
  have "serves V (request_body req) (response_bytes resp) (world d) w' (handle_request net os (request_type req)) ()"
    using daemon.implements_request [OF dm, of req] assms(3,4) resp unfolding daemon.implements_def [OF dm] by blast
  with assms(5,6) have "wp (handle_request net os (request_type req)) (\<lambda>r d'. r = Inr () \<and> ep_ok V d' \<and> in_of V d' = rest
        \<and> out_of V d' = out_of V d @ response_bytes resp \<and> world d' = w') d"
    unfolding serves_def by blast
  then have "wp (handle_request net os (request_type req)) (\<lambda>r d'. r = Inr () \<and> ep_ok V d' \<and> in_of V d' = rest
        \<and> out_of V d' = out_of V d @ response_bytes resp) d" by (rule wp_mono) simp
  moreover have "response_bytes resp' = response_bytes resp \<and> x = y"
    if "response_type req resp'" and "response_bytes resp @ x = response_bytes resp' @ y" for resp' x y
    using response_framing [OF typed that(1) assms(3) that(2)] by (metis (full_types))
  ultimately show ?thesis using typed by blast
qed

theorem daemon_response_typed_witness:
  "\<exists>resp. response_type (ReqStat ''/mnt/sdcard/b'') resp
    \<and> wp (handle_request scripted_api ram_os StatFile) (\<lambda>r d'. r = Inr () \<and> out_of scripted_view d' = response_bytes resp)
        (ClientHandler_init (ex_sock (request_body (ReqStat ''/mnt/sdcard/b''))) ex_world)"
proof -
  let ?req = "ReqStat ''/mnt/sdcard/b''"
  let ?d = "ClientHandler_init (ex_sock (request_body ?req)) ex_world"
  have valid: "valid_request ?req" "in_sync ram_os ?req (world ?d)" by simp_all
  have ep: "ep_ok scripted_view ?d" "in_of scripted_view ?d = request_body ?req @ []" by (simp_all del: request_body.simps)
  obtain resp where typed: "response_type ?req resp"
    and run: "wp (handle_request scripted_api ram_os (request_type ?req)) (\<lambda>r d'. r = Inr () \<and> ep_ok scripted_view d'
      \<and> in_of scripted_view d' = [] \<and> out_of scripted_view d' = out_of scripted_view ?d @ response_bytes resp) ?d"
    using daemon_response_typed [OF scripted_unix.unix_socket_axioms ram_posix_os valid ep] by blast
  have "out_of scripted_view ?d = []" by simp
  then have "wp (handle_request scripted_api ram_os StatFile) (\<lambda>r d'. r = Inr () \<and> out_of scripted_view d' = response_bytes resp) ?d"
    by (intro wp_mono [OF run [unfolded request_type.simps]]) (simp only: append_Nil)
  with typed show ?thesis by blast
qed

end
