(* ===== verification/Concurrency.thy ===== *)
theory Concurrency
  imports Request_Programs Response_Types
begin

text \<open>
  The threads of Dokan on one \<open>Connection\<close>, as a step relation: any number of threads call
  the request functions, each step is one atomic action of one thread, and \<open>request_mutex\<close> is
  taken and released as the \<open>lock_guard\<close> of each function does. The mutex excludes all but one
  thread from the streams, so the requests of different threads never mix, every reply is the
  answer to the request of its own call, and the mutex is always released.
\<close>

section \<open>The machine\<close>

datatype 's thread =
    Idle
  | Looking call "('s Connection, reply option) prog"
  | Waiting call
  | Working call "('s Connection, reply) prog"

text \<open>
  \<open>sending\<close> are the requests the owner of the mutex has begun to write, and \<open>history\<close> the calls
  that have returned, each with the requests it sent and its result. Both are for the
  specification only: no step depends on them.
\<close>

record 's machine =
  shared :: "'s Connection"
  owner :: "nat option"
  threads :: "nat \<Rightarrow> 's thread"
  sending :: "request list"
  history :: "(nat \<times> call \<times> request list \<times> (exn + reply)) list"

definition set_thread :: "nat \<Rightarrow> 's thread \<Rightarrow> 's machine \<Rightarrow> 's machine" where
  "set_thread i t m = m\<lparr>threads := (threads m)(i := t)\<rparr>"

definition record_call :: "nat \<Rightarrow> call \<Rightarrow> request list \<Rightarrow> exn + reply \<Rightarrow> 's machine \<Rightarrow> 's machine" where
  "record_call i c qs r m = m\<lparr>history := history m @ [(i, c, qs, r)]\<rparr>"

definition labels :: "request option \<Rightarrow> request list" where
  "labels l = (case l of None \<Rightarrow> [] | Some q \<Rightarrow> [q])"

text \<open>The calls whose arguments have a wire form.\<close>

fun request_of :: "'s conn_env \<Rightarrow> call \<Rightarrow> request" where
  "request_of env (CallStat path) = ReqStat (win32_path_to_unix (to_utf8 env) path)"
| "request_of env (CallList path) = ReqList (win32_path_to_unix (to_utf8 env) path)"
| "request_of env (CallMove from to replace_if_exists) = ReqMove \<lparr>from_path = win32_path_to_unix (to_utf8 env) from,
     to_path = win32_path_to_unix (to_utf8 env) to, overwrite = replace_if_exists\<rparr>"
| "request_of env (CallRemoveFile path) = ReqRemoveFile (win32_path_to_unix (to_utf8 env) path)"
| "request_of env (CallCanRemoveFile path) = ReqCheckRemoveFile (win32_path_to_unix (to_utf8 env) path)"
| "request_of env (CallRemoveDirectory path) = ReqRemoveDirectory (win32_path_to_unix (to_utf8 env) path)"
| "request_of env (CallCanRemoveDirectory path) = ReqCheckRemoveDirectory (win32_path_to_unix (to_utf8 env) path)"
| "request_of env (CallCreateDirectory path) = ReqCreateDirectory (win32_path_to_unix (to_utf8 env) path)"
| "request_of env (CallOpen path mode ra wa) = ReqOpen \<lparr>oh_path = win32_path_to_unix (to_utf8 env) path, oh_mode = mode,
     oh_read_access = ra, oh_write_access = wa\<rparr>"
| "request_of env (CallClose h) = ReqClose h"
| "request_of env (CallWrite h off buf n) = ReqWrite h off buf"
| "request_of env (CallRead h off n) = ReqRead \<lparr>rh_handle = h, rh_data_len = n, rh_offset = off\<rparr>"
| "request_of env (CallSetLen h n) = ReqTruncate \<lparr>th_handle = h, new_length = n\<rparr>"
| "request_of env (CallSetTime path at wt) = ReqSetTime \<lparr>st_path = win32_path_to_unix (to_utf8 env) path,
     st_access_time = at, st_write_time = wt\<rparr>"
| "request_of env CallDiskStats = ReqDiskStats"

fun buffer_fits :: "call \<Rightarrow> bool" where
  "buffer_fits (CallWrite h off buf n) \<longleftrightarrow> unat n = length buf"
| "buffer_fits _ \<longleftrightarrow> True"

definition valid_call :: "'s conn_env \<Rightarrow> call \<Rightarrow> bool" where
  "valid_call env c \<longleftrightarrow> valid_request (request_of env c) \<and> buffer_fits c"

text \<open>
  The steps of thread \<open>i\<close>: a callback makes a call; the part before the mutex runs and may
  end the call; the mutex is taken when it is free; the part under the mutex runs; the
  \<open>lock_guard\<close> releases the mutex when the function returns or throws.
\<close>

inductive step :: "'s conn_env \<Rightarrow> nat \<Rightarrow> 's machine \<Rightarrow> 's machine \<Rightarrow> bool" for env i where
  start: "threads m i = Idle \<Longrightarrow> valid_call env c \<Longrightarrow>
    step env i m (set_thread i (Looking c (unlocked env c)) m)"
| look: "threads m i = Looking c (Act l f) \<Longrightarrow> f (shared m) = Some (p, s) \<Longrightarrow>
    step env i m (set_thread i (Looking c p) (m\<lparr>shared := s\<rparr>))"
| look_fails: "threads m i = Looking c (Return (Inl e)) \<Longrightarrow>
    step env i m (set_thread i Idle (record_call i c [] (Inl e) m))"
| hit: "threads m i = Looking c (Return (Inr (Some r))) \<Longrightarrow>
    step env i m (set_thread i Idle (record_call i c [] (Inr r) m))"
| miss: "threads m i = Looking c (Return (Inr None)) \<Longrightarrow>
    step env i m (set_thread i (Waiting c) m)"
| acquire: "threads m i = Waiting c \<Longrightarrow> owner m = None \<Longrightarrow>
    step env i m (set_thread i (Working c (locked env c)) (m\<lparr>owner := Some i\<rparr>))"
| work: "threads m i = Working c (Act l f) \<Longrightarrow> f (shared m) = Some (p, s) \<Longrightarrow>
    step env i m (set_thread i (Working c p) (m\<lparr>shared := s, sending := sending m @ labels l\<rparr>))"
| release: "threads m i = Working c (Return r) \<Longrightarrow>
    step env i m (set_thread i Idle (record_call i c (sending m) r (m\<lparr>owner := None, sending := []\<rparr>)))"

inductive_cases stepE: "step env i m m'"

text \<open>The machine when the connection has been made, and what its threads can make of it.\<close>

definition machine_start :: "'s Connection \<Rightarrow> 's machine" where
  "machine_start s = \<lparr>shared = s, owner = None, threads = (\<lambda>_. Idle), sending = [], history = []\<rparr>"

inductive reachable :: "'s conn_env \<Rightarrow> 's machine \<Rightarrow> 's machine \<Rightarrow> bool" for env m0 where
  initially: "reachable env m0 m0"
| stepped: "reachable env m0 m \<Longrightarrow> step env i m m' \<Longrightarrow> reachable env m0 m'"

lemma machine_upd [simp]:
  "threads (set_thread i t m) = (threads m)(i := t)" "shared (set_thread i t m) = shared m" "owner (set_thread i t m) = owner m"
  "sending (set_thread i t m) = sending m" "history (set_thread i t m) = history m"
  "threads (record_call i c qs r m) = threads m" "shared (record_call i c qs r m) = shared m"
  "owner (record_call i c qs r m) = owner m" "sending (record_call i c qs r m) = sending m"
  "history (record_call i c qs r m) = history m @ [(i, c, qs, r)]"
  by (simp_all add: set_thread_def record_call_def)

lemma machine_start_simps [simp]:
  "shared (machine_start s) = s" "owner (machine_start s) = None" "threads (machine_start s) i = Idle"
  "sending (machine_start s) = []" "history (machine_start s) = []"
  by (simp_all add: machine_start_def)

section \<open>Mutual exclusion\<close>

definition works :: "'s machine \<Rightarrow> nat \<Rightarrow> bool" where
  "works m i \<longleftrightarrow> (case threads m i of Working _ _ \<Rightarrow> True | _ \<Rightarrow> False)"

lemma step_owner:
  assumes "step env i m m'" and "\<And>j. works m j \<longleftrightarrow> owner m = Some j"
  shows "works m' j \<longleftrightarrow> owner m' = Some j"
  using assms(1)
proof cases
  case (acquire c)
  then show ?thesis using assms(2) [of j] by (auto simp: works_def)
qed (use assms(2) [of i] assms(2) [of j] in \<open>auto simp: works_def split: if_splits\<close>)

lemma reachable_owner:
  assumes "reachable env (machine_start s) m"
  shows "works m j \<longleftrightarrow> owner m = Some j"
  using assms by (induction arbitrary: j) (simp add: works_def, rule step_owner)

section \<open>Programs under interference\<close>

text \<open>What the threads without the mutex keep: they touch the caches only.\<close>

definition same_streams :: "'s Connection \<Rightarrow> 's Connection \<Rightarrow> bool" where
  "same_streams s s' \<longleftrightarrow> socket s' = socket s \<and> reader s' = reader s \<and> writer s' = writer s"

lemma same_streamsD:
  "same_streams s s' \<Longrightarrow> ep_ok V s' = ep_ok V s" "same_streams s s' \<Longrightarrow> in_of V s' = in_of V s"
  "same_streams s s' \<Longrightarrow> out_of V s' = out_of V s"
  by (simp_all add: same_streams_def ep_ok_def in_of_def out_of_def)

definition cache_yields :: "('s Connection, 'a) M \<Rightarrow> 'a set \<Rightarrow> bool" where
  "cache_yields m R \<longleftrightarrow> (\<forall>s. \<exists>a s'. m s = Some (Inr a, s') \<and> same_streams s s' \<and> a \<in> R)"

abbreviation cache_only :: "('s Connection, 'a) M \<Rightarrow> bool" where
  "cache_only m \<equiv> cache_yields m UNIV"

lemma cache_only_ops:
  "cache_only (stat_cache_get env p)" "cache_only (stat_cache_put env p st)" "cache_only (stat_cache_invalidate p)"
  "cache_only (dir_cache_get env p)" "cache_only (dir_cache_put env p names)" "cache_only (invalidate_parent_dir p)"
  by (auto simp: cache_yields_def same_streams_def stat_cache_get_run dir_cache_get_run looked_up_def dir_looked_up_def
      stat_cache_put_def stat_cache_invalidate_def dir_cache_put_def invalidate_parent_dir_modify modifyM_def)

text \<open>A program that only touches the caches, ends, and whose result is in \<open>R\<close>.\<close>

inductive harmless :: "(exn + 'r \<Rightarrow> bool) \<Rightarrow> ('s Connection, 'r) prog \<Rightarrow> bool" for R where
  harmless_Return: "R r \<Longrightarrow> harmless R (Return r)"
| harmless_Act: "(\<And>s. \<exists>p s'. f s = Some (p, s') \<and> same_streams s s' \<and> harmless R p) \<Longrightarrow> harmless R (Act l f)"

inductive_simps harmless_Return_iff [simp]: "harmless R (Return r)"

inductive_simps harmless_Act_iff: "harmless R (Act l f)"

lemma cache_yields_then:
  assumes "cache_only m"
  shows "cache_yields (bindM m (\<lambda>_. returnM x)) {x}"
  unfolding cache_yields_def
proof
  fix s
  from assms obtain a s' where "m s = Some (Inr a, s')" "same_streams s s'" unfolding cache_yields_def by blast
  then show "\<exists>a s'. bindM m (\<lambda>_. returnM x) s = Some (Inr a, s') \<and> same_streams s s' \<and> a \<in> {x}"
    by (simp add: bindM_run returnM_def)
qed

lemma harmless_action:
  assumes "cache_only m" and "\<And>a. harmless R (k a)"
  shows "harmless R (act m k)"
  unfolding action_def
proof (rule harmless_Act)
  fix s
  from assms(1) obtain a s' where "m s = Some (Inr a, s')" "same_streams s s'" unfolding cache_yields_def by blast
  with assms(2) show "\<exists>p s'. map_option (\<lambda>(r, s'). (case r of Inl e \<Rightarrow> Return (Inl e) | Inr a \<Rightarrow> k a, s')) (m s) = Some (p, s')
      \<and> same_streams s s' \<and> harmless R p" by simp
qed

text \<open>A program that begins no request but \<open>q\<close>, however long it runs.\<close>

coinductive begins_only :: "request \<Rightarrow> ('s, 'r) prog \<Rightarrow> bool" for q where
  begins_Return: "begins_only q (Return r)"
| begins_Act: "set_option l \<subseteq> {q} \<Longrightarrow> (\<And>s p s'. f s = Some (p, s') \<Longrightarrow> begins_only q p) \<Longrightarrow> begins_only q (Act l f)"

inductive_cases begins_ActE: "begins_only q (Act l f)"

lemma begins_step: "begins_only q (Act l f) \<Longrightarrow> f s = Some (p, s') \<Longrightarrow> begins_only q p"
  by (elim begins_ActE) blast

lemma begins_action:
  assumes "set_option l \<subseteq> {q}" and "\<And>a. begins_only q (k a)"
  shows "begins_only q (action l m k)"
proof -
  have "begins_only q (case r of Inl e \<Rightarrow> Return (Inl e) | Inr a \<Rightarrow> k a)" for r
    by (cases r) (simp_all add: begins_Return assms(2))
  then show ?thesis
    unfolding action_def by (intro begins_Act [OF assms(1)]) auto
qed

lemma begins_receive_listing: "begins_only q (receive_listing env dir l)"
proof (coinduction arbitrary: l)
  case begins_only
  show ?case
  proof (cases "is_Listed (snd (snd l))")
    case True
    then show ?thesis by (subst receive_listing.code) simp
  next
    case False
    then show ?thesis by (subst (1 2) receive_listing.code) auto
  qed
qed

text \<open>
  \<open>session V P A Q qs I U p\<close>: the rest \<open>p\<close> of a call that owns the mutex, which has begun the
  requests \<open>qs\<close>, with the input \<open>I\<close> ahead and the output \<open>U\<close> behind. As long as nobody else
  touches the streams and the requests are acceptable (\<open>A\<close>), each action is possible and the
  program ends in a result that satisfies \<open>Q\<close>; all requests it begins satisfy \<open>P\<close>. Cache
  accesses of other threads between two actions are covered: each action is met in any state
  with these streams.
\<close>

inductive session :: "'s sock_view \<Rightarrow> (request list \<Rightarrow> bool) \<Rightarrow> (request list \<Rightarrow> bool)
    \<Rightarrow> (request list \<Rightarrow> u8 list \<Rightarrow> u8 list \<Rightarrow> exn + 'r \<Rightarrow> bool)
    \<Rightarrow> request list \<Rightarrow> u8 list \<Rightarrow> u8 list \<Rightarrow> ('s Connection, 'r) prog \<Rightarrow> bool" for V P A Q where
  session_Return: "Q qs I U r \<Longrightarrow> session V P A Q qs I U (Return r)"
| session_Act: "P (qs @ labels l) \<Longrightarrow>
    (\<And>s. A (qs @ labels l) \<Longrightarrow> ep_ok V s \<Longrightarrow> in_of V s = I \<Longrightarrow> out_of V s = U \<Longrightarrow>
      \<exists>p s'. f s = Some (p, s') \<and> ep_ok V s' \<and> session V P A Q (qs @ labels l) (in_of V s') (out_of V s') p) \<Longrightarrow>
    session V P A Q qs I U (Act l f)"

inductive_simps session_simps: "session V P A Q qs I U (Return r)" "session V P A Q qs I U (Act l f)"

lemma labels_simps [simp]: "labels None = []" "labels (Some q) = [q]"
  by (simp_all add: labels_def)

text \<open>An action on the streams and one on the caches.\<close>

lemma session_transacts:
  fixes k :: "'a \<Rightarrow> ('s Connection, 'r) prog" and m :: "('s Connection, 'a) M"
  assumes "P (qs @ labels l)" and "transacts V i out m a"
    and "A (qs @ labels l) \<Longrightarrow> session V P A Q (qs @ labels l) rest (U @ out) (k a)"
  shows "session V P A Q qs (i @ rest) U (action l m k)"
  unfolding action_def
proof (rule session_Act)
  fix s :: "'s Connection"
  assume "A (qs @ labels l)" and s: "ep_ok V s" "in_of V s = i @ rest" "out_of V s = U"
  note k = assms(3) [OF this(1)]
  from assms(2) s obtain s' where "m s = Some (Inr a, s')" "io_step V rest (U @ out) s s'"
    by (auto simp: transacts_def wp_iff)
  with k show "\<exists>p s'. map_option (\<lambda>(r, s'). (case r of Inl e \<Rightarrow> Return (Inl e) | Inr a \<Rightarrow> k a, s')) (m s) = Some (p, s')
      \<and> ep_ok V s' \<and> session V P A Q (qs @ labels l) (in_of V s') (out_of V s') p"
    by (auto simp: io_step_def)
qed (rule assms(1))

lemma session_cache:
  fixes k :: "'a \<Rightarrow> ('s Connection, 'r) prog" and m :: "('s Connection, 'a) M"
  assumes "P qs" and "cache_yields m R" and "\<And>a. a \<in> R \<Longrightarrow> session V P A Q qs I U (k a)"
  shows "session V P A Q qs I U (act m k)"
  unfolding action_def
proof (rule session_Act)
  fix s :: "'s Connection"
  assume s: "ep_ok V s" "in_of V s = I" "out_of V s = U"
  from assms(2) obtain a s' where "m s = Some (Inr a, s')" "same_streams s s'" "a \<in> R" unfolding cache_yields_def by blast
  with assms(3) s show "\<exists>p s'. map_option (\<lambda>(r, s'). (case r of Inl e \<Rightarrow> Return (Inl e) | Inr a \<Rightarrow> k a, s')) (m s) = Some (p, s')
      \<and> ep_ok V s' \<and> session V P A Q (qs @ labels None) (in_of V s') (out_of V s') p"
    by (auto simp: same_streamsD)
qed (simp add: assms(1))

section \<open>Requests, answers and replies\<close>

text \<open>The responses that the client can decode as an answer to a request.\<close>

fun answers :: "'s conn_env \<Rightarrow> request \<Rightarrow> response \<Rightarrow> bool" where
  "answers env (ReqStat p) resp \<longleftrightarrow> (case resp of RespStat _ \<Rightarrow> True | RespStatus st \<Rightarrow> failure st | _ \<Rightarrow> False)"
| "answers env (ReqList p) resp \<longleftrightarrow>
     (case resp of RespListing es \<Rightarrow> list_all (entry_ok env) es | RespStatus st \<Rightarrow> failure st | _ \<Rightarrow> False)"
| "answers env (ReqOpen a) resp \<longleftrightarrow> open_response resp"
| "answers env (ReqRead a) resp \<longleftrightarrow> (case resp of
       RespData bs \<Rightarrow> length bs \<le> unat (rh_data_len a) \<and> length bs < 2 ^ 31
     | RespStatus st \<Rightarrow> failure st | _ \<Rightarrow> False)"
| "answers env ReqDiskStats resp \<longleftrightarrow> (case resp of RespDisk _ \<Rightarrow> True | RespStatus st \<Rightarrow> failure st | _ \<Rightarrow> False)"
| "answers env _ resp \<longleftrightarrow> (case resp of RespStatus st \<Rightarrow> named_status st | _ \<Rightarrow> False)"

fun status_in :: "response \<Rightarrow> ResponseStatus" where
  "status_in (RespStatus st) = st"
| "status_in _ = Success"

text \<open>What a call makes of the response to its request.\<close>

fun reply_of :: "'s conn_env \<Rightarrow> call \<Rightarrow> response \<Rightarrow> reply" where
  "reply_of env (CallStat path) resp = StatReply (status_in resp) (case resp of RespStat st \<Rightarrow> Some st | _ \<Rightarrow> None)"
| "reply_of env (CallList path) resp =
     ListReply (status_in resp) (case resp of RespListing es \<Rightarrow> calls_of env (shown es) | _ \<Rightarrow> [])"
| "reply_of env (CallOpen path mode ra wa) resp = OpenReply (status_in resp) (case resp of RespHandle h \<Rightarrow> Some h | _ \<Rightarrow> None)"
| "reply_of env (CallRead h off n) resp =
     DataReply (status_in resp) (case resp of RespData bs \<Rightarrow> Some (int (length bs), bs) | _ \<Rightarrow> None)"
| "reply_of env CallDiskStats resp = DiskReply (status_in resp) (case resp of RespDisk ds \<Rightarrow> Some ds | _ \<Rightarrow> None)"
| "reply_of env _ resp = StatusReply (status_in resp)"

text \<open>The replies that need no exchange: a cached stat or listing, and the refusals for \<open>desktop.ini\<close>.\<close>

fun local_reply :: "'s conn_env \<Rightarrow> call \<Rightarrow> exn + reply \<Rightarrow> bool" where
  "local_reply env (CallStat path) r \<longleftrightarrow> (case r of
       Inr (StatReply st out) \<Rightarrow> (case out of Some _ \<Rightarrow> st = Success
         | None \<Rightarrow> st = FileNotFound \<and> ends_with (win32_path_to_unix (to_utf8 env) path) ''desktop.ini'')
     | _ \<Rightarrow> False)"
| "local_reply env (CallList path) r \<longleftrightarrow> (case r of Inl e \<Rightarrow> True | Inr (ListReply st calls) \<Rightarrow> st = Success | _ \<Rightarrow> False)"
| "local_reply env (CallOpen path mode ra wa) r \<longleftrightarrow>
     r = Inr (OpenReply GenericFailure None) \<and> ends_with (win32_path_to_unix (to_utf8 env) path) ''desktop.ini''"
| "local_reply env _ r \<longleftrightarrow> False"

text \<open>The responses still to come, the next one first.\<close>

definition wire :: "response list \<Rightarrow> u8 list" where
  "wire rs = concat (map response_bytes rs)"

lemma wire_simps [simp]: "wire [] = []" "wire (resp # rs) = response_bytes resp @ wire rs" "wire (rs @ rs') = wire rs @ wire rs'"
  by (simp_all add: wire_def)

text \<open>The request of a call, if it has begun one, is answered by the next response ahead.\<close>

definition answered :: "'s conn_env \<Rightarrow> response list \<Rightarrow> request list \<Rightarrow> bool" where
  "answered env ahead qs \<longleftrightarrow> (case qs of [] \<Rightarrow> True
     | q # _ \<Rightarrow> (case ahead of [] \<Rightarrow> False | resp # _ \<Rightarrow> answers env q resp))"

definition own_requests :: "'s conn_env \<Rightarrow> call \<Rightarrow> request list \<Rightarrow> bool" where
  "own_requests env c qs \<longleftrightarrow> qs = [] \<or> qs = [request_of env c]"

text \<open>How a call ends: without an exchange, or with its own request sent and the next response read and decoded.\<close>

definition outcome :: "'s conn_env \<Rightarrow> call \<Rightarrow> response list \<Rightarrow> u8 list \<Rightarrow> u8 list
    \<Rightarrow> request list \<Rightarrow> u8 list \<Rightarrow> u8 list \<Rightarrow> exn + reply \<Rightarrow> bool" where
  "outcome env c ahead rest U qs I U' r \<longleftrightarrow>
     (if qs = [] then I = wire ahead @ rest \<and> U' = U \<and> local_reply env c r
      else qs = [request_of env c] \<and> ahead \<noteq> [] \<and> I = wire (tl ahead) @ rest \<and> U' = U @ request_bytes (request_of env c)
        \<and> r = Inr (reply_of env c (hd ahead)))"

definition call_session :: "'s sock_view \<Rightarrow> 's conn_env \<Rightarrow> call \<Rightarrow> response list \<Rightarrow> u8 list \<Rightarrow> u8 list
    \<Rightarrow> request list \<Rightarrow> u8 list \<Rightarrow> u8 list \<Rightarrow> ('s Connection, reply) prog \<Rightarrow> bool" where
  "call_session V env c ahead rest U = session V (own_requests env c) (answered env ahead) (outcome env c ahead rest U)"

text \<open>The result of the part before the mutex: nothing yet, or a local reply.\<close>

fun early_ok :: "'s conn_env \<Rightarrow> call \<Rightarrow> exn + reply option \<Rightarrow> bool" where
  "early_ok env c (Inl e) \<longleftrightarrow> local_reply env c (Inl e)"
| "early_ok env c (Inr None) \<longleftrightarrow> True"
| "early_ok env c (Inr (Some r)) \<longleftrightarrow> local_reply env c (Inr r)"

lemma look_up_entries_harmless: "harmless (early_ok env (CallList path)) (look_up_entries env dir names calls)"
  by (induction names arbitrary: calls) (auto intro!: harmless_action cache_only_ops split: option.split sum.split)

lemma early_ok_cached [simp]: "early_ok env (CallStat path) (Inr (map_option (\<lambda>st. StatReply Success (Some st)) cached))"
  by (cases cached) simp_all

lemma unlocked_harmless: "harmless (early_ok env c) (unlocked env c)"
  by (cases c) (auto intro!: harmless_action cache_only_ops look_up_entries_harmless split: option.split)

section \<open>Every call under the mutex\<close>

text \<open>The actions of a call: beginning its request, writing, reading, and accesses to the caches.\<close>

lemma call_session_begin:
  assumes "transacts V [] out m a"
    and "answered env ahead [request_of env c] \<Longrightarrow> call_session V env c ahead rest U\<^sub>0 [request_of env c] I (U @ out) (k a)"
  shows "call_session V env c ahead rest U\<^sub>0 [] I U (action (Some (request_of env c)) m k)"
  using session_transacts [of "own_requests env c" "[]" "Some (request_of env c)" V "[]" out m a "answered env ahead"
      "outcome env c ahead rest U\<^sub>0" I U k] assms by (simp add: call_session_def own_requests_def)

lemma call_session_write:
  assumes "own_requests env c qs" and "transacts V [] out m a"
    and "call_session V env c ahead rest U\<^sub>0 qs I (U @ out) (k a)"
  shows "call_session V env c ahead rest U\<^sub>0 qs I U (act m k)"
  using session_transacts [of "own_requests env c" qs None V "[]" out m a "answered env ahead"
      "outcome env c ahead rest U\<^sub>0" I U k] assms by (simp add: call_session_def)

lemma call_session_read:
  assumes "own_requests env c qs" and "transacts V i [] m a"
    and "call_session V env c ahead rest U\<^sub>0 qs I U (k a)"
  shows "call_session V env c ahead rest U\<^sub>0 qs (i @ I) U (act m k)"
  using session_transacts [of "own_requests env c" qs None V i "[]" m a "answered env ahead"
      "outcome env c ahead rest U\<^sub>0" I U k] assms by (simp add: call_session_def)

lemma call_session_cache:
  assumes "own_requests env c qs" and "cache_yields m R" and "\<And>a. a \<in> R \<Longrightarrow> call_session V env c ahead rest U\<^sub>0 qs I U (k a)"
  shows "call_session V env c ahead rest U\<^sub>0 qs I U (act m k)"
  using session_cache [of "own_requests env c" qs m R V "answered env ahead" "outcome env c ahead rest U\<^sub>0" I U k] assms
  by (simp add: call_session_def)

lemmas call_session_caches = cache_only_ops [THEN call_session_cache [rotated]]

lemma call_session_Return:
  "outcome env c ahead rest U\<^sub>0 qs I U r \<Longrightarrow> call_session V env c ahead rest U\<^sub>0 qs I U (Return r)"
  by (simp add: call_session_def session_Return)

lemma own_requests_own [simp]: "own_requests env c []" "own_requests env c [request_of env c]"
  by (simp_all add: own_requests_def)

context client
begin

text \<open>The whole request, with the response to it ahead.\<close>

lemma call_session_send:
  assumes "request_of env c = req" and "transacts V [] (request_body req) body ()"
    and "\<And>resp rs. ahead = resp # rs \<Longrightarrow> answers env req resp \<Longrightarrow>
      call_session V env c ahead rest U [req] (response_bytes resp @ wire rs @ rest) (U @ request_bytes req) k"
  shows "call_session V env c ahead rest U [] (wire ahead @ rest) U (send_request env req body k)"
  unfolding send_request_def assms(1) [symmetric]
proof (rule call_session_begin)
  show "transacts V [] [u8_of_RequestType (request_type (request_of env c))]
      (write_request env (request_type (request_of env c)) :: ('s Connection, unit) M) ()"
    unfolding write_request_def by (rule conn.transacts_write_byte)
  assume "answered env ahead [request_of env c]"
  then obtain resp rs where ahead: "ahead = resp # rs" "answers env req resp"
    using assms(1) by (auto simp: answered_def split: list.splits)
  show "call_session V env c ahead rest U [request_of env c] (wire ahead @ rest)
      (U @ [u8_of_RequestType (request_type (request_of env c))]) (act body (\<lambda>_. act (flush (conn_write env)) (\<lambda>_. k)))"
    by (rule call_session_write [where out = "request_body req" and a = "()"], simp, rule assms(2),
        rule call_session_write [where out = "[]" and a = "()"], simp, rule conn.transacts_flush)
       (use assms(1) assms(3) [OF ahead] ahead in \<open>simp_all add: request_bytes_def\<close>)
qed

text \<open>The reading of the status byte of a response, and the requests answered by it alone.\<close>

lemma call_session_status:
  assumes "own_requests env c qs" and "named_status st" and "call_session V env c ahead rest U\<^sub>0 qs I U (k st)"
  shows "call_session V env c ahead rest U\<^sub>0 qs (u8_of_ResponseStatus st # I) U (act (read_status env) k)"
  using call_session_read [where k = k, OF assms(1) read_status_spec [OF assms(2)] assms(3)] by simp

lemma call_session_status_request:
  assumes "request_of env c = req" and "transacts V [] (request_body req) body ()"
    and "\<And>resp. answers env req resp \<Longrightarrow> \<exists>st. resp = RespStatus st \<and> named_status st \<and> reply_of env c resp = StatusReply st"
  shows "call_session V env c ahead rest U [] (wire ahead @ rest) U (send_request env req body (status_reply env))"
proof (rule call_session_send [OF assms(1,2)])
  fix resp rs
  assume ahead: "ahead = resp # rs" "answers env req resp"
  from assms(3) [OF ahead(2)] obtain st where st: "resp = RespStatus st" "named_status st" "reply_of env c resp = StatusReply st"
    by blast
  then show "call_session V env c ahead rest U [req] (response_bytes resp @ wire rs @ rest) (U @ request_bytes req) (status_reply env)"
    unfolding status_reply_def using assms(1) ahead
    by (auto intro!: call_session_status call_session_Return simp: outcome_def)
qed

text \<open>The receiving loop, entry by entry.\<close>

lemma listing_actions:
  "named_status st \<Longrightarrow> transacts V [u8_of_ResponseStatus st] [] (listing_action env dir (entries, consumed, Entry_status))
     (entries, consumed, if st = NoMoreEntries then All_entries else if st = Success then Entry_name else Entry_status)"
  "length name \<le> 65535 \<Longrightarrow> transacts V (utf8_bytes name) [] (listing_action env dir (entries, consumed, Entry_name))
     (entries, consumed, Entry_stat name)"
  "transacts V (FileStat_bytes stat) [] (listing_action env dir (entries, consumed, Entry_stat name))
     (entries, consumed, Entry_store name stat)"
  by (auto intro!: transacts_tagged read_status_spec conn.transacts_read_utf8_string conn.FileStat_read_spec)

lemma listing_stores:
  "from_utf8 env name \<noteq> None \<Longrightarrow> cache_yields (listing_action env dir (entries, consumed, Entry_store name stat))
     {(entries @ [name], consumed @ [(stat, win_name env name)], Entry_status)}"
  "cache_yields (listing_action env dir (entries, consumed, All_entries)) {(entries, consumed, Listed (Inr (ListReply Success consumed)))}"
  by (simp_all add: entry_converts cache_yields_then [OF cache_only_ops(2)] cache_yields_then [OF cache_only_ops(5)])

lemma call_session_listing:
  assumes own: "own_requests env c qs" and "list_all (entry_ok env) es"
    and "outcome env c ahead rest U\<^sub>0 qs I U (Inr (ListReply Success (consumed @ calls_of env (shown es))))"
  shows "call_session V env c ahead rest U\<^sub>0 qs (concat (map entry_bytes es) @ u8_of_ResponseStatus NoMoreEntries # I) U
    (receive_listing env dir (entries, consumed, Entry_status))"
  using assms(2,3)
proof (induction es arbitrary: entries consumed)
  case Nil
  have "call_session V env c ahead rest U\<^sub>0 qs I U (receive_listing env dir (entries, consumed, All_entries))"
    by (subst receive_listing_action, simp, rule call_session_cache [OF own listing_stores(2)])
       (use Nil in \<open>simp add: call_session_Return shown_def calls_of_def\<close>)
  then show ?case
    by (subst receive_listing_action, simp)
       (use call_session_read [OF own listing_actions(1) [of NoMoreEntries], where k = "receive_listing env dir"]
         in \<open>simp add: named_status_def\<close>)
next
  case (Cons e es)
  obtain name status stat where e: "e = (name, status, stat)" by (cases e)
  let ?tail = "concat (map entry_bytes es) @ u8_of_ResponseStatus NoMoreEntries # I"
  let ?go = "\<lambda>I l. call_session V env c ahead rest U\<^sub>0 qs I U (receive_listing env dir l)"
  note read = call_session_read [OF own, where k = "receive_listing env dir"]
  show ?case
  proof (cases "status = Success")
    case False
    then have "?go ?tail (entries, consumed, Entry_status)"
      using Cons.prems e by (intro Cons.IH) (auto simp: shown_def)
    with False Cons.prems(1) e show ?thesis
      by (subst receive_listing_action, simp) (use read [OF listing_actions(1) [of status]] in auto)
  next
    case True
    from Cons.prems(1) e True have ok: "length name \<le> 65535" "from_utf8 env name \<noteq> None" "list_all (entry_ok env) es" by auto
    have "?go ?tail (entries @ [name], consumed @ [(stat, win_name env name)], Entry_status)"
      using Cons.prems e True by (intro Cons.IH) (auto simp: shown_def calls_of_def)
    then have "?go ?tail (entries, consumed, Entry_store name stat)"
      by (subst receive_listing_action, simp, intro call_session_cache [OF own listing_stores(1) [OF ok(2)]]) simp
    then have "?go (FileStat_bytes stat @ ?tail) (entries, consumed, Entry_stat name)"
      by (subst receive_listing_action, simp, intro read [OF listing_actions(3)])
    then have "?go (utf8_bytes name @ FileStat_bytes stat @ ?tail) (entries, consumed, Entry_name)"
      by (subst receive_listing_action, simp, intro read [OF listing_actions(2) [OF ok(1)]])
    then have "?go ([u8_of_ResponseStatus Success] @ utf8_bytes name @ FileStat_bytes stat @ ?tail) (entries, consumed, Entry_status)"
      by (subst receive_listing_action, simp, intro read [OF listing_actions(1)]) simp_all
    with e True show ?thesis by simp
  qed
qed

text \<open>Data of a read response within the length asked for, and the body of a write request.\<close>

lemma data_in_bounds:
  assumes "length (bs :: u8 list) \<le> unat (n :: u32)" and "length bs < 2 ^ 31"
  shows "sint (word_of_nat (length bs) :: u32) = int (length bs)" and "\<not> uint n < int (length bs)"
  using assms small_word(2) [OF assms(2)] by (simp_all add: not_less le_nat_iff flip: nat_uint_eq)

lemma write_body_sent:
  assumes "length buf < 2 ^ 31"
  shows "transacts V [] (request_body (ReqWrite h off buf)) (thenM (WriteHandleInitArgs_write (conn_write env) (write_args h off buf))
    (write_exact (conn_write env) buf (sint (word_of_nat (length buf) :: u32)))) ()"
  using transacts_write [OF conn.WriteHandleInitArgs_write_spec conn.transacts_write_exact] small_word(2) [OF assms] by simp

lemma locked_session:
  assumes "valid_call env c"
  shows "call_session V env c ahead rest U [] (wire ahead @ rest) U (locked env c)"
proof (cases c)
  case (CallStat path)
  with assms show ?thesis
    by (auto simp: valid_call_def Let_def failure_def outcome_def own_requests_def conn.transacts_write_utf8_string
        split: option.split response.splits
        intro!: call_session_caches call_session_send call_session_status call_session_Return
          call_session_read [OF _ conn.FileStat_read_spec])
next
  case (CallList path)
  with assms show ?thesis
    by (auto simp: valid_call_def Let_def failure_def outcome_def own_requests_def conn.transacts_write_utf8_string split: response.splits
        intro!: call_session_send call_session_status call_session_Return call_session_listing)
next
  case (CallOpen path mode ra wa)
  with assms show ?thesis
    by (auto simp: valid_call_def Let_def open_response_def opened_def outcome_def conn.OpenHandleArgs_write_spec own_requests_def split: response.splits
        intro!: call_session_caches call_session_send call_session_status call_session_Return
          call_session_read [OF _ conn.transacts_read_u32])
next
  case (CallRead h off n)
  with assms show ?thesis
    by (auto simp: data_in_bounds valid_call_def Let_def failure_def outcome_def own_requests_def conn.ReadHandleArgs_write_spec split: response.splits
        intro!: call_session_send call_session_status call_session_Return
          call_session_read [OF _ conn.transacts_read_u32] call_session_read [OF _ conn.transacts_read_exact])
next
  case CallDiskStats
  with assms show ?thesis
    by (auto simp: failure_def outcome_def own_requests_def transacts_returnM split: response.splits
        intro!: call_session_send call_session_status call_session_Return call_session_read [OF _ conn.DiskStats_read_spec])
next
  case (CallWrite h off buf n)
  with assms have "unat n = length buf" and len: "length buf < 2 ^ 31" by (simp_all add: valid_call_def)
  then have "n = word_of_nat (length buf)" by (simp flip: \<open>unat n = length buf\<close>)
  with CallWrite write_body_sent [OF len, of h off] show ?thesis
    by (auto simp: write_args_def split: response.splits intro!: call_session_status_request)
qed (use assms in \<open>auto simp: valid_call_def Let_def forget_path_def split: response.splits
  intro!: call_session_status_request call_session_caches conn.transacts_write_utf8_string conn.MoveEntryArgs_write_spec
   conn.transacts_write_u32 conn.TruncateHandleArgs_write_spec conn.SetFileTimeArgs_write_spec\<close>)

end

lemma locked_begins_only: "begins_only (request_of env c) (locked env c)"
  by (cases c) (auto simp: Let_def send_request_def forget_path_def status_reply_def opened_def
      intro!: begins_action begins_Return begins_receive_listing split: option.split)

section \<open>The invariant of the machine\<close>

definition request_log :: "(nat \<times> call \<times> request list \<times> (exn + reply)) list \<Rightarrow> request list" where
  "request_log h = concat (map (\<lambda>(i, c, qs, r). qs) h)"

text \<open>The requests sent so far, in the order in which their callers owned the mutex.\<close>

definition requests_sent :: "'s machine \<Rightarrow> request list" where
  "requests_sent m = request_log (history m) @ sending m"

text \<open>The calls that made an exchange, in the same order.\<close>

definition exchanges :: "'s machine \<Rightarrow> (nat \<times> call \<times> request list \<times> (exn + reply)) list" where
  "exchanges m = filter (\<lambda>(i, c, qs, r). qs \<noteq> []) (history m)"

definition call_justified :: "'s conn_env \<Rightarrow> nat \<times> call \<times> request list \<times> (exn + reply) \<Rightarrow> bool" where
  "call_justified env e = (case e of (i, c, qs, r) \<Rightarrow>
     if qs = [] then local_reply env c r else qs = [request_of env c])"

definition reply_justified :: "'s conn_env \<Rightarrow> nat \<times> call \<times> request list \<times> (exn + reply) \<Rightarrow> response \<Rightarrow> bool" where
  "reply_justified env e resp = (case e of (i, c, qs, r) \<Rightarrow> r = Inr (reply_of env c resp))"

fun thread_ok :: "'s conn_env \<Rightarrow> 's thread \<Rightarrow> bool" where
  "thread_ok env Idle \<longleftrightarrow> True"
| "thread_ok env (Looking c p) \<longleftrightarrow> valid_call env c \<and> harmless (early_ok env c) p"
| "thread_ok env (Waiting c) \<longleftrightarrow> valid_call env c"
| "thread_ok env (Working c p) \<longleftrightarrow> valid_call env c \<and> begins_only (request_of env c) p"

text \<open>
  The streams when the responses \<open>ahead\<close> are still to come and the requests of the history have been
  answered: with the mutex free nothing is under way, otherwise its owner is in the middle of a call.
\<close>

definition streams_ok :: "'s sock_view \<Rightarrow> 's conn_env \<Rightarrow> response list \<Rightarrow> u8 list \<Rightarrow> u8 list \<Rightarrow> 's machine \<Rightarrow> bool" where
  "streams_ok V env ahead rest U m \<longleftrightarrow> ep_ok V (shared m) \<and>
     (case owner m of
        None \<Rightarrow> in_of V (shared m) = wire ahead @ rest \<and> out_of V (shared m) = U
      | Some i \<Rightarrow> \<exists>c p. threads m i = Working c p \<and> own_requests env c (sending m)
          \<and> call_session V env c ahead rest U (sending m) (in_of V (shared m)) (out_of V (shared m)) p)"

definition control_inv :: "'s conn_env \<Rightarrow> 's machine \<Rightarrow> bool" where
  "control_inv env m \<longleftrightarrow> (\<forall>i. works m i \<longleftrightarrow> owner m = Some i) \<and> (owner m = None \<longrightarrow> sending m = [])
     \<and> (\<forall>i. thread_ok env (threads m i))
     \<and> (\<forall>i c p. threads m i = Working c p \<longrightarrow> set (sending m) \<subseteq> {request_of env c})
     \<and> list_all (\<lambda>(i, c, qs, r). valid_call env c \<and> set qs \<subseteq> {request_of env c}) (history m)"

definition data_inv :: "'s sock_view \<Rightarrow> 's conn_env \<Rightarrow> response list \<Rightarrow> u8 list \<Rightarrow> u8 list \<Rightarrow> 's machine \<Rightarrow> bool" where
  "data_inv V env resps rest out m \<longleftrightarrow>
     (\<forall>rs ahead. resps = rs @ ahead \<longrightarrow> list_all2 (answers env) (request_log (history m)) rs \<longrightarrow> answered env ahead (sending m) \<longrightarrow>
        list_all (call_justified env) (history m) \<and> list_all2 (reply_justified env) (exchanges m) rs
        \<and> streams_ok V env ahead rest (out @ concat (map request_bytes (request_log (history m)))) m)"

lemma data_invD:
  assumes "data_inv V env resps rest out m" and "resps = rs @ ahead"
    and "list_all2 (answers env) (request_log (history m)) rs" and "answered env ahead (sending m)"
  shows "list_all (call_justified env) (history m)" and "list_all2 (reply_justified env) (exchanges m) rs"
    and "streams_ok V env ahead rest (out @ concat (map request_bytes (request_log (history m)))) m"
  using assms unfolding data_inv_def by blast+

lemma request_log_simps [simp]: "request_log [] = []" "request_log (h @ [(i, c, qs, r)]) = request_log h @ qs"
  by (simp_all add: request_log_def)

lemma exchanges_simps [simp]:
  "exchanges (machine_start s) = []" "exchanges (set_thread i t m) = exchanges m" "exchanges (m\<lparr>shared := s\<rparr>) = exchanges m"
  "exchanges (m\<lparr>owner := ow\<rparr>) = exchanges m" "exchanges (m\<lparr>sending := qs\<rparr>) = exchanges m"
  "exchanges (record_call i c qs r m) = exchanges m @ (if qs = [] then [] else [(i, c, qs, r)])"
  by (simp_all add: exchanges_def)

lemma harmless_step:
  assumes "harmless R (Act l f)" and "f s = Some (p, s')"
  shows "same_streams s s'" and "harmless R p"
  using assms by (auto simp: harmless_Act_iff dest!: spec [of _ s])

lemma step_control:
  assumes "control_inv env m" and "step env i m m'"
  shows "control_inv env m'"
proof -
  have "works m' j \<longleftrightarrow> owner m' = Some j" for j
    using assms by (intro step_owner [OF assms(2)]) (simp add: control_inv_def)
  moreover have T: "thread_ok env (threads m j)" and w: "works m j \<longleftrightarrow> owner m = Some j"
    and own: "threads m j = Working c p \<Longrightarrow> set (sending m) \<subseteq> {request_of env c}"
    and free: "owner m = None \<Longrightarrow> sending m = []" for j c p
    using assms(1) unfolding control_inv_def by blast+
  have "thread_ok env (threads m' j)" for j
    using assms(2) by cases (use T [of i] T [of j] in \<open>auto simp: unlocked_harmless locked_begins_only
        dest: harmless_step(2) begins_step\<close>)
  moreover from assms(2) have "owner m' = None \<Longrightarrow> sending m' = []"
    by cases (use free w [of i] in \<open>simp_all add: works_def\<close>)
  moreover have "set (sending m') \<subseteq> {request_of env c}" if "threads m' j = Working c p" for j c p
    using assms(2)
  proof cases
    case (work c' l f p' s)
    then have "owner m = Some i" "set_option l \<subseteq> {request_of env c'}" "set (sending m) \<subseteq> {request_of env c'}"
      using w [of i] T [of i] own [of i] by (auto simp: works_def elim: begins_ActE)
    moreover from this(1) work that w [of j] have "j = i" by (auto simp: works_def split: if_splits)
    ultimately show ?thesis using work that by (auto simp: labels_def split: option.splits)
  next
    case (acquire c')
    then show ?thesis using free by simp
  qed (use that own [of j] w [of i] w [of j] in \<open>auto simp: works_def split: if_splits\<close>)
  moreover have "list_all (\<lambda>(i, c, qs, r). valid_call env c \<and> set qs \<subseteq> {request_of env c}) (history m')"
    using assms(2) by cases (use assms(1) T [of i] own [of i] in \<open>simp_all add: control_inv_def\<close>)
  ultimately show ?thesis by (simp add: control_inv_def)
qed

lemma streams_ok_frame:
  assumes "streams_ok V env ahead rest U m" and "owner m' = owner m" and "sending m' = sending m"
    and "\<And>j. owner m = Some j \<Longrightarrow> threads m' j = threads m j" and "same_streams (shared m) (shared m')"
  shows "streams_ok V env ahead rest U m'"
  using assms by (auto simp: streams_ok_def same_streamsD split: option.splits)

lemma same_streams_refl [simp]: "same_streams s s"
  by (simp add: same_streams_def)

context client
begin

text \<open>Steps of threads that do not own the mutex.\<close>

lemma step_data_other:
  assumes "step env i m m'" and "control_inv env m" and "data_inv V env resps rest out m" and "\<not> works m i" and "owner m' = owner m"
  shows "data_inv V env resps rest out m'"
proof -
  have T: "thread_ok env (threads m i)" using assms(2) by (simp add: control_inv_def)
  have own: "owner m \<noteq> Some i" using assms(2,4) by (simp add: control_inv_def)
  have frame: "threads m' j = threads m j" if "owner m = Some j" for j
    using assms(1) by cases (use that own in auto)
  have keep: "sending m' = sending m" "same_streams (shared m) (shared m')"
    and log: "request_log (history m') = request_log (history m)" "exchanges m' = exchanges m"
    and just: "list_all (call_justified env) (history m) \<Longrightarrow> list_all (call_justified env) (history m')"
    using assms(1) by (cases; use T assms(4,5) in \<open>auto simp: works_def call_justified_def dest: harmless_step(1)\<close>)+
  show ?thesis
    using assms(3) unfolding data_inv_def keep(1) log
    by (auto intro: just streams_ok_frame [OF _ assms(5) keep(1) frame keep(2)])
qed

lemma step_data_acquire:
  assumes "threads m i = Waiting c" and "owner m = None" and "control_inv env m" and "data_inv V env resps rest out m"
  shows "data_inv V env resps rest out (set_thread i (Working c (locked env c)) (m\<lparr>owner := Some i\<rparr>))"
proof -
  have "valid_call env c" using assms(1,3) unfolding control_inv_def by (metis thread_ok.simps(3))
  then have lock: "call_session V env c ahead rest U [] (wire ahead @ rest) U (locked env c)" for ahead U
    by (rule locked_session)
  have "sending m = []" using assms(2,3) by (simp add: control_inv_def)
  moreover have "streams_ok V env ahead rest U (set_thread i (Working c (locked env c)) (m\<lparr>owner := Some i\<rparr>))"
    if "streams_ok V env ahead rest U m" for ahead U
    using that lock [of ahead U] assms(2) \<open>sending m = []\<close> by (simp add: streams_ok_def)
  ultimately show ?thesis using assms(4) by (simp add: data_inv_def)
qed

lemma step_data_work:
  assumes "threads m i = Working c (Act l f)" and "f (shared m) = Some (p, s)"
    and "control_inv env m" and "data_inv V env resps rest out m"
  shows "data_inv V env resps rest out (set_thread i (Working c p) (m\<lparr>shared := s, sending := sending m @ labels l\<rparr>))"
proof -
  have "owner m = Some i" using assms(1,3) by (auto simp: control_inv_def works_def)
  have fewer: "answered env ahead (sending m)" if "answered env ahead (sending m @ labels l)" for ahead
    using that by (auto simp: answered_def labels_def split: list.splits option.splits)
  have "streams_ok V env ahead rest U (set_thread i (Working c p) (m\<lparr>shared := s, sending := sending m @ labels l\<rparr>))"
    if "streams_ok V env ahead rest U m" "answered env ahead (sending m @ labels l)" for ahead U
    using that assms(1,2) \<open>owner m = Some i\<close> by (auto simp: streams_ok_def call_session_def session_simps)
  with assms(4) fewer show ?thesis by (simp add: data_inv_def)
qed

lemma step_data_release:
  assumes "threads m i = Working c (Return r)" and "control_inv env m" and "data_inv V env resps rest out m"
  shows "data_inv V env resps rest out (set_thread i Idle (record_call i c (sending m) r (m\<lparr>owner := None, sending := []\<rparr>)))"
  unfolding data_inv_def
proof (intro allI impI)
  let ?m = "set_thread i Idle (record_call i c (sending m) r (m\<lparr>owner := None, sending := []\<rparr>))"
  fix rs ahead
  assume resps: "resps = rs @ ahead" and log: "list_all2 (answers env) (request_log (history ?m)) rs"
  have "owner m = Some i" using assms(1,2) by (auto simp: control_inv_def works_def)
  from log obtain rs1 rs2 where rs: "rs = rs1 @ rs2" "list_all2 (answers env) (request_log (history m)) rs1"
      "list_all2 (answers env) (sending m) rs2"
    by (auto simp: list_all2_append1)
  show "list_all (call_justified env) (history ?m) \<and> list_all2 (reply_justified env) (exchanges ?m) rs
        \<and> streams_ok V env ahead rest (out @ concat (map request_bytes (request_log (history ?m)))) ?m"
  proof -
    have "answered env (rs2 @ ahead) (sending m)"
      using rs(3) by (cases "sending m") (auto simp: answered_def list_all2_Cons1)
    note just = data_invD [OF assms(3) resps [unfolded rs(1) append_assoc] rs(2) this]
    from just(3) assms(1) \<open>owner m = Some i\<close> have own: "own_requests env c (sending m)" and ep: "ep_ok V (shared m)"
      and out: "outcome env c (rs2 @ ahead) rest (out @ concat (map request_bytes (request_log (history m)))) (sending m)
        (in_of V (shared m)) (out_of V (shared m)) r"
      by (simp_all add: streams_ok_def call_session_def session_simps)
    show ?thesis
    proof (cases "sending m = []")
      case True
      with rs(3) have "rs2 = []" by simp
      with True just(1,2) rs(1) ep out show ?thesis
        by (simp add: outcome_def streams_ok_def call_justified_def)
    next
      case False
      with own have q: "sending m = [request_of env c]" by (simp add: own_requests_def)
      with rs(3) obtain resp where "rs2 = [resp]" by (auto simp: list_all2_Cons1)
      with q just(1,2) rs(1) ep out show ?thesis
        by (simp add: outcome_def streams_ok_def call_justified_def reply_justified_def list_all2_appendI)
    qed
  qed
qed

lemma step_data:
  assumes "step env i m m'" and "control_inv env m" and "data_inv V env resps rest out m"
  shows "data_inv V env resps rest out m'"
  using assms(1)
proof cases
  case (acquire c)
  then show ?thesis using assms(2,3) by (simp add: step_data_acquire)
next
  case (work c l f p s)
  then show ?thesis using assms(2,3) by (simp add: step_data_work)
next
  case (release c r)
  then show ?thesis using assms(2,3) by (simp add: step_data_release)
qed (use step_data_other [OF assms] in \<open>simp_all add: works_def\<close>)

text \<open>The invariant holds in every state the threads can reach.\<close>

lemma reachable_inv:
  assumes "reachable env (machine_start s) m" and "ep_ok V s" and "in_of V s = wire resps @ rest"
  shows "control_inv env m \<and> data_inv V env resps rest (out_of V s) m"
  using assms(1)
proof induction
  case initially
  from assms(2,3) show ?case
    by (auto simp: control_inv_def data_inv_def streams_ok_def works_def)
next
  case (stepped m i m')
  then show ?case using step_control step_data by blast
qed

lemma serialised:
  assumes "reachable env (machine_start s) m" and "owner m = None" and "ep_ok V s"
    and "in_of V s = wire resps @ rest" and "list_all2 (answers env) (requests_sent m) resps"
  shows "out_of V (shared m) = out_of V s @ concat (map request_bytes (requests_sent m))" and "in_of V (shared m) = rest"
    and "list_all (call_justified env) (history m)" and "list_all2 (reply_justified env) (exchanges m) resps"
proof -
  have "sending m = []" and "data_inv V env resps rest (out_of V s) m"
    using reachable_inv [OF assms(1,3,4)] assms(2) by (auto simp: control_inv_def)
  with data_invD [OF this(2), of resps "[]"] assms(2,5) show "out_of V (shared m) = out_of V s @ concat (map request_bytes (requests_sent m))" "in_of V (shared m) = rest"
    "list_all (call_justified env) (history m)" "list_all2 (reply_justified env) (exchanges m) resps"
    by (simp_all add: streams_ok_def requests_sent_def answered_def)
qed

text \<open>The owner of the mutex, left to itself, ends its call and releases the mutex.\<close>

lemma session_ends:
  assumes "session V (own_requests env c) (answered env ahead) Q qs I U p"
    and "threads m i = Working c p" and "sending m = qs" and "ep_ok V (shared m)" and "in_of V (shared m) = I" and "out_of V (shared m) = U"
    and "answered env ahead [request_of env c]"
  shows "\<exists>m' qs' r. (step env i)\<^sup>*\<^sup>* m m' \<and> threads m' = (threads m)(i := Idle) \<and> owner m' = None \<and> sending m' = []
    \<and> history m' = history m @ [(i, c, qs', r)] \<and> ep_ok V (shared m') \<and> Q qs' (in_of V (shared m')) (out_of V (shared m')) r"
  using assms(1-6)
proof (induction arbitrary: m rule: session.induct)
  case (session_Return qs I U r)
  let ?m = "set_thread i Idle (record_call i c (sending m) r (m\<lparr>owner := None, sending := []\<rparr>))"
  have "step env i m ?m" using session_Return.prems(1) by (rule step.release)
  then show ?case
    using session_Return by (intro exI [of _ ?m] exI [of _ qs] exI [of _ r]) auto
next
  case (session_Act qs l U I f)
  then have "answered env ahead (qs @ labels l)"
    using assms(7) by (auto simp: own_requests_def answered_def)
  from session_Act.IH [OF this session_Act.prems(3-5)] obtain p s where p: "f (shared m) = Some (p, s)" "ep_ok V s"
    and IH: "\<And>m. threads m i = Working c p \<Longrightarrow> sending m = qs @ labels l \<Longrightarrow> ep_ok V (shared m) \<Longrightarrow> in_of V (shared m) = in_of V s
      \<Longrightarrow> out_of V (shared m) = out_of V s \<Longrightarrow> \<exists>m' qs' r. (step env i)\<^sup>*\<^sup>* m m' \<and> threads m' = (threads m)(i := Idle) \<and> owner m' = None
        \<and> sending m' = [] \<and> history m' = history m @ [(i, c, qs', r)] \<and> ep_ok V (shared m')
        \<and> Q qs' (in_of V (shared m')) (out_of V (shared m')) r"
    by blast
  let ?m = "set_thread i (Working c p) (m\<lparr>shared := s, sending := sending m @ labels l\<rparr>)"
  have st: "step env i m ?m" using session_Act.prems(1) p(1) by (rule step.work)
  from IH [of ?m] p(2) session_Act.prems(2) obtain m' qs' r where
    "(step env i)\<^sup>*\<^sup>* ?m m'" "threads m' = (threads m)(i := Idle)" "owner m' = None" "sending m' = []"
    "history m' = history m @ [(i, c, qs', r)]" "ep_ok V (shared m')" "Q qs' (in_of V (shared m')) (out_of V (shared m')) r"
    by auto
  then show ?case using converse_rtranclp_into_rtranclp [of "step env i", OF st] by blast
qed

lemma waiting_completes:
  assumes "threads m i = Waiting c" and "owner m = None" and "sending m = []" and "valid_call env c"
    and "ep_ok V (shared m)" and "in_of V (shared m) = wire (resp # ahead) @ rest" and "answers env (request_of env c) resp"
  shows "\<exists>m' qs r. (step env i)\<^sup>*\<^sup>* m m' \<and> threads m' = (threads m)(i := Idle) \<and> owner m' = None \<and> sending m' = []
    \<and> history m' = history m @ [(i, c, qs, r)] \<and> ep_ok V (shared m')
    \<and> outcome env c (resp # ahead) rest (out_of V (shared m)) qs (in_of V (shared m')) (out_of V (shared m')) r"
proof -
  let ?m = "set_thread i (Working c (locked env c)) (m\<lparr>owner := Some i\<rparr>)"
  have st: "step env i m ?m" using assms(1,2) by (rule step.acquire)
  have "session V (own_requests env c) (answered env (resp # ahead)) (outcome env c (resp # ahead) rest (out_of V (shared m)))
      [] (wire (resp # ahead) @ rest) (out_of V (shared m)) (locked env c)"
    using locked_session [OF assms(4), of "resp # ahead" rest] by (simp add: call_session_def)
  from session_ends [OF this, of ?m i] assms obtain m' qs r where
    "(step env i)\<^sup>*\<^sup>* ?m m'" "threads m' = (threads m)(i := Idle)" "owner m' = None" "sending m' = []"
    "history m' = history m @ [(i, c, qs, r)]" "ep_ok V (shared m')"
    "outcome env c (resp # ahead) rest (out_of V (shared m)) qs (in_of V (shared m')) (out_of V (shared m')) r"
    by (auto simp: answered_def)
  then show ?thesis using converse_rtranclp_into_rtranclp [of "step env i", OF st] by blast
qed

end

end
