(* ===== verification/Client_Limits.thy ===== *)
theory Client_Limits
  imports Client
begin

text \<open>
  What a listing from the caches shows: the names of the cached listing whose stat is still
  cached as well.
\<close>

section \<open>Listings from the caches\<close>

text \<open>
  The entries a cached listing can still show: those whose stat is fresh when it is looked
  up, with the \<open>n\<close>-th clock reading for the first name.
\<close>

fun cached_calls :: "'s conn_env \<Rightarrow> string \<Rightarrow> FileStat TimedCache \<Rightarrow> nat \<Rightarrow> string list \<Rightarrow> (FileStat \<times> wstring) list" where
  "cached_calls env dir c n [] = []"
| "cached_calls env dir c n (name # names) =
     (case fresh_value (cache_window c) (steady_clock env n) (cache_entry c (get_full_path dir name)) of
        None \<Rightarrow> cached_calls env dir c (n + 1) names
      | Some st \<Rightarrow> (st, win_name env name) # cached_calls env dir c (n + 1) names)"

text \<open>A lookup changes neither the entries nor the period.\<close>

lemma cached_calls_cong:
  "cache_entry c' = cache_entry c \<Longrightarrow> cache_window c' = cache_window c \<Longrightarrow> cached_calls env dir c' n names = cached_calls env dir c n names"
  by (induction names arbitrary: n) (simp_all split: option.split)

lemma lookup_fresh:
  "cache_inv c \<Longrightarrow> fst (get_cached now k c) = fresh_value (cache_window c) now (cache_entry c k)"
  by (simp add: timed.get_value fresh_value_def)

text \<open>The streams of the connection.\<close>

abbreviation streams_of :: "'s Connection \<Rightarrow> 's \<times> data_reader \<times> data_writer" where
  "streams_of s \<equiv> (socket s, reader s, writer s)"

lemma cached_listing_spec:
  assumes "conn_inv s" and "list_all (\<lambda>name. from_utf8 env name \<noteq> None) names"
  shows "wp (cached_listing env dir names) (\<lambda>r s'. r = Inr (cached_calls env dir (stat_cache s) (clock_reads s) names)
    \<and> streams_of s' = streams_of s \<and> clock_reads s' = clock_reads s + length names) s"
  using assms
proof (induction names arbitrary: s)
  case (Cons name names)
  let ?p = "get_full_path dir name"
  let ?s = "looked_up env ?p s"
  have inv: "conn_inv ?s" using Cons.prems(1) by (rule conn_inv_states)
  have same: "cached_calls env dir (stat_cache ?s) n names = cached_calls env dir (stat_cache s) n names" for n
    using Cons.prems(1) by (intro cached_calls_cong) (simp_all add: looked_up_def conn_inv_def timed.get_keeps)
  have "streams_of ?s = streams_of s" "clock_reads ?s = clock_reads s + 1" by (simp_all add: looked_up_def)
  with Cons.IH [OF inv] Cons.prems(2) same
  have rest: "wp (cached_listing env dir names) (\<lambda>r s'. r = Inr (cached_calls env dir (stat_cache s) (clock_reads s + 1) names)
      \<and> streams_of s' = streams_of s \<and> clock_reads s' = clock_reads s + 1 + length names) ?s" by simp
  have "fst (get_cached (steady_clock env (clock_reads s)) ?p (stat_cache s))
      = fresh_value (cache_window (stat_cache s)) (steady_clock env (clock_reads s)) (cache_entry (stat_cache s) ?p)"
    using Cons.prems(1) by (simp add: conn_inv_def lookup_fresh)
  moreover have "unix_path_to_win32 (from_utf8 env) name = Inr (win_name env name)"
    using Cons.prems(2) by (auto simp: win_name_def unix_path_to_win32_def wstring_from_string_def)
  ultimately show ?case
    using rest by (auto elim!: wp_mono split: option.splits)
qed simp

text \<open>
  What a listing answered from the caches shows. When the names of a directory are cached,
  no request is sent, and the listing has exactly the names whose stat is also still cached.
\<close>

lemma client_cached_listing:
  assumes "conn_inv s" and "p = win32_path_to_unix (to_utf8 env) path"
    and "fst (get_cached (steady_clock env (clock_reads s)) p (dir_list_cache s)) = Some names"
    and "list_all (\<lambda>name. from_utf8 env name \<noteq> None) names"
  shows "wp (req_list_file_stats env path) (\<lambda>r s'. r = Inr (Success, cached_calls env p (stat_cache s) (clock_reads s + 1) names)
    \<and> streams_of s' = streams_of s \<and> clock_reads s' = clock_reads s + 1 + length names) s"
proof -
  let ?s = "dir_looked_up env p s"
  have "conn_inv ?s" using assms(1) by (rule conn_inv_states)
  from cached_listing_spec [OF this assms(4), of p]
  have "wp (cached_listing env p names) (\<lambda>r s'. r = Inr (cached_calls env p (stat_cache s) (clock_reads s + 1) names)
      \<and> streams_of s' = streams_of s \<and> clock_reads s' = clock_reads s + 1 + length names) ?s"
    by (simp add: dir_looked_up_def)
  with assms(2,3) show ?thesis
    by (simp add: req_list_file_stats_def try_use_cached_dir_listing_def Let_def) (auto elim!: wp_mono)
qed

end
