(* ===== verification/Cache_History.thy ===== *)
theory Cache_History
  imports Concurrency Client_Limits
begin

text \<open>
  What a connection knows without asking, read off the history of its calls. The states of the
  two caches of \<open>Connection\<close> after any sequence of calls agree with two functions of the history
  alone, and so do the answers: a call is answered without a request exactly when the history
  has a value for it that is at most 200 ms old and that no later call has invalidated.
\<close>

section \<open>Histories\<close>

text \<open>
  An exchange is a call with the response that answered its request, if it sent one, and the
  number of clock readings before it. A history has the newest exchange first.
\<close>

record exchange =
  ex_call :: call
  ex_answer :: "response option"
  ex_reads :: nat

text \<open>The stats an answered listing brings: each is stored in turn, with two clock readings.\<close>

fun listed_stats :: "'s conn_env \<Rightarrow> string \<Rightarrow> (string \<times> FileStat) list \<Rightarrow> nat
    \<Rightarrow> (string \<rightharpoonup> FileStat \<times> int) \<Rightarrow> (string \<rightharpoonup> FileStat \<times> int)" where
  "listed_stats env dir [] n m = m"
| "listed_stats env dir ((name, st) # es) n m =
     listed_stats env dir es (n + 2) (m(get_full_path dir name \<mapsto> (st, steady_clock env n)))"

fun stat_effect :: "'s conn_env \<Rightarrow> exchange \<Rightarrow> (string \<rightharpoonup> FileStat \<times> int) \<Rightarrow> (string \<rightharpoonup> FileStat \<times> int)" where
  "stat_effect env \<lparr>ex_call = c, ex_answer = a, ex_reads = n\<rparr> m = (case c of
     CallStat path \<Rightarrow> (case a of Some (RespStat st) \<Rightarrow>
         m(win32_path_to_unix (to_utf8 env) path \<mapsto> (st, steady_clock env (n + 2))) | _ \<Rightarrow> m)
   | CallList path \<Rightarrow> (case a of Some (RespListing es) \<Rightarrow>
         listed_stats env (win32_path_to_unix (to_utf8 env) path) (shown es) (n + 1) m | _ \<Rightarrow> m)
   | CallMove from to replace_if_exists \<Rightarrow>
       m(win32_path_to_unix (to_utf8 env) from := None, win32_path_to_unix (to_utf8 env) to := None)
   | CallRemoveFile path \<Rightarrow> m(win32_path_to_unix (to_utf8 env) path := None)
   | CallRemoveDirectory path \<Rightarrow> m(win32_path_to_unix (to_utf8 env) path := None)
   | CallCreateDirectory path \<Rightarrow> m(win32_path_to_unix (to_utf8 env) path := None)
   | CallSetTime path at wt \<Rightarrow> m(win32_path_to_unix (to_utf8 env) path := None)
   | _ \<Rightarrow> m)"

text \<open>The listing of the parent of a path is forgotten when the path has a parent (\<open>get_parent_path\<close>).\<close>

definition forget_parent :: "string \<Rightarrow> (string \<rightharpoonup> 'a) \<Rightarrow> (string \<rightharpoonup> 'a)" where
  "forget_parent p d = (case get_parent_path p of None \<Rightarrow> d | Some parent \<Rightarrow> d(parent := None))"

fun listing_effect :: "'s conn_env \<Rightarrow> exchange \<Rightarrow> (string \<rightharpoonup> string list \<times> int) \<Rightarrow> (string \<rightharpoonup> string list \<times> int)" where
  "listing_effect env \<lparr>ex_call = c, ex_answer = a, ex_reads = n\<rparr> d = (case c of
     CallList path \<Rightarrow> (case a of Some (RespListing es) \<Rightarrow>
         d(win32_path_to_unix (to_utf8 env) path \<mapsto> (map fst (shown es), steady_clock env (n + 1 + 2 * length (shown es)))) | _ \<Rightarrow> d)
   | CallMove from to replace_if_exists \<Rightarrow>
       forget_parent (win32_path_to_unix (to_utf8 env) to) (forget_parent (win32_path_to_unix (to_utf8 env) from) d)
   | CallRemoveFile path \<Rightarrow> forget_parent (win32_path_to_unix (to_utf8 env) path) d
   | CallRemoveDirectory path \<Rightarrow> forget_parent (win32_path_to_unix (to_utf8 env) path) d
   | CallCreateDirectory path \<Rightarrow> forget_parent (win32_path_to_unix (to_utf8 env) path) d
   | CallOpen path mode ra wa \<Rightarrow>
       (if a \<noteq> None \<and> creates mode then forget_parent (win32_path_to_unix (to_utf8 env) path) d else d)
   | _ \<Rightarrow> d)"

text \<open>What the history tells about a path and a directory, each with the time it was stored.\<close>

fun known_stat :: "'s conn_env \<Rightarrow> exchange list \<Rightarrow> (string \<rightharpoonup> FileStat \<times> int)" where
  "known_stat env [] = Map.empty"
| "known_stat env (e # h) = stat_effect env e (known_stat env h)"

fun known_listing :: "'s conn_env \<Rightarrow> exchange list \<Rightarrow> (string \<rightharpoonup> string list \<times> int)" where
  "known_listing env [] = Map.empty"
| "known_listing env (e # h) = listing_effect env e (known_listing env h)"

text \<open>
  The calls that \<open>Connection\<close> answers itself: what a cache still has, and the file names it
  never asks about.
\<close>

fun answered_here :: "'s conn_env \<Rightarrow> call \<Rightarrow> 's Connection \<Rightarrow> bool" where
  "answered_here env (CallStat path) s \<longleftrightarrow>
     fst (get_cached (steady_clock env (clock_reads s)) (win32_path_to_unix (to_utf8 env) path) (stat_cache s)) \<noteq> None
     \<or> ends_with (win32_path_to_unix (to_utf8 env) path) ''desktop.ini''"
| "answered_here env (CallList path) s \<longleftrightarrow>
     fst (get_cached (steady_clock env (clock_reads s)) (win32_path_to_unix (to_utf8 env) path) (dir_list_cache s)) \<noteq> None"
| "answered_here env (CallOpen path mode ra wa) s \<longleftrightarrow> ends_with (win32_path_to_unix (to_utf8 env) path) ''desktop.ini''"
| "answered_here env _ s \<longleftrightarrow> False"

text \<open>
  The calls of one connection in order. A call that is answered here is made whatever bytes are
  to come next, and leaves them; for any other call they are an answer to its request. A call may end
  with an exception.
\<close>

inductive conversation :: "'s sock_view \<Rightarrow> 's conn_env \<Rightarrow> 's \<Rightarrow> exchange list \<Rightarrow> 's Connection \<Rightarrow> bool"
  for V :: "'s sock_view" and env :: "'s conn_env" and t :: 's where
  connected: "usable V t \<Longrightarrow> conversation V env t [] (Connection_init env t)"
| kept: "conversation V env t h s \<Longrightarrow> valid_call env c \<Longrightarrow> answered_here env c s \<Longrightarrow> perform env c s = Some (r, s')
    \<Longrightarrow> conversation V env t (\<lparr>ex_call = c, ex_answer = None, ex_reads = clock_reads s\<rparr> # h) s'"
| asked: "conversation V env t h s \<Longrightarrow> valid_call env c \<Longrightarrow> \<not> answered_here env c s
    \<Longrightarrow> in_of V s = response_bytes resp @ rest \<Longrightarrow> answers env (request_of env c) resp \<Longrightarrow> perform env c s = Some (r, s')
    \<Longrightarrow> conversation V env t (\<lparr>ex_call = c, ex_answer = Some resp, ex_reads = clock_reads s\<rparr> # h) s'"

section \<open>The caches agree with the history\<close>

text \<open>A cache agrees with what is known when only expired entries may be missing from it.\<close>

definition cache_agrees :: "'s conn_env \<Rightarrow> nat \<Rightarrow> 'v TimedCache \<Rightarrow> (string \<rightharpoonup> 'v \<times> int) \<Rightarrow> bool" where
  "cache_agrees env n c m \<longleftrightarrow> cache_inv c \<and> cache_window c = ms STAT_CACHE_PERIOD
     \<and> (\<forall>p. timed.agrees (cache_window c) (steady_clock env n) (cache_entry c p) (m p))"

definition caches_agree :: "'s conn_env \<Rightarrow> (string \<rightharpoonup> FileStat \<times> int) \<Rightarrow> (string \<rightharpoonup> string list \<times> int) \<Rightarrow> 's Connection \<Rightarrow> bool" where
  "caches_agree env m d s \<longleftrightarrow> cache_agrees env (clock_reads s) (stat_cache s) m
     \<and> cache_agrees env (clock_reads s) (dir_list_cache s) d"

lemma caches_agree_inv: "caches_agree env m d s \<Longrightarrow> conn_inv s"
  by (simp add: caches_agree_def cache_agrees_def conn_inv_def)

lemma caches_agree_init: "caches_agree env Map.empty Map.empty (Connection_init env t)"
  by (simp add: caches_agree_def cache_agrees_def timed.agrees_def Connection_init_def cache_entry_def
      cache_window_def cache_inv_def TimedCache_new_def)

lemma caches_agree_step: "io_step V i out s s' \<Longrightarrow> caches_agree env m d s' = caches_agree env m d s"
  by (auto simp: caches_agree_def dest!: io_step_conn)

text \<open>Each operation of a cache does to it what it does to what is known.\<close>

lemma agrees_wait:
  assumes "mono (steady_clock env)" and "cache_agrees env n c m" and "n \<le> n'"
  shows "cache_agrees env n' c m"
  using assms(2) timed.agrees_later [OF _ monoD [OF assms(1,3)]] unfolding cache_agrees_def by blast

lemma known_get:
  assumes "cache_agrees env n c m"
  shows "cache_agrees env n (snd (get_cached now p c)) m"
  using assms by (auto simp: cache_agrees_def timed.get_keeps)

lemma agrees_value:
  assumes "mono (steady_clock env)" and "cache_agrees env n c m" and "n \<le> n'"
  shows "fst (get_cached (steady_clock env n') p c) = fresh_value (ms STAT_CACHE_PERIOD) (steady_clock env n') (m p)"
proof -
  have "cache_inv c" "cache_window c = ms STAT_CACHE_PERIOD"
      "timed.agrees (cache_window c) (steady_clock env n) (cache_entry c p) (m p)"
    using assms(2) unfolding cache_agrees_def by blast+
  from timed.get_fresh [OF this(1,3) monoD [OF assms(1,3)]] this(2) show ?thesis by simp
qed

lemma known_put:
  assumes "mono (steady_clock env)" and "cache_agrees env n c m"
  shows "cache_agrees env (n + 2) (cache (steady_clock env n) (steady_clock env (n + 1)) p v c) (m(p \<mapsto> (v, steady_clock env n)))"
  unfolding cache_agrees_def
proof (intro conjI allI)
  let ?c = "cache (steady_clock env n) (steady_clock env (n + 1)) p v c"
  have le: "steady_clock env n \<le> steady_clock env (n + 1)" "steady_clock env (n + 1) \<le> steady_clock env (n + 2)"
    using assms(1) by (simp_all add: monoD)
  have c: "cache_inv c" "cache_window c = ms STAT_CACHE_PERIOD"
      "timed.agrees (cache_window c) (steady_clock env n) (cache_entry c k) (m k)" for k
    using assms(2) unfolding cache_agrees_def by blast+
  show keeps: "cache_inv ?c" "cache_window ?c = ms STAT_CACHE_PERIOD"
    using timed.put_keeps [OF c(1)] c(2) by simp_all
  fix k
  show "timed.agrees (cache_window ?c) (steady_clock env (n + 2)) (cache_entry ?c k) ((m(p \<mapsto> (v, steady_clock env n))) k)"
    using timed.agrees_later [OF timed.agrees_put [OF c(1) c(3) order_refl le(1)] le(2), of p v k] keeps(2) c(2)
    by (simp split: if_splits)
qed

lemma known_drop:
  assumes "cache_agrees env n c m"
  shows "cache_agrees env n (invalidate p c) (m(p := None))"
  unfolding cache_agrees_def
proof (intro conjI allI)
  have c: "cache_inv c" "cache_window c = ms STAT_CACHE_PERIOD"
      "timed.agrees (cache_window c) (steady_clock env n) (cache_entry c k) (m k)" for k
    using assms unfolding cache_agrees_def by blast+
  show keeps: "cache_inv (invalidate p c)" "cache_window (invalidate p c) = ms STAT_CACHE_PERIOD"
    using timed.drop_keeps [OF c(1)] c(2) by simp_all
  fix k
  show "timed.agrees (cache_window (invalidate p c)) (steady_clock env n) (cache_entry (invalidate p c) k) ((m(p := None)) k)"
    using timed.agrees_drop [OF c(1) c(3), of p k] keeps(2) c(2) by (simp split: if_splits)
qed

lemma agrees_drop_parent: "cache_agrees env n c d \<Longrightarrow> cache_agrees env n (drop_parent p c) (forget_parent p d)"
  by (simp add: drop_parent_def forget_parent_def known_drop split: option.split)

text \<open>The same for the states that the request functions of \<open>Connection\<close> go through.\<close>

lemma agree_looked_up:
  assumes "mono (steady_clock env)" and "caches_agree env m d s"
  shows "caches_agree env m d (looked_up env p s)" and "caches_agree env m d (dir_looked_up env p s)"
  using assms(2)
  by (auto simp: caches_agree_def looked_up_def dir_looked_up_def
      intro: agrees_wait [OF assms(1), where n = "clock_reads s"] known_get)

lemma agree_stored:
  assumes "mono (steady_clock env)" and "caches_agree env m d s"
  shows "caches_agree env (m(p \<mapsto> (st, steady_clock env (clock_reads s)))) d (stat_stored env p st s)"
    and "caches_agree env m (d(p \<mapsto> (names, steady_clock env (clock_reads s)))) (dir_stored env p names s)"
  using assms(2) known_put [OF assms(1), where n = "clock_reads s", simplified]
  by (auto simp: caches_agree_def stat_stored_def dir_stored_def simp del: fun_upd_apply
      intro: agrees_wait [OF assms(1), where n = "clock_reads s"] known_put [OF assms(1), where n = "clock_reads s", simplified])

lemma agree_entries_stored:
  assumes "mono (steady_clock env)" and "caches_agree env m d s"
  shows "caches_agree env (listed_stats env dir es (clock_reads s) m) d (entries_stored env dir es s)
    \<and> clock_reads (entries_stored env dir es s) = clock_reads s + 2 * length es"
  using assms(2)
proof (induction es arbitrary: s m)
  case (Cons e es)
  obtain name st where "e = (name, st)" by (cases e)
  with Cons.IH [OF agree_stored(1) [OF assms(1) Cons.prems, of "get_full_path dir name" st]] show ?case
    by (simp add: stat_stored_def fun_upd_def)
qed simp

lemma agree_dropped:
  assumes "caches_agree env m d s"
  shows "caches_agree env (m(p := None)) (forget_parent p d) (drop_path p s)"
    and "caches_agree env m (forget_parent p d) (parent_dropped p s)"
    and "caches_agree env (m(p := None)) d (s\<lparr>stat_cache := invalidate p (stat_cache s)\<rparr>)"
  using assms by (simp_all add: caches_agree_def drop_path_def parent_dropped_def known_drop agrees_drop_parent)

section \<open>One call\<close>

text \<open>The new state after a call with an answer, if it asked for one.\<close>

definition follows :: "'s sock_view \<Rightarrow> 's conn_env \<Rightarrow> (string \<rightharpoonup> FileStat \<times> int) \<Rightarrow> (string \<rightharpoonup> string list \<times> int)
    \<Rightarrow> call \<Rightarrow> response option \<Rightarrow> 's Connection \<Rightarrow> 's Connection \<Rightarrow> bool" where
  "follows V env m d c a s s' \<longleftrightarrow> ep_ok V s'
     \<and> out_of V s' = out_of V s @ (if a = None then [] else request_bytes (request_of env c))
     \<and> caches_agree env (stat_effect env \<lparr>ex_call = c, ex_answer = a, ex_reads = clock_reads s\<rparr> m)
         (listing_effect env \<lparr>ex_call = c, ex_answer = a, ex_reads = clock_reads s\<rparr> d) s'"

lemma follows_asked:
  assumes "io_step V rest (out_of V s @ request_bytes (request_of env c)) u s'"
    and "caches_agree env (stat_effect env \<lparr>ex_call = c, ex_answer = Some resp, ex_reads = clock_reads s\<rparr> m)
      (listing_effect env \<lparr>ex_call = c, ex_answer = Some resp, ex_reads = clock_reads s\<rparr> d) u"
  shows "follows V env m d c (Some resp) s s'"
  using io_step_conn [OF assms(1)] caches_agree_step [OF assms(1)] assms(2) by (simp add: follows_def)

lemma wp_fmapM_result: "wp m (\<lambda>r s'. r = Inr a \<and> P s') s \<Longrightarrow> wp (fmapM f m) (\<lambda>r s'. r = Inr (f a) \<and> P s') s"
  by (auto simp: fmapM_def elim!: wp_mono)

lemma wp_fmapM: "wp (fmapM f m) (\<lambda>_. P) s \<longleftrightarrow> wp m (\<lambda>_. P) s"
  unfolding fmapM_def wp_bindM by (rule arg_cong [of _ _ "\<lambda>Q. wp m Q s"]) (auto simp: fun_eq_iff split: sum.split)

text \<open>A listing from the caches only looks stats up, whether it returns or throws.\<close>

lemma cached_listing_agrees:
  assumes "mono (steady_clock env)" and "caches_agree env m d s"
  shows "wp (cached_listing env dir names) (\<lambda>_ s'. caches_agree env m d s'
    \<and> ep_ok V s' = ep_ok V s \<and> in_of V s' = in_of V s \<and> out_of V s' = out_of V s) s"
  using assms(2)
proof (induction names arbitrary: s)
  case (Cons name names)
  from agree_looked_up(1) [OF assms(1) Cons.prems] have "caches_agree env m d (looked_up env (get_full_path dir name) s)" .
  from Cons.IH [OF this] this show ?case
    by (auto elim!: wp_mono split: option.split sum.split)
qed simp

text \<open>The calls that leave the caches alone.\<close>

fun plain_call :: "call \<Rightarrow> bool" where
  "plain_call (CallCanRemoveFile path) \<longleftrightarrow> True"
| "plain_call (CallCanRemoveDirectory path) \<longleftrightarrow> True"
| "plain_call (CallClose h) \<longleftrightarrow> True"
| "plain_call (CallWrite h off buf n) \<longleftrightarrow> True"
| "plain_call (CallRead h off n) \<longleftrightarrow> True"
| "plain_call (CallSetLen h n) \<longleftrightarrow> True"
| "plain_call CallDiskStats \<longleftrightarrow> True"
| "plain_call _ \<longleftrightarrow> False"

text \<open>The calls that invalidate what they change.\<close>

fun changing_call :: "call \<Rightarrow> bool" where
  "changing_call (CallMove src dst repl) \<longleftrightarrow> True"
| "changing_call (CallRemoveFile path) \<longleftrightarrow> True"
| "changing_call (CallRemoveDirectory path) \<longleftrightarrow> True"
| "changing_call (CallCreateDirectory path) \<longleftrightarrow> True"
| "changing_call (CallSetTime path at wt) \<longleftrightarrow> True"
| "changing_call _ \<longleftrightarrow> False"

context client
begin

lemma kept_follows:
  assumes clk: "mono (steady_clock env)" and agree: "caches_agree env m d s" and s: "ep_ok V s" and "answered_here env c s"
  shows "wp (perform env c) (\<lambda>_. follows V env m d c None s) s"
proof (cases c)
  case (CallStat path)
  let ?p = "win32_path_to_unix (to_utf8 env) path"
  have up: "caches_agree env m d (looked_up env ?p s)" "caches_agree env m d (looked_up env ?p (looked_up env ?p s))"
    using agree_looked_up(1) [OF clk] agree by blast+
  have "wp (req_stat_file env path) (\<lambda>_. follows V env m d (CallStat path) None s) s"
  proof (cases "fst (get_cached (steady_clock env (clock_reads s)) ?p (stat_cache s))")
    case (Some st)
    from req_stat_file_hit [OF refl Some] show ?thesis by (rule wp_mono) (use up s in \<open>auto simp: follows_def\<close>)
  next
    case None
    with CallStat assms(4) show ?thesis
      by (auto simp: req_stat_file_def Let_def s up follows_def split: option.split)
  qed
  with CallStat show ?thesis by (simp add: wp_fmapM)
next
  case (CallList path)
  let ?p = "win32_path_to_unix (to_utf8 env) path"
  from CallList assms(4) obtain names where hit: "fst (get_cached (steady_clock env (clock_reads s)) ?p (dir_list_cache s)) = Some names"
    by auto
  have "caches_agree env m d (dir_looked_up env ?p s)" by (rule agree_looked_up(2) [OF clk agree])
  from cached_listing_agrees [OF clk this, where V = V, of ?p names]
  have "wp (cached_listing env ?p names) (\<lambda>_. follows V env m d (CallList path) None s) (dir_looked_up env ?p s)"
    by (rule wp_mono) (use s in \<open>auto simp: follows_def\<close>)
  with hit CallList show ?thesis
    by (auto simp: wp_fmapM req_list_file_stats_def try_use_cached_dir_listing_def Let_def elim!: wp_mono split: sum.split)
next
  case (CallOpen path mode ra wa)
  with assms show ?thesis by (auto simp: wp_fmapM req_open_file_def Let_def follows_def)
qed (use assms(4) in simp_all)

lemma stat_follows:
  assumes clk: "mono (steady_clock env)" and agree: "caches_agree env m d s" and s: "ep_ok V s" "in_of V s = response_bytes resp @ rest"
    and ok: "valid_call env (CallStat path)" "answers env (request_of env (CallStat path)) resp" "\<not> answered_here env (CallStat path) s"
  shows "wp (req_stat_file env path) (\<lambda>_. follows V env m d (CallStat path) (Some resp) s) s"
proof -
  let ?p = "win32_path_to_unix (to_utf8 env) path"
  have len: "length ?p \<le> 65535" using ok(1) by (simp add: valid_call_def)
  have up: "caches_agree env m d (looked_up env ?p (looked_up env ?p s))"
    using agree_looked_up(1) [OF clk] agree by blast
  have ask: "fst (get_cached (steady_clock env (clock_reads s)) ?p (stat_cache s)) = None" "\<not> ends_with ?p ''desktop.ini''"
    using ok(3) by simp_all
  show ?thesis
  proof (cases resp)
    case (RespStat st)
    from req_stat_file_spec(1) [OF refl len ask(2) clk ask(1) s(1) s(2) [unfolded RespStat]] show ?thesis
      unfolding RespStat
      by (rule wp_mono) (use agree_stored(1) [OF clk up, of ?p st] in \<open>auto intro!: follows_asked\<close>)
  next
    case (RespStatus fl)
    with ok(2) have "named_status fl" "fl \<noteq> Success" by (auto simp: failure_def)
    from req_stat_file_spec(2) [OF refl len ask(2) clk ask(1) s(1) s(2) [unfolded RespStatus] this] show ?thesis
      unfolding RespStatus by (rule wp_mono) (use up in \<open>auto intro!: follows_asked\<close>)
  qed (use ok(2) in auto)
qed

lemma list_follows:
  assumes clk: "mono (steady_clock env)" and agree: "caches_agree env m d s" and s: "ep_ok V s" "in_of V s = response_bytes resp @ rest"
    and ok: "valid_call env (CallList path)" "answers env (request_of env (CallList path)) resp" "\<not> answered_here env (CallList path) s"
  shows "wp (req_list_file_stats env path) (\<lambda>_. follows V env m d (CallList path) (Some resp) s) s"
proof -
  let ?p = "win32_path_to_unix (to_utf8 env) path"
  let ?s = "dir_looked_up env ?p s"
  have len: "length ?p \<le> 65535" using ok(1) by (simp add: valid_call_def)
  have none: "fst (get_cached (steady_clock env (clock_reads s)) ?p (dir_list_cache s)) = None" using ok(3) by simp
  have up: "caches_agree env m d ?s" by (rule agree_looked_up(2) [OF clk agree])
  show ?thesis
  proof (cases resp)
    case (RespListing es)
    with ok(2) have es: "list_all (entry_ok env) es" by simp
    let ?u = "entries_stored env ?p (shown es) ?s"
    have u: "caches_agree env (listed_stats env ?p (shown es) (clock_reads s + 1) m) d ?u"
        "clock_reads ?u = clock_reads s + 1 + 2 * length (shown es)"
      using agree_entries_stored [OF clk up, of ?p "shown es"] by (simp_all add: dir_looked_up_def)
    from req_list_file_stats_spec(1) [OF refl len none s(1) s(2) [unfolded RespListing] es] show ?thesis
      unfolding RespListing
      by (rule wp_mono) (use agree_stored(2) [OF clk u(1), of ?p "map fst (shown es)"] u(2) in \<open>auto intro!: follows_asked\<close>)
  next
    case (RespStatus fl)
    with ok(2) have "named_status fl" "fl \<noteq> Success" by (auto simp: failure_def)
    from req_list_file_stats_spec(2) [OF refl len none s(1) s(2) [unfolded RespStatus] this] show ?thesis
      unfolding RespStatus by (rule wp_mono) (use up in \<open>auto intro!: follows_asked\<close>)
  qed (use ok(2) in auto)
qed

lemma open_follows:
  assumes agree: "caches_agree env m d s" and s: "ep_ok V s" "in_of V s = response_bytes resp @ rest"
    and ok: "valid_call env (CallOpen path mode ra wa)" "answers env (request_of env (CallOpen path mode ra wa)) resp"
      "\<not> answered_here env (CallOpen path mode ra wa) s"
  shows "wp (req_open_file env path mode ra wa) (\<lambda>_. follows V env m d (CallOpen path mode ra wa) (Some resp) s) s"
proof -
  let ?a = "\<lparr>oh_path = win32_path_to_unix (to_utf8 env) path, oh_mode = mode, oh_read_access = ra, oh_write_access = wa\<rparr>"
  have "length (oh_path ?a) \<le> 65535" "open_response resp" using ok by (simp_all add: valid_call_def)
  from req_open_file_spec [OF refl this(1) _ this(2) s] ok(3) show ?thesis
    by (auto elim!: wp_mono intro!: follows_asked simp: agree agree_dropped(2))
qed

lemma exchange_follows:
  fixes f :: "('s Connection, 'a) M"
  assumes "caches_agree env m d s" and "ep_ok V s" and "in_of V s = response_bytes resp @ rest" and "plain_call c"
    and "transacts V (response_bytes resp) (request_bytes (request_of env c)) f a"
  shows "wp f (\<lambda>_. follows V env m d c (Some resp) s) s"
proof -
  have "stat_effect env \<lparr>ex_call = c, ex_answer = Some resp, ex_reads = n\<rparr> m = m"
      "listing_effect env \<lparr>ex_call = c, ex_answer = Some resp, ex_reads = n\<rparr> d = d" for n
    using assms(4) by (cases c; simp)+
  with assms(1) show ?thesis by (intro wp_transacts [OF assms(5,2,3)] follows_asked) simp_all
qed

lemma status_follows:
  fixes f :: "('s Connection, ResponseStatus) M"
  assumes "caches_agree env m d s" and "ep_ok V s" and "in_of V s = response_bytes resp @ rest" and "plain_call c"
    and "\<exists>st. resp = RespStatus st \<and> named_status st"
    and "\<And>st. named_status st \<Longrightarrow> transacts V (response_bytes (RespStatus st)) (request_bytes (request_of env c)) f st"
  shows "wp f (\<lambda>_. follows V env m d c (Some resp) s) s"
proof -
  from assms(5) obtain st where st: "resp = RespStatus st" "named_status st" by blast
  show ?thesis by (rule exchange_follows [OF assms(1-4) assms(6) [OF st(2), folded st(1)]])
qed

lemma read_follows:
  assumes "caches_agree env m d s" and "ep_ok V s" and "in_of V s = response_bytes resp @ rest"
    and "answers env (request_of env (CallRead h off n)) resp"
  shows "wp (req_read_from_file env h off n) (\<lambda>_. follows V env m d (CallRead h off n) (Some resp) s) s"
proof -
  have "\<exists>a. transacts V (response_bytes resp) (request_bytes (request_of env (CallRead h off n))) (req_read_from_file env h off n) a"
  proof (cases resp)
    case (RespData bs)
    with assms(4) req_read_from_file_spec(1) [OF refl, of bs n h off] show ?thesis by (auto simp del: response_bytes.simps)
  next
    case (RespStatus st)
    with assms(4) req_read_from_file_spec(2) [OF refl, of st h n off] show ?thesis
      by (auto simp: failure_def simp del: response_bytes.simps)
  qed (use assms(4) in auto)
  with exchange_follows [OF assms(1-3), of "CallRead h off n"] show ?thesis by auto
qed

lemma disk_follows:
  assumes "caches_agree env m d s" and "ep_ok V s" and "in_of V s = response_bytes resp @ rest"
    and "answers env (request_of env CallDiskStats) resp"
  shows "wp (req_get_disk_stats env) (\<lambda>_. follows V env m d CallDiskStats (Some resp) s) s"
proof -
  have "\<exists>a. transacts V (response_bytes resp) (request_bytes (request_of env CallDiskStats)) (req_get_disk_stats env) a"
  proof (cases resp)
    case (RespDisk ds)
    with req_get_disk_stats_spec(1) [of ds] show ?thesis by (auto simp del: response_bytes.simps)
  next
    case (RespStatus st)
    with assms(4) req_get_disk_stats_spec(2) [of st] show ?thesis by (auto simp: failure_def simp del: response_bytes.simps)
  qed (use assms(4) in auto)
  with exchange_follows [OF assms(1-3), of CallDiskStats] show ?thesis by auto
qed

lemma changing_follows:
  assumes s: "in_of V s = response_bytes resp @ rest" "\<exists>st. resp = RespStatus st \<and> named_status st"
    and f: "\<And>st. named_status st \<Longrightarrow> in_of V s = response_bytes (RespStatus st) @ rest
      \<Longrightarrow> wp f (\<lambda>r s'. r = Inr st \<and> io_step V rest (out_of V s @ request_bytes q) u s') s"
    and "caches_agree env (stat_effect env \<lparr>ex_call = c, ex_answer = Some resp, ex_reads = clock_reads s\<rparr> m)
      (listing_effect env \<lparr>ex_call = c, ex_answer = Some resp, ex_reads = clock_reads s\<rparr> d) u"
    and q: "q = request_of env c"
  shows "wp f (\<lambda>_. follows V env m d c (Some resp) s) s"
proof -
  from s obtain st where "named_status st" "in_of V s = response_bytes (RespStatus st) @ rest" by auto
  from f [OF this] show ?thesis unfolding q by (rule wp_mono) (use follows_asked [OF _ assms(4)] in auto)
qed

lemma plain_call_follows:
  assumes agree: "caches_agree env m d s" and s: "ep_ok V s" "in_of V s = response_bytes resp @ rest"
    and ok: "valid_call env c" "answers env (request_of env c) resp" "plain_call c"
  shows "wp (perform env c) (\<lambda>_. follows V env m d c (Some resp) s) s"
proof (cases c)
  case (CallRead h off n)
  with read_follows [OF agree s] ok show ?thesis by (simp add: wp_fmapM)
next
  case CallDiskStats
  with disk_follows [OF agree s] ok show ?thesis by (simp add: wp_fmapM)
next
  case (CallWrite h off buf n)
  with ok(1) have len: "unat n = length buf" "length buf < 2 ^ 31" by (simp_all add: valid_call_def)
  then have n: "word_of_nat (length buf) = n" by (simp flip: len(1))
  from CallWrite ok(2) status_follows [OF agree s, of c "req_write_to_file env h off buf n"]
    req_write_to_file_spec [OF _ len(2), of _ h off] n show ?thesis
    by (cases resp) (simp_all add: wp_fmapM del: response_bytes.simps)
next
  case (CallCanRemoveFile path)
  with ok have "\<exists>st. resp = RespStatus st \<and> named_status st" by (cases resp) simp_all
  from status_follows [OF agree s _ this, of c "req_can_remove_file env path"] req_can_remove_file_spec [OF refl] ok(1) CallCanRemoveFile show ?thesis
    by (simp add: wp_fmapM valid_call_def del: response_bytes.simps)
next
  case (CallCanRemoveDirectory path)
  with ok have "\<exists>st. resp = RespStatus st \<and> named_status st" by (cases resp) simp_all
  from status_follows [OF agree s _ this, of c "req_can_remove_directory env path"] req_can_remove_directory_spec [OF refl] ok(1) CallCanRemoveDirectory show ?thesis
    by (simp add: wp_fmapM valid_call_def del: response_bytes.simps)
next
  case (CallClose h)
  with ok have "\<exists>st. resp = RespStatus st \<and> named_status st" by (cases resp) simp_all
  from status_follows [OF agree s _ this, of c "req_close_file env h"] req_close_file_spec ok(1) CallClose show ?thesis
    by (simp add: wp_fmapM valid_call_def del: response_bytes.simps)
next
  case (CallSetLen h n)
  with ok have "\<exists>st. resp = RespStatus st \<and> named_status st" by (cases resp) simp_all
  from status_follows [OF agree s _ this, of c "req_set_file_len env h n"] req_set_file_len_spec ok(1) CallSetLen show ?thesis
    by (simp add: wp_fmapM valid_call_def del: response_bytes.simps)
qed (use ok(3) in simp_all)

lemma changing_call_follows:
  assumes agree: "caches_agree env m d s" and s: "ep_ok V s" "in_of V s = response_bytes resp @ rest"
    and ok: "valid_call env c" "answers env (request_of env c) resp" "changing_call c"
  shows "wp (perform env c) (\<lambda>_. follows V env m d c (Some resp) s) s"
proof (cases c)
  case (CallRemoveFile path)
  with ok have st: "\<exists>st. resp = RespStatus st \<and> named_status st" by (cases resp) simp_all
  show ?thesis
    unfolding CallRemoveFile perform.simps wp_fmapM
    by (rule changing_follows [OF s(2) st req_remove_file_spec [OF refl _ _ s(1)]])
       (use ok(1) CallRemoveFile agree_dropped(1) [OF agree] in \<open>simp_all add: valid_call_def\<close>)
next
  case (CallRemoveDirectory path)
  with ok have st: "\<exists>st. resp = RespStatus st \<and> named_status st" by (cases resp) simp_all
  show ?thesis
    unfolding CallRemoveDirectory perform.simps wp_fmapM
    by (rule changing_follows [OF s(2) st req_remove_directory_spec [OF refl _ _ s(1)]])
       (use ok(1) CallRemoveDirectory agree_dropped(1) [OF agree] in \<open>simp_all add: valid_call_def\<close>)
next
  case (CallCreateDirectory path)
  with ok have st: "\<exists>st. resp = RespStatus st \<and> named_status st" by (cases resp) simp_all
  show ?thesis
    unfolding CallCreateDirectory perform.simps wp_fmapM
    by (rule changing_follows [OF s(2) st req_create_directory_spec [OF refl _ _ s(1)]])
       (use ok(1) CallCreateDirectory agree_dropped(1) [OF agree] in \<open>simp_all add: valid_call_def\<close>)
next
  case (CallSetTime path at wt)
  with ok have st: "\<exists>st. resp = RespStatus st \<and> named_status st" by (cases resp) simp_all
  show ?thesis
    unfolding CallSetTime perform.simps wp_fmapM
    by (rule changing_follows [OF s(2) st req_set_file_time_spec [OF refl _ _ s(1)]])
       (use ok(1) CallSetTime agree_dropped(3) [OF agree] in \<open>simp_all add: valid_call_def\<close>)
next
  case (CallMove src dst repl)
  with ok have st: "\<exists>st. resp = RespStatus st \<and> named_status st" by (cases resp) simp_all
  show ?thesis
    unfolding CallMove perform.simps wp_fmapM
    by (rule changing_follows [OF s(2) st req_move_entry_spec [OF refl _ _ _ s(1)]])
       (use ok(1) CallMove agree_dropped(1) [OF agree_dropped(1) [OF agree]] in \<open>simp_all add: valid_call_def\<close>)
qed (use ok(3) in simp_all)

lemma call_follows:
  assumes clk: "mono (steady_clock env)" and agree: "caches_agree env m d s" and s: "ep_ok V s" "in_of V s = response_bytes resp @ rest"
    and ok: "valid_call env c" "answers env (request_of env c) resp" "\<not> answered_here env c s"
  shows "wp (perform env c) (\<lambda>_. follows V env m d c (Some resp) s) s"
proof (cases c)
  case (CallStat path)
  with stat_follows [OF clk agree s] ok show ?thesis by (simp add: wp_fmapM)
next
  case (CallList path)
  with list_follows [OF clk agree s] ok show ?thesis by (simp add: wp_fmapM)
next
  case (CallOpen path mode ra wa)
  with open_follows [OF agree s] ok show ?thesis by (simp add: wp_fmapM)
qed (rule plain_call_follows [OF agree s ok(1,2)] changing_call_follows [OF agree s ok(1,2)], simp)+

text \<open>A call for something the caches do not have is answered by the daemon.\<close>

lemma stat_asks:
  fixes s :: "'s Connection"
  assumes p: "p = win32_path_to_unix (to_utf8 env) path" "length p \<le> 65535" "\<not> ends_with p ''desktop.ini''" and "mono (steady_clock env)"
    and "fst (get_cached (steady_clock env (clock_reads s)) p (stat_cache s)) = None" and "ep_ok V s"
    and resp: "in_of V s = response_bytes resp @ rest" "answers env (ReqStat p) resp"
  shows "wp (perform env (CallStat path)) (\<lambda>r s'. r = Inr (reply_of env (CallStat path) resp)
    \<and> in_of V s' = rest \<and> out_of V s' = out_of V s @ request_bytes (ReqStat p)) s"
proof -
  note ask = req_stat_file_spec [OF p assms(4-6)]
  have "wp (req_stat_file env path) (\<lambda>r s'. r = Inr (status_in resp, case resp of RespStat st \<Rightarrow> Some st | _ \<Rightarrow> None)
      \<and> in_of V s' = rest \<and> out_of V s' = out_of V s @ request_bytes (ReqStat p)) s"
  proof (cases resp)
    case (RespStat st)
    from ask(1) [OF resp(1) [unfolded RespStat]] show ?thesis
      unfolding RespStat by (rule wp_mono) (auto dest!: io_step_conn)
  next
    case (RespStatus fl)
    with resp(2) have "named_status fl" "fl \<noteq> Success" by (auto simp: failure_def)
    from ask(2) [OF resp(1) [unfolded RespStatus] this] show ?thesis
      unfolding RespStatus by (rule wp_mono) (auto dest!: io_step_conn)
  qed (use resp(2) in auto)
  from wp_fmapM_result [OF this, of "\<lambda>(st, out). StatReply st out"] show ?thesis by simp
qed

lemma list_asks:
  fixes s :: "'s Connection"
  assumes p: "p = win32_path_to_unix (to_utf8 env) path" "length p \<le> 65535"
    and "fst (get_cached (steady_clock env (clock_reads s)) p (dir_list_cache s)) = None" and "ep_ok V s"
    and resp: "in_of V s = response_bytes resp @ rest" "answers env (ReqList p) resp"
  shows "wp (perform env (CallList path)) (\<lambda>r s'. r = Inr (reply_of env (CallList path) resp)
    \<and> in_of V s' = rest \<and> out_of V s' = out_of V s @ request_bytes (ReqList p)) s"
proof -
  note ask = req_list_file_stats_spec [OF p assms(3,4)]
  have "wp (req_list_file_stats env path) (\<lambda>r s'. r = Inr (status_in resp, case resp of RespListing es \<Rightarrow> calls_of env (shown es) | _ \<Rightarrow> [])
      \<and> in_of V s' = rest \<and> out_of V s' = out_of V s @ request_bytes (ReqList p)) s"
  proof (cases resp)
    case (RespListing es)
    with resp(2) have "list_all (entry_ok env) es" by simp
    from ask(1) [OF resp(1) [unfolded RespListing] this] show ?thesis
      unfolding RespListing by (rule wp_mono) (auto dest!: io_step_conn)
  next
    case (RespStatus fl)
    with resp(2) have "named_status fl" "fl \<noteq> Success" by (auto simp: failure_def)
    from ask(2) [OF resp(1) [unfolded RespStatus] this] show ?thesis
      unfolding RespStatus by (rule wp_mono) (auto dest!: io_step_conn)
  qed (use resp(2) in auto)
  from wp_fmapM_result [OF this, of "\<lambda>(st, calls). ListReply st calls"] show ?thesis by simp
qed

lemma conversation_agrees:
  assumes "mono (steady_clock env)" and "conversation V env t h s"
  shows "ep_ok V s \<and> caches_agree env (known_stat env h) (known_listing env h) s"
  using assms(2)
proof (induction rule: conversation.induct)
  case (kept h s c r s')
  then have "wp (perform env c) (\<lambda>_. follows V env (known_stat env h) (known_listing env h) c None s) s"
    by (intro kept_follows [OF assms(1)]) auto
  with kept(4) show ?case by (simp add: wp_def follows_def)
next
  case (asked h s c resp rest r s')
  then have "wp (perform env c) (\<lambda>_. follows V env (known_stat env h) (known_listing env h) c (Some resp) s) s"
    by (intro call_follows [OF assms(1)]) auto
  with asked(6) show ?case by (simp add: wp_def follows_def)
qed (simp add: caches_agree_init)

end

section \<open>Where a known value comes from\<close>

text \<open>What an exchange does to one path does not depend on what was known: it keeps it or replaces it.\<close>

lemma listed_stats_at:
  "(\<forall>m. listed_stats env dir es n m p = m p) \<or> (\<exists>x. \<forall>m. listed_stats env dir es n m p = x)"
proof (induction es arbitrary: n)
  case (Cons e es)
  from Cons [of "n + 2"] show ?case by (cases e) auto
qed simp

lemma stat_effect_at:
  "(\<forall>m. stat_effect env e m p = m p) \<or> (\<exists>x. \<forall>m. stat_effect env e m p = x)"
proof (cases e)
  case (fields c a n)
  show ?thesis
  proof (cases c)
    case (CallList path)
    show ?thesis
    proof (cases "\<exists>es. a = Some (RespListing es)")
      case True
      then obtain es where "a = Some (RespListing es)" ..
      with fields CallList listed_stats_at [of env "win32_path_to_unix (to_utf8 env) path" "shown es" "n + 1" p] show ?thesis
        by simp
    next
      case False
      with fields CallList show ?thesis by (auto split: option.split response.split)
    qed
  qed (auto simp: fields split: option.split response.split)
qed

text \<open>
  A known stat was brought by one exchange of the history, and no later one has brought another
  stat of the path or invalidated it.
\<close>

lemma known_stat_traceback:
  assumes "known_stat env h p = Some x"
  obtains later e earlier where "h = later @ e # earlier" and "\<And>m. stat_effect env e m p = Some x"
    and "\<And>e' m. e' \<in> set later \<Longrightarrow> stat_effect env e' m p = m p"
  using assms
proof (induction h arbitrary: thesis)
  case (Cons e h)
  show ?case
  proof (cases "\<forall>m. stat_effect env e m p = m p")
    case True
    with Cons.prems(2) have "known_stat env h p = Some x" by simp
    with Cons.IH obtain later e1 earlier where "h = later @ e1 # earlier" "\<And>m. stat_effect env e1 m p = Some x"
      "\<And>e' m. e' \<in> set later \<Longrightarrow> stat_effect env e' m p = m p" by blast
    with True show ?thesis by (intro Cons.prems(1) [of "e # later" e1 earlier]) auto
  next
    case False
    with stat_effect_at [of env e p] Cons.prems(2) have "\<And>m. stat_effect env e m p = Some x" by auto
    then show ?thesis by (intro Cons.prems(1) [of "[]" e h]) auto
  qed
qed simp

section \<open>What the client answers\<close>

text \<open>The entries of a directory whose stat is known and fresh, with the \<open>n\<close>-th clock reading for the first.\<close>

fun known_entries :: "'s conn_env \<Rightarrow> (string \<rightharpoonup> FileStat \<times> int) \<Rightarrow> string \<Rightarrow> nat \<Rightarrow> string list \<Rightarrow> (FileStat \<times> wstring) list" where
  "known_entries env m dir n [] = []"
| "known_entries env m dir n (name # names) =
     (case fresh_value (ms STAT_CACHE_PERIOD) (steady_clock env n) (m (get_full_path dir name)) of
        None \<Rightarrow> known_entries env m dir (n + 1) names
      | Some st \<Rightarrow> (st, win_name env name) # known_entries env m dir (n + 1) names)"

lemma cached_calls_known:
  assumes "mono (steady_clock env)" and "cache_agrees env k c m" and "k \<le> n"
  shows "cached_calls env dir c n names = known_entries env m dir n names"
  using assms(3)
proof (induction names arbitrary: n)
  case (Cons name names)
  have "cache_inv c" using assms(2) by (simp add: cache_agrees_def)
  with agrees_value [OF assms(1,2) Cons.prems] Cons.IH [of "n + 1"] Cons.prems show ?case
    by (simp add: lookup_fresh split: option.split)
qed simp

lemma known_names_convert:
  assumes "conversation V env t h s" and "known_listing env h p = Some (names, tm)"
  shows "list_all (\<lambda>name. from_utf8 env name \<noteq> None) names"
  using assms
proof (induction arbitrary: names tm rule: conversation.induct)
  case (kept h s c r s')
  then show ?case by (cases c) (auto simp: forget_parent_def split: if_splits option.splits)
next
  case (asked h s c resp rest r s')
  have shown: "list_all (\<lambda>name. from_utf8 env name \<noteq> None) (map fst (shown es))" if "list_all (entry_ok env) es" for es
    using that by (auto simp: shown_def list_all_iff)
  from asked.prems asked.IH asked(5) shown show ?case
    by (cases c) (auto simp: forget_parent_def split: if_splits option.splits response.splits)
qed simp

text \<open>
  Conversations for examples: a directory with two entries is listed, the times of the first one
  are changed, and the directory is listed again, while the next bytes to come are those of a stat.
\<close>

lemma conversation_grows:
  assumes "conversation V env t h s" and "valid_call env c" and "\<not> answered_here env c s" and "in_of V s = response_bytes resp @ rest"
    and "answers env (request_of env c) resp"
    and "wp (perform env c) (\<lambda>r s'. in_of V s' = rest \<and> clock_reads s' = n) s"
  shows "\<exists>s'. conversation V env t (\<lparr>ex_call = c, ex_answer = Some resp, ex_reads = clock_reads s\<rparr> # h) s'
    \<and> in_of V s' = rest \<and> clock_reads s' = n"
  using assms(6) asked [OF assms(1-5)] by (auto simp: wp_iff)

definition ex_entries :: "(string \<times> ResponseStatus \<times> FileStat) list" where
  "ex_entries = [(''a'', Success, ex_stat), (''b'', Success, ex_stat)]"

definition ex_list :: exchange where
  "ex_list = \<lparr>ex_call = CallList (ascii ''/mnt''), ex_answer = Some (RespListing ex_entries), ex_reads = 2\<rparr>"

definition ex_touch :: exchange where
  "ex_touch = \<lparr>ex_call = CallSetTime (ascii ''/mnt/a'') 0 0, ex_answer = Some (RespStatus Success), ex_reads = 9\<rparr>"

lemma ex_entries_ok: "list_all (entry_ok ex_env) ex_entries"
  by (simp add: ex_entries_def named_status_def ex_env_def)

definition ex_again :: exchange where
  "ex_again = \<lparr>ex_call = CallList (ascii ''/mnt''), ex_answer = None, ex_reads = 9\<rparr>"

text \<open>The stat of the second entry is known, that of the first is not; the names of both are.\<close>

lemma ex_known:
  "fresh_value (ms STAT_CACHE_PERIOD) (steady_clock ex_env 9) (known_listing ex_env [ex_touch, ex_list] ''/mnt'') = Some [''a'', ''b'']"
  "fresh_value (ms STAT_CACHE_PERIOD) (steady_clock ex_env 12) (known_stat ex_env [ex_again, ex_touch, ex_list] ''/mnt/a'') = None"
  "fresh_value (ms STAT_CACHE_PERIOD) (steady_clock ex_env 12) (known_stat ex_env [ex_again, ex_touch, ex_list] ''/mnt/b'') = Some ex_stat"
  "fresh_value (ms STAT_CACHE_PERIOD) (steady_clock ex_env 12) (known_listing ex_env [ex_again, ex_touch, ex_list] ''/mnt'') = Some [''a'', ''b'']"
  by code_simp+

lemma ex_two_calls:
  "\<exists>t s. conversation scripted_view ex_env t [ex_touch, ex_list] s \<and> in_of scripted_view s = response_bytes (RespStat ex_stat) \<and> clock_reads s = 9"
proof -
  note c = client.intro [OF ex_win]
  let ?l = "RespListing ex_entries" and ?t = "RespStatus Success" and ?r = "response_bytes (RespStat ex_stat)"
  let ?k = "ex_sock (response_bytes ?l @ response_bytes ?t @ ?r)"
  let ?s0 = "Connection_init ex_env ?k"
  have c0: "conversation scripted_view ex_env ?k [] ?s0"
    by (rule connected) simp
  have "wp (req_list_file_stats ex_env (ascii ''/mnt'')) (\<lambda>r s'. in_of scripted_view s' = response_bytes ?t @ ?r \<and> clock_reads s' = 9) ?s0"
    by (rule wp_mono [OF client.req_list_file_stats_spec(1) [OF c ex_parent [symmetric] _ _ _ _ ex_entries_ok, of ?s0 "response_bytes ?t @ ?r"]])
       (auto simp: dir_stored_def dir_looked_up_def stat_stored_def ex_entries_def shown_def dest!: io_step_conn)
  then obtain s1 where s1: "conversation scripted_view ex_env ?k [ex_list] s1"
      "in_of scripted_view s1 = response_bytes ?t @ ?r" "clock_reads s1 = 9"
    using conversation_grows [OF c0, of "CallList (ascii ''/mnt'')" ?l "response_bytes ?t @ ?r" 9] ex_entries_ok
    by (auto simp: ex_list_def valid_call_def wp_fmapM simp del: response_bytes.simps)
  have "ep_ok scripted_view s1"
    using client.conversation_agrees [OF c ex_clock_mono s1(1)] by simp
  then have "wp (req_set_file_time ex_env (ascii ''/mnt/a'') 0 0) (\<lambda>r s'. in_of scripted_view s' = ?r \<and> clock_reads s' = 9) s1"
    by (intro wp_mono [OF client.req_set_file_time_spec [OF c refl _ _ _ s1(2)]]) (auto simp: s1(3) dest!: io_step_conn)
  with conversation_grows [OF s1(1), of "CallSetTime (ascii ''/mnt/a'') 0 0" ?t ?r 9] s1(2,3) show ?thesis
    by (auto simp: ex_touch_def valid_call_def wp_fmapM simp del: response_bytes.simps)
qed

lemma ex_history:
  "\<exists>t s. conversation scripted_view ex_env t [ex_again, ex_touch, ex_list] s \<and> in_of scripted_view s = response_bytes (RespStat ex_stat) \<and> clock_reads s = 12"
proof -
  from ex_two_calls obtain t s where s: "conversation scripted_view ex_env t [ex_touch, ex_list] s"
    "in_of scripted_view s = response_bytes (RespStat ex_stat)" "clock_reads s = 9" by blast
  from client.conversation_agrees [OF client.intro [OF ex_win] ex_clock_mono s(1)]
  have agree: "caches_agree ex_env (known_stat ex_env [ex_touch, ex_list]) (known_listing ex_env [ex_touch, ex_list]) s" ..
  then have "fst (get_cached (steady_clock ex_env (clock_reads s)) ''/mnt'' (dir_list_cache s)) = Some [''a'', ''b'']"
    unfolding caches_agree_def using agrees_value [OF ex_clock_mono _ order_refl] ex_known(1) s(3) by metis
  moreover from client_cached_listing [OF caches_agree_inv [OF agree] ex_parent [symmetric] this]
  have "wp (perform ex_env (CallList (ascii ''/mnt''))) (\<lambda>_ s'. in_of scripted_view s' = response_bytes (RespStat ex_stat) \<and> clock_reads s' = 12) s"
    unfolding perform.simps wp_fmapM s(2) [symmetric]
    by (auto simp: s(3) in_of_def ex_env_def elim!: wp_mono)
  ultimately show ?thesis
    using kept [OF s(1), of "CallList (ascii ''/mnt'')"] ex_parent s(3)
    by (auto simp: wp_iff valid_call_def ex_again_def simp del: perform.simps)
qed

text \<open>
  C5: what a stat request answers is a function of the history of the connection. After any
  calls within the limits of the protocol, those that a cache answered among them, a stat request for a path is
  answered without a request when the history has a stat for the path that is at most 200 ms old
  and that no later remove, move, directory creation or change of times of that path has invalidated,
  and then with that stat; a path that ends in \<open>desktop.ini\<close> and has no such stat is reported missing without a
  request; for every other path exactly one request is sent and the result is the daemon's answer.
\<close>

theorem client_stat_from_history:
  fixes s :: "'s Connection"
  assumes "win_socket (winsock env) V" and "mono (steady_clock env)" and "conversation V env t h s"
    and "p = win32_path_to_unix (to_utf8 env) path" and "length p \<le> 65535"
  shows "case fresh_value (ms STAT_CACHE_PERIOD) (steady_clock env (clock_reads s)) (known_stat env h p) of
      Some st \<Rightarrow> wp (perform env (CallStat path)) (\<lambda>r s'. r = Inr (StatReply Success (Some st))
        \<and> in_of V s' = in_of V s \<and> out_of V s' = out_of V s) s
    | None \<Rightarrow> if ends_with p ''desktop.ini''
        then wp (perform env (CallStat path)) (\<lambda>r s'. r = Inr (StatReply FileNotFound None)
          \<and> in_of V s' = in_of V s \<and> out_of V s' = out_of V s) s
        else \<forall>resp rest. in_of V s = response_bytes resp @ rest \<longrightarrow> answers env (ReqStat p) resp \<longrightarrow>
          wp (perform env (CallStat path)) (\<lambda>r s'. r = Inr (reply_of env (CallStat path) resp)
            \<and> in_of V s' = rest \<and> out_of V s' = out_of V s @ request_bytes (ReqStat p)) s"
proof -
  note c = client.intro [OF assms(1)]
  from client.conversation_agrees [OF c assms(2,3)] have ok: "ep_ok V s"
    and agree: "cache_agrees env (clock_reads s) (stat_cache s) (known_stat env h)" by (simp_all add: caches_agree_def)
  note now = agrees_value [OF assms(2) agree order_refl, of p]
  show ?thesis
  proof (cases "fresh_value (ms STAT_CACHE_PERIOD) (steady_clock env (clock_reads s)) (known_stat env h p)")
    case (Some st)
    with now client.req_stat_file_hit [OF c assms(4), of s st]
    have "wp (req_stat_file env path) (\<lambda>r s'. r = Inr (Success, Some st) \<and> s' = looked_up env p s) s" by simp
    from wp_mono [OF wp_fmapM_result [OF this, of "\<lambda>(st, out). StatReply st out"]] Some show ?thesis by simp
  next
    case None
    show ?thesis
    proof (cases "ends_with p ''desktop.ini''")
      case True
      from client_desktop_ini [OF True [unfolded assms(4)] assms(2) now [unfolded None, unfolded assms(4)], THEN conjunct2]
      have "wp (req_stat_file env path) (\<lambda>r s'. r = Inr (FileNotFound, None) \<and> in_of V s' = in_of V s \<and> out_of V s' = out_of V s) s"
        by (rule wp_mono) (simp add: in_of_def out_of_def)
      from wp_fmapM_result [OF this, of "\<lambda>(st, out). StatReply st out"] None True show ?thesis by simp
    next
      case False
      with None now client.stat_asks [OF c assms(4,5) _ assms(2) _ ok] show ?thesis by simp
    qed
  qed
qed

theorem client_stat_from_history_witness:
  "\<exists>t s. conversation scripted_view ex_env t [ex_again, ex_touch, ex_list] s
     \<and> wp (perform ex_env (CallStat (ascii ''/mnt/b''))) (\<lambda>r s'. r = Inr (StatReply Success (Some ex_stat))
          \<and> out_of scripted_view s' = out_of scripted_view s) s"
proof -
  from ex_history obtain t s where s: "conversation scripted_view ex_env t [ex_again, ex_touch, ex_list] s" "clock_reads s = 12" by blast
  have p: "''/mnt/b'' = win32_path_to_unix (to_utf8 ex_env) (ascii ''/mnt/b'')"
    by code_simp
  from client_stat_from_history [OF ex_win ex_clock_mono s(1) p, unfolded s(2) ex_known option.case] s(1) show ?thesis
    by (intro exI [of _ t] exI [of _ s] conjI) (auto simp del: perform.simps elim: wp_mono)
qed

text \<open>
  C7: what a listing answers is a function of the history too, again after any calls, answered by
  the daemon or by a cache. A listing of a directory is
  answered without a request exactly when the history has a listing of it that is at most 200 ms old
  and that no later creation, removal or move of an entry of the directory has invalidated; it then
  shows of these names those whose stat is known and fresh as well, and leaves out the others.
  Otherwise exactly one request is sent and the result is the daemon's answer.
\<close>

theorem client_listing_from_history:
  fixes s :: "'s Connection"
  assumes "win_socket (winsock env) V" and "mono (steady_clock env)" and "conversation V env t h s"
    and "p = win32_path_to_unix (to_utf8 env) path" and "length p \<le> 65535"
  shows "case fresh_value (ms STAT_CACHE_PERIOD) (steady_clock env (clock_reads s)) (known_listing env h p) of
      Some names \<Rightarrow> wp (perform env (CallList path)) (\<lambda>r s'.
          r = Inr (ListReply Success (known_entries env (known_stat env h) p (clock_reads s + 1) names))
        \<and> in_of V s' = in_of V s \<and> out_of V s' = out_of V s) s
    | None \<Rightarrow> \<forall>resp rest. in_of V s = response_bytes resp @ rest \<longrightarrow> answers env (ReqList p) resp \<longrightarrow>
        wp (perform env (CallList path)) (\<lambda>r s'. r = Inr (reply_of env (CallList path) resp)
          \<and> in_of V s' = rest \<and> out_of V s' = out_of V s @ request_bytes (ReqList p)) s"
proof -
  note c = client.intro [OF assms(1)]
  from client.conversation_agrees [OF c assms(2,3)] have ok: "ep_ok V s" "conn_inv s"
    and stats: "cache_agrees env (clock_reads s) (stat_cache s) (known_stat env h)"
    and "cache_agrees env (clock_reads s) (dir_list_cache s) (known_listing env h)"
    using caches_agree_inv by (auto simp: caches_agree_def)
  from agrees_value [OF assms(2) this(4) order_refl, of p]
  have now: "fst (get_cached (steady_clock env (clock_reads s)) p (dir_list_cache s))
      = fresh_value (ms STAT_CACHE_PERIOD) (steady_clock env (clock_reads s)) (known_listing env h p)" .
  show ?thesis
  proof (cases "fresh_value (ms STAT_CACHE_PERIOD) (steady_clock env (clock_reads s)) (known_listing env h p)")
    case (Some names)
    then have "list_all (\<lambda>name. from_utf8 env name \<noteq> None) names"
      using known_names_convert [OF assms(3)] by (fastforce simp: fresh_value_def split: option.splits if_splits)
    from client_cached_listing [OF ok(2) assms(4) now [unfolded Some] this]
    have "wp (req_list_file_stats env path) (\<lambda>r s'. r = Inr (Success, known_entries env (known_stat env h) p (clock_reads s + 1) names)
        \<and> in_of V s' = in_of V s \<and> out_of V s' = out_of V s) s"
      by (rule wp_mono) (auto simp: cached_calls_known [OF assms(2) stats] in_of_def out_of_def)
    from wp_fmapM_result [OF this, of "\<lambda>(st, calls). ListReply st calls"] Some show ?thesis by simp
  next
    case None
    with now client.list_asks [OF c assms(4,5) _ ok(1)] show ?thesis by simp
  qed
qed

theorem client_listing_from_history_witness:
  "\<exists>t s. conversation scripted_view ex_env t [ex_again, ex_touch, ex_list] s
     \<and> wp (perform ex_env (CallList (ascii ''/mnt''))) (\<lambda>r s'. r = Inr (ListReply Success [(ex_stat, ascii ''b'')])
          \<and> out_of scripted_view s' = out_of scripted_view s) s"
proof -
  from ex_history obtain t s where s: "conversation scripted_view ex_env t [ex_again, ex_touch, ex_list] s" "clock_reads s = 12" by blast
  have "known_entries ex_env (known_stat ex_env [ex_again, ex_touch, ex_list]) ''/mnt'' 13 [''a'', ''b''] = [(ex_stat, ascii ''b'')]"
    by code_simp
  with client_listing_from_history [OF ex_win ex_clock_mono s(1) ex_parent [symmetric], unfolded s(2) ex_known option.case] s(1)
  show ?thesis
    by (intro exI [of _ t] exI [of _ s] conjI) (auto simp del: perform.simps known_stat.simps elim: wp_mono)
qed

end
