(* ===== verification/Long_Paths.thy ===== *)
theory Long_Paths
  imports Cache_History
begin

text \<open>
  Paths too long for the protocol. A string on the wire has a 16-bit length, and a Windows path
  can have three times as many bytes in UTF-8 as it has units. Every request function writes the
  code of the request before the path, so a path that is refused leaves that code behind.
\<close>

lemma length_win32_path_to_unix: "length (f w) - 1 \<le> length (win32_path_to_unix f w)"
  by (simp add: win32_path_to_unix_def Let_def replace_char_def)

section \<open>What a refused request leaves in the write buffer\<close>

definition too_long :: "'s conn_env \<Rightarrow> wstring \<Rightarrow> bool" where
  "too_long env path \<longleftrightarrow> 65535 < length (win32_path_to_unix (to_utf8 env) path)"

definition left_by :: "'s conn_env \<Rightarrow> RequestType \<Rightarrow> wstring \<Rightarrow> u8 list option" where
  "left_by env code path = (if too_long env path then Some [u8_of_RequestType code] else None)"

text \<open>\<open>None\<close> for the calls whose paths fit or that have no path.\<close>

fun left_over :: "'s conn_env \<Rightarrow> call \<Rightarrow> u8 list option" where
  "left_over env (CallStat path) = left_by env StatFile path"
| "left_over env (CallList path) = left_by env ListDirectory path"
| "left_over env (CallMove src dst replace_if_exists) =
     (if too_long env src then Some [u8_of_RequestType MoveEntry]
      else if too_long env dst
      then Some (u8_of_RequestType MoveEntry # utf8_bytes (win32_path_to_unix (to_utf8 env) src)) else None)"
| "left_over env (CallRemoveFile path) = left_by env RemoveFile path"
| "left_over env (CallCanRemoveFile path) = left_by env CheckRemoveFile path"
| "left_over env (CallRemoveDirectory path) = left_by env RemoveDirectory path"
| "left_over env (CallCanRemoveDirectory path) = left_by env CheckRemoveDirectory path"
| "left_over env (CallCreateDirectory path) = left_by env CreateDirectory path"
| "left_over env (CallOpen path mode ra wa) = left_by env OpenHandle path"
| "left_over env (CallSetTime path at wt) = left_by env SetFileTime path"
| "left_over env _ = None"

definition refused :: "'s sock_view \<Rightarrow> u8 list \<Rightarrow> 's Connection \<Rightarrow> exn + 'a \<Rightarrow> 's Connection \<Rightarrow> bool" where
  "refused V bs s r s' \<longleftrightarrow> (\<exists>msg. r = Inl (RuntimeError msg)) \<and> ep_ok V s' \<and> conn_inv s'
     \<and> in_of V s' = in_of V s \<and> out_of V s' = out_of V s @ bs"

lemma wp_fmapM_refused: "wp m (refused V bs s) s \<Longrightarrow> wp (fmapM f m) (refused V bs s) s"
  unfolding fmapM_def wp_bindM by (erule wp_mono) (auto simp: refused_def)

text \<open>Changes of the caches before the request do not matter.\<close>

lemma wp_modify_refused:
  assumes "wp k (refused V bs (f s)) (f s)" and "in_of V (f s) = in_of V s" and "out_of V (f s) = out_of V s"
  shows "wp (thenM (modifyM f) k) (refused V bs s) s"
  using assms by (simp add: refused_def [abs_def])

declare u8_of_RequestType.simps [simp del]

context client
begin

lemma path_refused:
  fixes s :: "'s Connection"
  assumes "ep_ok V s" and "conn_inv s" and "65535 < length p"
  shows "wp (thenM (write_request env code) (thenM (write_utf8_string (conn_write env) p) k)) (refused V [u8_of_RequestType code] s) s"
proof -
  have "transacts V [] [u8_of_RequestType code] (write_request env code :: ('s Connection, unit) M) ()"
    unfolding write_request_def by (rule conn.transacts_write_byte)
  then show ?thesis
    unfolding wp_thenM
    by (rule wp_transacts [OF _ assms(1), where rest = "in_of V s"])
       (use assms(2,3) in \<open>auto simp: refused_def conn_inv_step dest: io_stepD intro!: conn.wp_write_utf8_string_too_long\<close>)
qed

lemma second_path_refused:
  fixes s :: "'s Connection"
  assumes "ep_ok V s" and "conn_inv s" and "length p \<le> 65535" and "65535 < length q"
  shows "wp (thenM (write_request env code) (thenM (write_utf8_string (conn_write env) p) (thenM (write_utf8_string (conn_write env) q) k)))
    (refused V (u8_of_RequestType code # utf8_bytes p) s) s"
proof -
  have "transacts V [] ([u8_of_RequestType code] @ utf8_bytes p)
      (thenM (write_request env code) (write_utf8_string (conn_write env) p) :: ('s Connection, unit) M) ()"
    unfolding write_request_def by (rule transacts_write [OF conn.transacts_write_byte conn.transacts_write_utf8_string [OF assms(3)]])
  then have "wp (thenM (thenM (write_request env code) (write_utf8_string (conn_write env) p)) (thenM (write_utf8_string (conn_write env) q) k))
    (refused V (u8_of_RequestType code # utf8_bytes p) s) s"
    unfolding wp_thenM [of "thenM _ _"]
    by (rule wp_transacts [OF _ assms(1), where rest = "in_of V s"])
       (use assms(2,4) in \<open>auto simp: refused_def conn_inv_step dest: io_stepD intro!: conn.wp_write_utf8_string_too_long\<close>)
  then show ?thesis by (simp only: thenM_assoc)
qed

text \<open>The calls that change the caches before they write.\<close>

lemma changed_path_refused:
  fixes s :: "'s Connection"
  assumes "ep_ok V s" and "conn_inv s" and "65535 < length p"
  shows "wp (thenM (stat_cache_invalidate p) (thenM (invalidate_parent_dir p)
      (thenM (write_request env code) (thenM (write_utf8_string (conn_write env) p) k)))) (refused V [u8_of_RequestType code] s) s"
  unfolding drop_path_thenM
  by (intro wp_modify_refused path_refused) (use assms in \<open>simp_all add: conn_inv_states\<close>)

lemma move_refused:
  fixes s :: "'s Connection"
  assumes "ep_ok V s" and "conn_inv s" and "left_over env (CallMove src dst repl) = Some bs"
  shows "wp (req_move_entry env src dst repl) (refused V bs s) s"
proof (cases "too_long env src")
  case True
  with assms show ?thesis
    by (auto simp: req_move_entry_def Let_def MoveEntryArgs_write_def thenM_assoc drop_path_thenM too_long_def conn_inv_states
        simp del: wp_thenM intro!: wp_modify_refused path_refused)
next
  case False
  with assms show ?thesis
    by (auto simp: req_move_entry_def Let_def MoveEntryArgs_write_def thenM_assoc drop_path_thenM too_long_def conn_inv_states
        simp del: wp_thenM split: if_splits intro!: wp_modify_refused second_path_refused)
qed

lemma stat_refused:
  fixes s :: "'s Connection"
  assumes "ep_ok V s" and "conn_inv s" and "mono (steady_clock env)" and "left_over env (CallStat path) = Some bs" and "\<not> answered_here env (CallStat path) s"
  shows "wp (req_stat_file env path) (refused V bs s) s"
proof -
  let ?p = "win32_path_to_unix (to_utf8 env) path"
  let ?s = "looked_up env ?p (looked_up env ?p s)"
  have "steady_clock env (clock_reads s) \<le> steady_clock env (clock_reads s + 1)" using assms(3) by (simp add: monoD)
  with assms(5) have second: "fst (get_cached (steady_clock env (clock_reads s + 1)) ?p (stat_cache (looked_up env ?p s))) = None"
    by (auto simp: looked_up_def get_cached_def Let_def split: option.splits if_splits)
  have "wp (thenM (write_request env StatFile) (thenM (write_utf8_string (conn_write env) ?p) k)) (refused V [u8_of_RequestType StatFile] ?s) ?s" for k :: "('s Connection, ResponseStatus \<times> FileStat option) M"
    by (rule path_refused) (use assms in \<open>auto simp: conn_inv_states left_by_def too_long_def split: if_splits\<close>)
  then show ?thesis
    using assms(4,5) second
    by (auto simp: req_stat_file_def Let_def left_by_def refused_def [abs_def] simp del: wp_thenM split: if_splits)
qed

lemma list_refused:
  fixes s :: "'s Connection"
  assumes "ep_ok V s" and "conn_inv s" and "left_over env (CallList path) = Some bs" and "\<not> answered_here env (CallList path) s"
  shows "wp (req_list_file_stats env path) (refused V bs s) s"
proof -
  let ?p = "win32_path_to_unix (to_utf8 env) path"
  let ?s = "dir_looked_up env ?p s"
  have "wp (thenM (write_request env ListDirectory) (thenM (write_utf8_string (conn_write env) ?p) k)) (refused V [u8_of_RequestType ListDirectory] ?s) ?s"
    for k :: "('s Connection, ResponseStatus \<times> (FileStat \<times> wstring) list) M"
    by (rule path_refused) (use assms in \<open>auto simp: conn_inv_states left_by_def too_long_def split: if_splits\<close>)
  then show ?thesis
    using assms(3,4)
    by (auto simp: req_list_file_stats_def try_use_cached_dir_listing_def Let_def left_by_def refused_def [abs_def] simp del: wp_thenM split: if_splits)
qed

lemma long_path_refused:
  fixes s :: "'s Connection"
  assumes "ep_ok V s" and "conn_inv s" and "mono (steady_clock env)" and "left_over env c = Some bs" and "\<not> answered_here env c s"
  shows "wp (perform env c) (refused V bs s) s"
proof (cases c)
  case (CallStat path)
  with assms show ?thesis by (auto intro!: wp_fmapM_refused stat_refused)
next
  case (CallList path)
  with assms show ?thesis by (auto intro!: wp_fmapM_refused list_refused)
next
  case (CallMove src dst repl)
  with assms show ?thesis by (auto intro!: wp_fmapM_refused move_refused)
next
  case (CallOpen path mode ra wa)
  with assms show ?thesis
    by (auto simp: req_open_file_def Let_def OpenHandleArgs_write_def thenM_assoc left_by_def too_long_def simp del: wp_thenM
        split: if_splits intro!: wp_fmapM_refused path_refused)
next
  case (CallSetTime path at wt)
  with assms show ?thesis
    by (auto simp: req_set_file_time_def Let_def SetFileTimeArgs_write_def thenM_assoc left_by_def too_long_def stat_cache_invalidate_def conn_inv_def timed.drop_keeps
        simp del: wp_thenM split: if_splits intro!: wp_fmapM_refused wp_modify_refused path_refused)
qed (use assms in \<open>auto simp: req_remove_file_def req_can_remove_file_def req_remove_directory_def req_can_remove_directory_def
      req_create_directory_def Let_def left_by_def too_long_def simp del: wp_thenM split: if_splits
      intro!: wp_fmapM_refused path_refused changed_path_refused\<close>)

end

text \<open>Any state of the caches agrees with a history: with what the caches hold.\<close>

lemma caches_agree_now:
  "conn_inv s \<Longrightarrow> caches_agree env (cache_entry (stat_cache s)) (cache_entry (dir_list_cache s)) s"
  by (simp add: conn_inv_def caches_agree_def cache_agrees_def timed.agrees_def)



declare u8_of_RequestType.simps [simp]

end
