(* ===== verification/Concurrent_Requests.thy ===== *)
theory Concurrent_Requests
  imports Concurrency
begin

text \<open>
  What the mutex of \<open>Connection\<close> guarantees to the callbacks: exclusive use of the streams,
  release, and, together with the daemon, one order of all requests in which each caller gets
  the device's answer to its own request.
\<close>

section \<open>The device answers in a form the client can decode\<close>

text \<open>The names a listing shows can be converted for Windows.\<close>

fun names_convert :: "'s conn_env \<Rightarrow> response \<Rightarrow> bool" where
  "names_convert env (RespListing es) \<longleftrightarrow> list_all (\<lambda>(name, status, st). status = Success \<longrightarrow> from_utf8 env name \<noteq> None) es"
| "names_convert env _ \<longleftrightarrow> True"

lemma typed_answers:
  assumes "response_type req resp" and "valid_request req" and "names_convert env resp"
  shows "answers env req resp"
  using assms
proof cases
  case (listing es p)
  with assms(3) show ?thesis by (fastforce simp: list_all_iff)
next
  case (data bs a)
  with assms(2) show ?thesis by (simp flip: nat_uint_eq)
next
  case (refused st)
  then show ?thesis by (cases req) (auto simp: failure_def open_response_def)
next
  case performed
  then show ?thesis by (cases req) simp_all
qed (simp_all add: open_response_def)

lemma respond_answers:
  assumes "posix_os os dir_left" and "valid_request req" and "respond os req w = Some (resp, w')" and "names_convert env resp"
  shows "answers env req resp"
  using typed_answers posix_os.respond_typed [OF assms(1-3)] assms(2,4) by blast

lemma respond_all_answers:
  assumes "posix_os os dir_left" and "respond_all os reqs w = Some (resps, w')"
    and "list_all valid_request reqs" and "list_all (names_convert env) resps"
  shows "list_all2 (answers env) reqs resps"
  using assms(2-4)
proof (induction reqs arbitrary: w resps)
  case (Cons req reqs)
  from Cons.prems(1) obtain resp w1 rs where "respond os req w = Some (resp, w1)" "respond_all os reqs w1 = Some (rs, w')"
    and "resps = resp # rs"
    by (auto simp: bind_eq_Some_conv simp del: respond.simps)
  with Cons respond_answers [OF assms(1)] show ?case by auto
qed simp

section \<open>Guarantees\<close>

lemma reachable_steps: "(step env i)\<^sup>*\<^sup>* m m' \<Longrightarrow> reachable env m0 m \<Longrightarrow> reachable env m0 m'"
  by (induction rule: rtranclp_induct) (auto intro: stepped)

lemma reachable_control: "reachable env (machine_start s) m \<Longrightarrow> control_inv env m"
  by (induction rule: reachable.induct) (simp add: control_inv_def works_def, rule step_control)

text \<open>
  A run for examples: two callbacks close a handle at the same time; both have found nothing in
  the caches and wait for the mutex, and the second one gets it first.
\<close>

definition ex_conn :: "sock Connection" where
  "ex_conn = Connection_init ex_env (ex_sock (response_bytes (RespStatus Success) @ response_bytes (RespStatus Success)))"

definition ex_waiting :: "sock machine" where
  "ex_waiting = set_thread 1 (Waiting (CallClose 4)) (set_thread 1 (Looking (CallClose 4) (Return (Inr None)))
     (set_thread 0 (Waiting (CallClose 3)) (set_thread 0 (Looking (CallClose 3) (Return (Inr None))) (machine_start ex_conn))))"

definition ex_working :: "sock machine" where
  "ex_working = set_thread 1 (Working (CallClose 4) (locked ex_env (CallClose 4))) (ex_waiting\<lparr>owner := Some 1\<rparr>)"

lemma ex_conn_streams [simp]:
  "ep_ok scripted_view ex_conn" "out_of scripted_view ex_conn = []"
  "in_of scripted_view ex_conn = response_bytes (RespStatus Success) @ response_bytes (RespStatus Success)"
  by (simp_all add: ex_conn_def)

lemma ex_waiting_reachable: "reachable ex_env (machine_start ex_conn) ex_waiting"
proof -
  have look: "unlocked ex_env (CallClose h) = Return (Inr None)" "valid_call ex_env (CallClose h)" for h
    by (simp_all add: valid_call_def)
  have go: "reachable ex_env m0 (set_thread i (Waiting (CallClose h)) (set_thread i (Looking (CallClose h) (Return (Inr None))) m))"
    if "reachable ex_env m0 m" "threads m i = Idle" for m0 m :: "sock machine" and i h
    using stepped [OF stepped [OF that(1) step.start [OF that(2) look(2) [of h]]] step.miss [of _ i "CallClose h"]]
    by (simp add: look(1))
  show ?thesis
    unfolding ex_waiting_def by (intro go initially) simp_all
qed

lemma ex_working_reachable: "reachable ex_env (machine_start ex_conn) ex_working"
  unfolding ex_working_def by (rule stepped [OF ex_waiting_reachable step.acquire]) (simp_all add: ex_waiting_def)

text \<open>Both calls run to their end, one after the other.\<close>

lemma ex_run:
  obtains m where "reachable ex_env (machine_start ex_conn) m" and "owner m = None"
    and "history m = [(1, CallClose 4, [ReqClose 4], Inr (StatusReply Success)), (0, CallClose 3, [ReqClose 3], Inr (StatusReply Success))]"
proof -
  have ok: "answers ex_env (request_of ex_env (CallClose h)) (RespStatus Success)" "valid_call ex_env (CallClose h)" for h
    by (simp_all add: valid_call_def)
  have start: "threads ex_waiting 1 = Waiting (CallClose 4)" "threads ex_waiting 0 = Waiting (CallClose 3)" "owner ex_waiting = None"
    "sending ex_waiting = []" "shared ex_waiting = ex_conn" "history ex_waiting = []"
    by (simp_all add: ex_waiting_def)
  from ex_client.waiting_completes [OF start(1,3,4) ok(2) _ _ ok(1), of "[RespStatus Success]" "[]"] start
  obtain m qs r where run: "(step ex_env 1)\<^sup>*\<^sup>* ex_waiting m" and m: "threads m 0 = Waiting (CallClose 3)" "owner m = None" "sending m = []"
    "ep_ok scripted_view (shared m)" "history m = [(1, CallClose 4, qs, r)]"
    and out: "outcome ex_env (CallClose 4) [RespStatus Success, RespStatus Success] [] (out_of scripted_view ex_conn) qs
      (in_of scripted_view (shared m)) (out_of scripted_view (shared m)) r"
    by auto
  from out have m2: "qs = [ReqClose 4]" "r = Inr (StatusReply Success)" "in_of scripted_view (shared m) = wire [RespStatus Success]"
    by (simp_all add: outcome_def split: if_splits)
  from ex_client.waiting_completes [OF m(1-3) ok(2) m(4) _ ok(1), of "[]" "[]"] m(5) m2
  obtain m' qs' r' where "(step ex_env 0)\<^sup>*\<^sup>* m m'" "owner m' = None"
    and "history m' = [(1, CallClose 4, [ReqClose 4], Inr (StatusReply Success)), (0, CallClose 3, qs', r')]"
    and "outcome ex_env (CallClose 3) [RespStatus Success] [] (out_of scripted_view (shared m)) qs'
      (in_of scripted_view (shared m')) (out_of scripted_view (shared m')) r'"
    by auto
  with that [OF reachable_steps [OF this(1) reachable_steps [OF run ex_waiting_reachable]]] show ?thesis
    by (simp add: outcome_def split: if_splits)
qed

text \<open>
  C11: only the owner of the mutex touches the streams. In every state the threads can reach, at
  most one thread is between taking and releasing the mutex, and a step of any other thread
  leaves the socket, the reader and the writer exactly as they are.
\<close>

theorem mutex_protects_streams:
  assumes "reachable env (machine_start s) m" and "step env i m m'"
  shows "(\<forall>j k. works m j \<longrightarrow> works m k \<longrightarrow> j = k)
    \<and> (works m i \<or> socket (shared m') = socket (shared m) \<and> reader (shared m') = reader (shared m) \<and> writer (shared m') = writer (shared m))"
proof -
  have T: "thread_ok env (threads m i)" using reachable_control [OF assms(1)] by (simp add: control_inv_def)
  have "works m i \<or> same_streams (shared m) (shared m')"
    using assms(2) by cases (use T in \<open>auto simp: works_def dest: harmless_step(1)\<close>)
  then show ?thesis using reachable_owner [OF assms(1)] by (auto simp: same_streams_def)
qed

theorem mutex_protects_streams_witness:
  "\<exists>m'. step ex_env 2 ex_working m' \<and> works ex_working 1 \<and> (\<forall>j. works ex_working j \<longrightarrow> j = 1)
     \<and> writer (shared m') = writer (shared ex_working)"
proof -
  let ?m = "set_thread 2 (Looking CallDiskStats (unlocked ex_env CallDiskStats)) ex_working"
  have "step ex_env 2 ex_working ?m"
    by (rule step.start) (simp_all add: ex_working_def ex_waiting_def valid_call_def)
  moreover have "works ex_working 1" "\<not> works ex_working 2"
    by (simp_all add: works_def ex_working_def ex_waiting_def)
  ultimately show ?thesis
    using mutex_protects_streams [OF ex_working_reachable, of 2 ?m] by blast
qed

text \<open>
  C10: the mutex is always released. In every state the threads can reach in which a thread owns
  the mutex and the daemon answers the request of its call, the thread can go on alone until
  its call has returned and the mutex is free, however its actions were interleaved with other
  threads before.
\<close>

theorem mutex_released:
  fixes V :: "'s sock_view"
  assumes "win_socket (winsock env) V" and "reachable env (machine_start s) m" and "threads m i = Working c p" and "ep_ok V s"
    and "in_of V s = concat (map response_bytes (rs @ resp # ahead)) @ rest"
    and "list_all2 (answers env) (request_log (history m)) rs" and "answers env (request_of env c) resp"
  shows "\<exists>m' qs r. (step env i)\<^sup>*\<^sup>* m m' \<and> threads m' = (threads m)(i := Idle) \<and> owner m' = None
    \<and> history m' = history m @ [(i, c, qs, r)]"
proof -
  note c = client.intro [OF assms(1)]
  have inv: "control_inv env m" "data_inv V env (rs @ resp # ahead) rest (out_of V s) m"
    using client.reachable_inv [OF c assms(2,4), of "rs @ resp # ahead" rest] assms(5) by (simp_all add: wire_def)
  have "set (sending m) \<subseteq> {request_of env c}" using inv(1) assms(3) unfolding control_inv_def by blast
  moreover have "owner m = Some i" using reachable_owner [OF assms(2), of i] assms(3) by (simp add: works_def)
  ultimately have "answered env (resp # ahead) (sending m)"
    using assms(7) by (cases "sending m") (auto simp: answered_def)
  from data_invD(3) [OF inv(2) refl assms(6) this] \<open>owner m = Some i\<close> assms(3)
  have "ep_ok V (shared m)" and "session V (own_requests env c) (answered env (resp # ahead))
      (outcome env c (resp # ahead) rest (out_of V s @ concat (map request_bytes (request_log (history m)))))
      (sending m) (in_of V (shared m)) (out_of V (shared m)) p"
    by (simp_all add: streams_ok_def call_session_def)
  from client.session_ends [OF c this(2) assms(3) refl this(1) refl refl] assms(7) show ?thesis
    by (simp add: answered_def) blast
qed

theorem mutex_released_witness:
  "\<exists>m' qs r. (step ex_env 1)\<^sup>*\<^sup>* ex_working m' \<and> threads m' = (threads ex_working)(1 := Idle) \<and> owner m' = None
    \<and> history m' = history ex_working @ [(1, CallClose 4, qs, r)]"
proof -
  have "threads ex_working 1 = Working (CallClose 4) (locked ex_env (CallClose 4))" "history ex_working = []"
    by (simp_all add: ex_working_def ex_waiting_def)
  from mutex_released [OF ex_win ex_working_reachable this(1), of "[]" "RespStatus Success" "[RespStatus Success]" "[]"] this(2)
  show ?thesis by simp
qed

text \<open>The requests sent are valid, whatever is answered.\<close>

lemma sent_valid:
  assumes "control_inv env m" and "owner m = None"
  shows "list_all valid_request (requests_sent m)"
proof -
  have "list_all (\<lambda>(i, c, qs, r). valid_call env c \<and> set qs \<subseteq> {request_of env c}) (history m)" and "sending m = []"
    using assms by (simp_all add: control_inv_def)
  then show ?thesis by (fastforce simp: requests_sent_def request_log_def valid_call_def list_all_iff)
qed

text \<open>
  C3: concurrent calls behave as one sequence of requests. Any number of threads call the
  request functions on one connection in any interleaving. Whenever the mutex is free, the
  bytes sent are whole requests, one after the other, in the order in which the callers owned
  the mutex. The daemon, given these bytes, executes exactly these requests in this order, and
  when its responses are what the connection receives, every caller that made an exchange gets
  the decoded response to its own request; all other calls were answered from the caches, or
  refused for \<open>desktop.ini\<close>.
\<close>

theorem concurrent_calls_serialised:
  fixes V :: "'s sock_view" and V' :: "'t sock_view" and d :: "('t, 'w) ClientHandler"
  assumes "win_socket (winsock env) V" and "unix_socket net V'" and "posix_os os dir_left"
    and "reachable env (machine_start s) m" and "owner m = None" and "ep_ok V s"
    and "respond_all os (requests_sent m) (world d) = Some (resps, w')" and "all_in_sync os (requests_sent m) (world d)"
    and "list_all (names_convert env) resps" and "in_of V s = concat (map response_bytes resps) @ rest"
    and "ep_ok V' d" and "in_of V' d = concat (map request_bytes (requests_sent m))" and "buffer_bytes_filled (writer d) = 0"
  shows "out_of V (shared m) = out_of V s @ concat (map request_bytes (requests_sent m)) \<and> in_of V (shared m) = rest
    \<and> list_all (call_justified env) (history m) \<and> list_all2 (reply_justified env) (exchanges m) resps
    \<and> wp (handle_messages net os) (\<lambda>r d'. r = Inr () \<and> world d' = w'
        \<and> outgoing V' (socket d') = outgoing V' (socket d) @ concat (map response_bytes resps)) d"
proof -
  have "list_all valid_request (requests_sent m)"
    using sent_valid [OF reachable_control [OF assms(4)] assms(5)] .
  moreover from respond_all_answers [OF assms(3,7) this assms(9)] have "list_all2 (answers env) (requests_sent m) resps" .
  ultimately show ?thesis
    using client.serialised [OF client.intro [OF assms(1)] assms(4,5,6), of resps rest] assms(10)
      daemon.session [OF daemonI [OF assms(2,3)] assms(11,12,13) _ assms(8) assms(7)]
    by (simp add: wire_def)
qed

theorem concurrent_calls_serialised_witness:
  "\<exists>m. reachable ex_env (machine_start ex_conn) m \<and> map fst (history m) = [1, 0]
     \<and> out_of scripted_view (shared m) = request_bytes (ReqClose 4) @ request_bytes (ReqClose 3)
     \<and> wp (handle_messages scripted_api ram_os) (\<lambda>r d'. r = Inr ()
         \<and> sk_out (socket d') = concat (map response_bytes [RespStatus Success, RespStatus Success]))
         (ClientHandler_init (ex_sock (request_bytes (ReqClose 4) @ request_bytes (ReqClose 3))) ex_world)"
proof -
  let ?d = "ClientHandler_init (ex_sock (request_bytes (ReqClose 4) @ request_bytes (ReqClose 3))) ex_world"
  from ex_run obtain m where m: "reachable ex_env (machine_start ex_conn) m" "owner m = None"
    and h: "history m = [(1, CallClose 4, [ReqClose 4], Inr (StatusReply Success)), (0, CallClose 3, [ReqClose 3], Inr (StatusReply Success))]"
    by blast
  have "sending m = []" using reachable_control [OF m(1)] m(2) by (simp add: control_inv_def)
  with h have sent: "requests_sent m = [ReqClose 4, ReqClose 3]" by (simp add: requests_sent_def request_log_def)
  obtain w' where "respond_all ram_os (requests_sent m) (world ?d) = Some ([RespStatus Success, RespStatus Success], w')"
    unfolding sent by simp
  from concurrent_calls_serialised [OF ex_win scripted_unix.unix_socket_axioms ram_posix_os m _ this, of "[]"] h
  have "out_of scripted_view (shared m) = concat (map request_bytes (requests_sent m))
     \<and> wp (handle_messages scripted_api ram_os) (\<lambda>r d'. r = Inr () \<and> world d' = w'
         \<and> sk_out (socket d') = concat (map response_bytes [RespStatus Success, RespStatus Success])) ?d"
    by (simp add: sent)
  with m(1) h sent show ?thesis by (intro exI [of _ m]) (auto elim!: wp_mono)
qed

end
