(* ===== verification/Daemon_Main.thy ===== *)
theory Daemon_Main
  imports Daemon
begin

text \<open>
  \<open>nandroid_daemon/src/main.cpp\<close>: the daemon's entry point. It opens a listening socket,
  prints the message by which the computer recognises that it is ready, accepts one client and
  serves it until the connection ends. The socket calls are parameters over the same world as
  the file system; the calls that return \<open>-1\<close> on failure return that number here. Accepting waits until a client
  connects, and the only client waits in turn for the lines that the daemon prints; so \<open>accept_client\<close> is given the lines printed so far,
  and returns nothing when no client ever connects.
\<close>

section \<open>State\<close>

record ('s, 'w) server_api =
  open_server :: "'w \<Rightarrow> int \<times> 'w"
  bind_server :: "int \<Rightarrow> u16 \<Rightarrow> 'w \<Rightarrow> int \<times> 'w"
  listen_server :: "int \<Rightarrow> 'w \<Rightarrow> int \<times> 'w"
  accept_client :: "int \<Rightarrow> string list \<Rightarrow> 'w \<Rightarrow> ((errno + 's) \<times> 'w) option"
  close_server :: "int \<Rightarrow> 'w \<Rightarrow> 'w"
  close_client :: "'s \<Rightarrow> 'w \<Rightarrow> 'w"
  current_errno :: "'w \<Rightarrow> errno"

text \<open>
  \<open>printed\<close> are the lines written to the standard output; \<open>client\<close> is the accepted connection
  with everything that has been sent and received on it.
\<close>

record ('s, 'w) daemon_process =
  daemon_world :: 'w
  server_sock :: int
  printed :: "string list"
  client :: "'s option"

definition daemon_start :: "'w \<Rightarrow> ('s, 'w) daemon_process" where
  "daemon_start w = \<lparr>daemon_world = w, server_sock = -1, printed = [], client = None\<rparr>"

section \<open>Operations\<close>

definition osM :: "('w \<Rightarrow> 'a \<times> 'w) \<Rightarrow> (('s, 'w) daemon_process, 'a) M" where
  "osM f = (\<lambda>p. case f (daemon_world p) of (a, w) \<Rightarrow> Some (Inr a, p\<lparr>daemon_world := w\<rparr>))"

definition print_line :: "string \<Rightarrow> (('s, 'w) daemon_process, unit) M" where
  "print_line line = modifyM (\<lambda>p. p\<lparr>printed := printed p @ [line]\<rparr>)"

definition acceptM :: "('s, 'w) server_api \<Rightarrow> int \<Rightarrow> (('s, 'w) daemon_process, errno + 's) M" where
  "acceptM api sock = (\<lambda>p. case accept_client api sock (printed p) (daemon_world p) of
     None \<Rightarrow> None | Some (accepted, w) \<Rightarrow> Some (Inr accepted, p\<lparr>daemon_world := w\<rparr>))"

definition throw_unless_int :: "('s, 'w) server_api \<Rightarrow> int \<Rightarrow> (('s, 'w) daemon_process, int) M" where
  "throw_unless_int api return_val =
     bindM (getM (\<lambda>p. current_errno api (daemon_world p))) (\<lambda>err.
       if return_val = -1 then throwM (UnixException err) else returnM return_val)"

text \<open>
  The handler object of the client. Its destructor closes the connection; when the constructor
  throws there is no object and nothing is closed. An exception is reported on the standard error output and goes no
  further. \<open>handle_messages\<close> returns normally only at the end of the input, where it prints that the client has disconnected.
\<close>

definition contained_result :: "exn + 'a \<Rightarrow> exn + unit" where
  "contained_result r = (case r of Inr _ \<Rightarrow> Inr () | Inl e \<Rightarrow> if is_exception e then Inr () else Inl e)"

definition handle_client ::
  "('s, errno) socket_api \<Rightarrow> ('w, 'd) posix \<Rightarrow> ('s, 'w) server_api \<Rightarrow> 's \<Rightarrow> (('s, 'w) daemon_process, unit) M" where
  "handle_client net os api client_sock = (\<lambda>p.
     case ClientHandler_handshake net (ClientHandler_init client_sock (daemon_world p)) of
       None \<Rightarrow> None
     | Some (Inl e, h) \<Rightarrow>
         Some (contained_result (Inl e :: exn + unit), p\<lparr>daemon_world := world h, client := Some (socket h)\<rparr>)
     | Some (Inr _, h) \<Rightarrow>
         (case handle_messages net os h of
            None \<Rightarrow> None
          | Some (r, h) \<Rightarrow>
              Some (contained_result r,
                p\<lparr>daemon_world := close_client api (socket h) (world h), client := Some (socket h),
                  printed := printed p @ [''Handshake complete'']
                    @ (case r of Inr _ \<Rightarrow> [''Disconnected from client'', ''Goodbye, handled connection so shutting down''] | Inl _ \<Rightarrow> [])\<rparr>)))"

text \<open>
  In the source \<open>throw_unless\<close> is given the value of \<open>bind(...) == -1\<close>, a truth value that is
  converted to 0 or 1, and likewise for \<open>listen\<close>.
\<close>

definition serve_one ::
  "('s, errno) socket_api \<Rightarrow> ('w, 'd) posix \<Rightarrow> ('s, 'w) server_api \<Rightarrow> int \<Rightarrow> (('s, 'w) daemon_process, unit) M" where
  "serve_one net os api sock =
     bindM (osM (bind_server api sock AGENT_PORT)) (\<lambda>bound.
     thenM (throw_unless_int api (if bound = -1 then 1 else 0))
    (bindM (osM (listen_server api sock)) (\<lambda>listening.
     thenM (throw_unless_int api (if listening = -1 then 1 else 0))
    (thenM (print_line ''Binded successfully to port, awaiting connection'')
    (thenM (print_line AGENT_READY_MSG)
    (bindM (acceptM api sock) (\<lambda>accepted.
     bindM (throw_unless accepted) (\<lambda>client_sock.
     handle_client net os api client_sock))))))))"

definition start_server ::
  "('s, errno) socket_api \<Rightarrow> ('w, 'd) posix \<Rightarrow> ('s, 'w) server_api \<Rightarrow> (('s, 'w) daemon_process, unit) M" where
  "start_server net os api =
     bindM (osM (open_server api)) (\<lambda>opened.
     bindM (throw_unless_int api opened) (\<lambda>sock.
     thenM (modifyM (\<lambda>p. p\<lparr>server_sock := sock\<rparr>))
           (catchM (serve_one net os api sock)
              (\<lambda>e. if is_exception e then thenM (osM (\<lambda>w. ((), close_server api sock w))) (throwM e) else throwM e))))"

definition daemon_main ::
  "('s, errno) socket_api \<Rightarrow> ('w, 'd) posix \<Rightarrow> ('s, 'w) server_api \<Rightarrow> (('s, 'w) daemon_process, unit) M" where
  "daemon_main net os api =
     catchM (start_server net os api) (\<lambda>e. if is_exception e then returnM () else throwM e)"

section \<open>Lemmas\<close>

lemma wp_osM [simp]: "wp (osM f) Q p \<longleftrightarrow> (case f (daemon_world p) of (a, w) \<Rightarrow> Q (Inr a) (p\<lparr>daemon_world := w\<rparr>))"
  by (simp add: wp_def osM_def split: prod.split)

lemma wp_acceptM [simp]:
  "wp (acceptM api sock) Q p \<longleftrightarrow> (case accept_client api sock (printed p) (daemon_world p) of
     None \<Rightarrow> False | Some (accepted, w) \<Rightarrow> Q (Inr accepted) (p\<lparr>daemon_world := w\<rparr>))"
  by (simp add: wp_def acceptM_def split: option.split prod.split)

lemma wp_print_line [simp]: "wp (print_line l) Q p \<longleftrightarrow> Q (Inr ()) (p\<lparr>printed := printed p @ [l]\<rparr>)"
  by (simp add: print_line_def)

lemma wp_throw_unless_int [simp]:
  "wp (throw_unless_int api v) Q p \<longleftrightarrow>
     (if v = -1 then Q (Inl (UnixException (current_errno api (daemon_world p)))) p else Q (Inr v) p)"
  by (simp add: throw_unless_int_def)

lemma wp_handle_client:
  "wp (handle_client net os api t) Q p \<longleftrightarrow>
     wp (ClientHandler_handshake net) (\<lambda>r h. case r of
         Inl e \<Rightarrow> Q (contained_result (Inl e :: exn + unit)) (p\<lparr>daemon_world := world h, client := Some (socket h)\<rparr>)
       | Inr _ \<Rightarrow> wp (handle_messages net os) (\<lambda>r h. Q (contained_result r)
           (p\<lparr>daemon_world := close_client api (socket h) (world h), client := Some (socket h),
              printed := printed p @ [''Handshake complete'']
                @ (case r of Inr _ \<Rightarrow> [''Disconnected from client'', ''Goodbye, handled connection so shutting down''] | Inl _ \<Rightarrow> [])\<rparr>)) h)
      (ClientHandler_init t (daemon_world p))"
  by (auto simp: wp_def handle_client_def split: option.split sum.split)

text \<open>The state after a session that ended normally with the handler object \<open>h\<close>.\<close>

definition session_over :: "('s, 'w) server_api \<Rightarrow> ('s, 'w) ClientHandler \<Rightarrow> ('s, 'w) daemon_process \<Rightarrow> ('s, 'w) daemon_process" where
  "session_over api h p =
     p\<lparr>daemon_world := close_client api (socket h) (world h), client := Some (socket h),
       printed := printed p @ [''Handshake complete'', ''Disconnected from client'', ''Goodbye, handled connection so shutting down'']\<rparr>"

lemma wp_handle_client_normal:
  assumes "wp (ClientHandler_handshake net) (\<lambda>r h. r = Inr () \<and> wp (handle_messages net os) (\<lambda>r' h'. r' = Inr () \<and> Q (Inr ()) (session_over api h' p)) h)
    (ClientHandler_init t (daemon_world p))"
  shows "wp (handle_client net os api t) Q p"
  using assms by (auto simp: wp_handle_client contained_result_def session_over_def elim!: wp_mono)

lemma client_session:
  fixes x :: u32
  assumes "unix_socket net V" and "posix_os os dir_left"
    and "usable V t" and "incoming V t = be_bytes 4 x @ concat (map request_bytes reqs)"
    and "list_all valid_request reqs" and "all_in_sync os reqs w" and "respond_all os reqs w = Some (resps, w')"
  shows "wp (ClientHandler_handshake net) (\<lambda>r h. r = Inr () \<and> wp (handle_messages net os) (\<lambda>r' h'. r' = Inr () \<and> world h' = w'
    \<and> outgoing V (socket h') = outgoing V t @ be_bytes 4 x @ concat (map response_bytes resps)) h) (ClientHandler_init t w)"
proof -
  let ?s = "ClientHandler_init t w"
  have "wp (ClientHandler_handshake net) (\<lambda>r h. r = Inr () \<and> ep_ok V h \<and> in_of V h = concat (map request_bytes reqs)
      \<and> outgoing V (socket h) = outgoing V t @ be_bytes 4 x \<and> buffer_bytes_filled (writer h) = 0 \<and> world h = w) ?s"
    by (rule daemon_handshake_echoes [OF assms(1,3,4)])
  then show ?thesis
  proof (rule wp_mono)
    fix r and h :: "('a, 'b) ClientHandler"
    assume h: "r = Inr () \<and> ep_ok V h \<and> in_of V h = concat (map request_bytes reqs)
      \<and> outgoing V (socket h) = outgoing V t @ be_bytes 4 x \<and> buffer_bytes_filled (writer h) = 0 \<and> world h = w"
    with daemon.session [OF daemonI [OF assms(1,2)], of h reqs resps w'] assms(5-7)
    show "r = Inr () \<and> wp (handle_messages net os) (\<lambda>r' h'. r' = Inr () \<and> world h' = w'
      \<and> outgoing V (socket h') = outgoing V t @ be_bytes 4 x @ concat (map response_bytes resps)) h" by simp
  qed
qed

definition ready_lines :: "string list" where
  "ready_lines = [''Binded successfully to port, awaiting connection'', AGENT_READY_MSG]"

definition served_lines :: "string list" where
  "served_lines = ready_lines @ [''Handshake complete'', ''Disconnected from client'', ''Goodbye, handled connection so shutting down'']"

lemma daemon_main_session:
  fixes x :: u32
  assumes "unix_socket net V" and "posix_os os dir_left"
    and "open_server api w = (sock, w1)" and "sock \<noteq> -1"
    and "bind_server api sock AGENT_PORT w1 = (b, w2)" and "listen_server api sock w2 = (l, w3)"
    and "accept_client api sock ready_lines w3 = Some (Inr t, w4)"
    and "usable V t" and "incoming V t = be_bytes 4 x @ concat (map request_bytes reqs)"
    and "list_all valid_request reqs" and "all_in_sync os reqs w4" and "respond_all os reqs w4 = Some (resps, w')"
  shows "wp (daemon_main net os api) (\<lambda>r p. r = Inr () \<and> printed p = served_lines
        \<and> (\<exists>t'. client p = Some t' \<and> daemon_world p = close_client api t' w'
             \<and> outgoing V t' = outgoing V t @ be_bytes 4 x @ concat (map response_bytes resps))) (daemon_start w)"
  using client_session [OF assms(1,2,8-12)] assms(7)
  by (auto simp: daemon_main_def start_server_def serve_one_def daemon_start_def assms(3-6) throw_unless_def
      session_over_def served_lines_def ready_lines_def elim!: wp_mono intro!: wp_handle_client_normal)

lemma daemon_main_no_client:
  assumes "open_server api w = (sock, w1)" and "sock \<noteq> -1"
    and "bind_server api sock AGENT_PORT w1 = (b, w2)" and "listen_server api sock w2 = (l, w3)"
    and "accept_client api sock ready_lines w3 = Some (Inl err, w4)"
  shows "wp (daemon_main net os api) (\<lambda>r p. r = Inr () \<and> printed p = ready_lines \<and> client p = None
      \<and> daemon_world p = close_server api sock w4) (daemon_start w)"
  using assms(5)
  by (simp add: daemon_main_def start_server_def serve_one_def daemon_start_def assms(1-4) throw_unless_def ready_lines_def is_exception_def)

text \<open>
  C13: the life of the daemon. It opens its socket, prints the two lines that announce that it is ready, and only then waits for a
  client. When a client connects, the daemon echoes the handshake, answers every request of the session as the specification says,
  and ends when the client closes the connection, having printed five lines; when accepting fails, it closes its socket and ends. Nothing is
  required of the results \<open>b\<close> and \<open>l\<close> of \<open>bind\<close> and \<open>listen\<close>: the daemon announces itself even if they failed.
\<close>

theorem daemon_serves_client:
  fixes x :: u32
  assumes "unix_socket net V" and "posix_os os dir_left"
    and "open_server api w = (sock, w1)" and "sock \<noteq> -1"
    and "bind_server api sock AGENT_PORT w1 = (b, w2)" and "listen_server api sock w2 = (l, w3)"
    and "accept_client api sock [''Binded successfully to port, awaiting connection'', AGENT_READY_MSG] w3 = Some (accepted, w4)"
    and "\<And>t. accepted = Inr t \<Longrightarrow> usable V t \<and> incoming V t = be_bytes 4 x @ concat (map request_bytes reqs)"
    and "list_all valid_request reqs" and "all_in_sync os reqs w4"
  shows "\<exists>resps w'. respond_all os reqs w4 = Some (resps, w')
    \<and> wp (daemon_main net os api) (\<lambda>r p. r = Inr () \<and> (case accepted of
          Inl err \<Rightarrow> printed p = [''Binded successfully to port, awaiting connection'', AGENT_READY_MSG]
            \<and> client p = None \<and> daemon_world p = close_server api sock w4
        | Inr t \<Rightarrow> printed p = [''Binded successfully to port, awaiting connection'', AGENT_READY_MSG, ''Handshake complete'',
              ''Disconnected from client'', ''Goodbye, handled connection so shutting down'']
            \<and> (\<exists>t'. client p = Some t' \<and> daemon_world p = close_client api t' w'
                 \<and> outgoing V t' = outgoing V t @ be_bytes 4 x @ concat (map response_bytes resps)))) (daemon_start w)"
proof -
  obtain resps w' where resp: "respond_all os reqs w4 = Some (resps, w')"
    using daemon.respond_all_total [OF daemonI [OF assms(1,2)], of reqs w4] by blast
  note acc = assms(7) [folded ready_lines_def]
  show ?thesis
  proof (cases accepted)
    case (Inl err)
    from daemon_main_no_client [OF assms(3-6) acc [unfolded Inl]] show ?thesis
      by (intro exI [of _ resps] exI [of _ w'] conjI [OF resp]) (auto simp: Inl ready_lines_def elim!: wp_mono)
  next
    case (Inr t)
    from assms(8) [OF this] daemon_main_session [OF assms(1-6) acc [unfolded Inr] _ _ assms(9,10) resp] show ?thesis
      by (intro exI [of _ resps] exI [of _ w'] conjI [OF resp]) (auto simp: Inr served_lines_def ready_lines_def elim!: wp_mono)
  qed
qed

text \<open>
  A server for examples on which \<open>bind\<close> and \<open>listen\<close> fail and a client connects nevertheless, once it has seen the ready message.
\<close>

definition ex_server :: "u8 list \<Rightarrow> (sock, 'w) server_api" where
  "ex_server bs = \<lparr>open_server = (\<lambda>w. (3, w)), bind_server = (\<lambda>sock port w. (-1, w)), listen_server = (\<lambda>sock w. (-1, w)),
     accept_client = (\<lambda>sock lines w. if AGENT_READY_MSG \<in> set lines then Some (Inr (ex_sock bs), w) else None), close_server = (\<lambda>sock w. w), close_client = (\<lambda>t w. w), current_errno = (\<lambda>_. EACCES)\<rparr>"

definition ex_session :: "u8 list" where
  "ex_session = [0xFA, 0xFE, 0x5A, 0xBE] @ concat (map request_bytes ex_requests)"

lemma ex_session_ok:
  shows "usable scripted_view (ex_sock ex_session)"
    and "incoming scripted_view (ex_sock ex_session) = be_bytes 4 (0xFAFE5ABE :: u32) @ concat (map request_bytes ex_requests)"
    and "list_all valid_request ex_requests" and "all_in_sync ram_os ex_requests ex_world"
proof -
  have "be_bytes 4 (0xFAFE5ABE :: u32) = [0xFA, 0xFE, 0x5A, 0xBE]" by code_simp
  then show "incoming scripted_view (ex_sock ex_session) = be_bytes 4 (0xFAFE5ABE :: u32) @ concat (map request_bytes ex_requests)"
    by (simp add: ex_session_def)
  show "all_in_sync ram_os ex_requests ex_world" by code_simp
  show "list_all valid_request ex_requests" by (simp add: ex_requests_def ex_open_def named_mode_def)
qed simp

lemma ex_server_calls:
  "open_server (ex_server bs) w = (3, w)" "bind_server (ex_server bs) 3 AGENT_PORT w = (-1, w)"
  "listen_server (ex_server bs) 3 w = (-1, w)" "accept_client (ex_server bs) 3 [''Binded successfully to port, awaiting connection'', AGENT_READY_MSG] w = Some (Inr (ex_sock bs), w)"
  by (simp_all add: ex_server_def)

theorem daemon_serves_client_witness:
  "wp (daemon_main scripted_api ram_os (ex_server ex_session))
     (\<lambda>r p. r = Inr () \<and> length (printed p) = 5
        \<and> (\<exists>t'. client p = Some t' \<and> sk_out t' = [0xFA, 0xFE, 0x5A, 0xBE] @ concat (map response_bytes ex_responses))) (daemon_start ex_world)"
proof -
  have "map_option fst (respond_all ram_os ex_requests ex_world) = Some ex_responses"
    "be_bytes 4 (0xFAFE5ABE :: u32) = [0xFA, 0xFE, 0x5A, 0xBE]" by code_simp+
  with daemon_serves_client [OF scripted_unix.unix_socket_axioms ram_posix_os ex_server_calls(1) _ ex_server_calls(2,3)
      ex_server_calls(4) [where bs = ex_session] _ ex_session_ok(3,4), where x = "0xFAFE5ABE"] ex_session_ok(1,2)
  show ?thesis by (auto elim!: wp_mono)
qed

end
