(* ===== verification/Adb.thy ===== *)
theory Adb
  imports Text_Lines
begin

text \<open>
  \<open>nandroidfs/Adb.cpp\<close> and \<open>win_path_util.cpp\<close>: finding an installation of adb and running
  it with its output captured. The Windows calls for pipes, processes and paths are
  parameters. The state of a computation is the cached path and the outside world. Handles that
  are only closed have no counterpart.
\<close>

record ('p, 'k) process_api =
  create_pipe :: "'k \<Rightarrow> bool \<times> 'k"
  set_handle_information :: "'k \<Rightarrow> bool \<times> 'k"
  create_process :: "wstring \<Rightarrow> 'k \<Rightarrow> 'p option \<times> 'k"
  read_pipe :: "'p \<Rightarrow> 'k \<Rightarrow> string option \<times> 'k"
  get_exit_code :: "'p \<Rightarrow> 'k \<Rightarrow> int option \<times> 'k"
  launches :: "wstring \<Rightarrow> 'k \<Rightarrow> bool \<times> 'k"
  get_module_file_name :: "wstring option"
  path_remove_file_spec :: "wstring \<Rightarrow> wstring"
  path_combine :: "wstring \<Rightarrow> wstring \<Rightarrow> wstring"

text \<open>
  \<open>captured\<close> are the arguments of the calls of \<open>consume_output\<close> during the current invocation,
  in order.
\<close>

record 'k adb_state =
  adb_invoke_path :: "wstring option"
  captured :: "string list"
  outside :: 'k

definition outM :: "('k \<Rightarrow> 'a \<times> 'k) \<Rightarrow> ('k adb_state, 'a) M" where
  "outM f = (\<lambda>s. case f (outside s) of (a, k) \<Rightarrow> Some (Inr a, s\<lparr>outside := k\<rparr>))"

definition requireM :: "bool \<Rightarrow> string \<Rightarrow> ('o, unit) M" where
  "requireM ok msg = (if ok then returnM () else throwM (RuntimeError msg))"

definition get_exe_path :: "('p, 'k) process_api \<Rightarrow> wstring option" where
  "get_exe_path api = get_module_file_name api"

definition get_abs_path_from_rel_to_exe :: "('p, 'k) process_api \<Rightarrow> wstring \<Rightarrow> wstring option" where
  "get_abs_path_from_rel_to_exe api relative_path =
     (case get_exe_path api of
        None \<Rightarrow> None
      | Some exe_path \<Rightarrow> Some (path_combine api (path_remove_file_spec api exe_path) relative_path))"

text \<open>A copy of a string that a C function receives: it ends at the first NUL.\<close>

definition non_constify_string :: "wstring \<Rightarrow> wstring" where
  "non_constify_string orig = takeWhile (\<lambda>c. c \<noteq> 0) orig"

definition create_stdouterr_pipes :: "('p, 'k) process_api \<Rightarrow> ('k adb_state, unit) M" where
  "create_stdouterr_pipes api =
     bindM (outM (create_pipe api)) (\<lambda>ok. thenM (requireM ok ''Failed to CreatePipe for reading stdout'')
    (bindM (outM (set_handle_information api)) (\<lambda>ok. requireM ok ''Failed to SetHandleInformation on pipe'')))"

definition create_process_pipe_output :: "('p, 'k) process_api \<Rightarrow> wstring \<Rightarrow> ('k adb_state, 'p) M" where
  "create_process_pipe_output api command_line =
     bindM (outM (create_process api (non_constify_string command_line))) (\<lambda>p.
       case p of None \<Rightarrow> throwM (RuntimeError ''Failure in CreateProcess'') | Some process_info \<Rightarrow> returnM process_info)"

text \<open>
  The reading loop. A read that fails (\<open>None\<close>) or gives nothing is the end of the output.
\<close>

partial_function (option) capture_loop ::
  "('p, 'k) process_api \<Rightarrow> 'p \<Rightarrow> 'k adb_state \<Rightarrow> ((exn + unit) \<times> 'k adb_state) option" where
  "capture_loop api p s =
     bindM (outM (read_pipe api p)) (\<lambda>res.
       if res = None \<or> res = Some [] then returnM ()
       else bindM (modifyM (\<lambda>s. s\<lparr>captured := captured s @ [the res]\<rparr>)) (\<lambda>_. capture_loop api p)) s"

declare capture_loop.simps [code]

definition invoke_process_capture_output :: "('p, 'k) process_api \<Rightarrow> wstring \<Rightarrow> ('k adb_state, int) M" where
  "invoke_process_capture_output api command_line =
     thenM (create_stdouterr_pipes api)
    (bindM (create_process_pipe_output api command_line) (\<lambda>p.
     thenM (capture_loop api p)
    (bindM (outM (get_exit_code api p)) (\<lambda>code.
       case code of None \<Rightarrow> throwM (RuntimeError ''Failed to get exit code'') | Some exit_code \<Rightarrow> returnM exit_code))))"

definition invoke_process_capture_output_string :: "('p, 'k) process_api \<Rightarrow> wstring \<Rightarrow> ('k adb_state, string \<times> int) M" where
  "invoke_process_capture_output_string api command_line =
     thenM (modifyM (\<lambda>s. s\<lparr>captured := []\<rparr>))
    (bindM (invoke_process_capture_output api command_line) (\<lambda>exit_code.
     bindM (getM captured) (\<lambda>chunks. returnM (concat chunks, exit_code))))"

definition int_string :: "int \<Rightarrow> string" where
  "int_string n = (if n < 0 then ''-'' @ dec_string (nat (- n)) else dec_string (nat n))"

definition invoke_throw_on_nonzero :: "('p, 'k) process_api \<Rightarrow> wstring \<Rightarrow> ('k adb_state, string) M" where
  "invoke_throw_on_nonzero api command_line =
     bindM (invoke_process_capture_output_string api command_line) (\<lambda>(output, exit_code).
       if exit_code = 0 then returnM output
       else throwM (RuntimeError (''Got nonzero exit code from ADB: '' @ int_string exit_code @ '', stdout/stderr: '' @ output)))"

definition adb_install_exists :: "('p, 'k) process_api \<Rightarrow> wstring \<Rightarrow> ('k adb_state, bool) M" where
  "adb_install_exists api invoke_path = outM (launches api (non_constify_string invoke_path))"

definition store_adb_path :: "wstring \<Rightarrow> ('k adb_state, wstring) M" where
  "store_adb_path path = thenM (modifyM (\<lambda>s. s\<lparr>adb_invoke_path := Some path\<rparr>)) (returnM path)"

definition find_adb_path :: "('p, 'k) process_api \<Rightarrow> ('k adb_state, wstring) M" where
  "find_adb_path api =
     bindM (getM adb_invoke_path) (\<lambda>current.
       case current of
         Some path \<Rightarrow> returnM path
       | None \<Rightarrow>
           bindM (adb_install_exists api (wide ''adb'')) (\<lambda>on_path.
             if on_path then store_adb_path (wide ''adb'')
             else (case get_abs_path_from_rel_to_exe api (wide (''platform-tools'' @ [CHR 0x5C] @ ''adb.exe'')) of
                     None \<Rightarrow> throwM (RuntimeError ''No ADB installation found!'')
                   | Some included_adb_path \<Rightarrow>
                       (let quoted_adb_path = [0x22] @ included_adb_path @ [0x22] in
                        bindM (adb_install_exists api quoted_adb_path) (\<lambda>found.
                          if found then store_adb_path quoted_adb_path
                          else throwM (RuntimeError ''No ADB installation found!''))))))"

definition invoke_adb :: "('p, 'k) process_api \<Rightarrow> wstring \<Rightarrow> ('k adb_state, string) M" where
  "invoke_adb api args =
     bindM (find_adb_path api) (\<lambda>path. invoke_throw_on_nonzero api (path @ wide '' '' @ args))"

definition invoke_adb_with_serial :: "('p, 'k) process_api \<Rightarrow> wstring \<Rightarrow> wstring \<Rightarrow> ('k adb_state, string) M" where
  "invoke_adb_with_serial api serial args =
     bindM (find_adb_path api) (\<lambda>path. invoke_throw_on_nonzero api (path @ wide '' -s '' @ serial @ wide '' '' @ args))"

definition invoke_adb_capture_output :: "('p, 'k) process_api \<Rightarrow> wstring \<Rightarrow> wstring \<Rightarrow> ('k adb_state, int) M" where
  "invoke_adb_capture_output api serial args =
     bindM (find_adb_path api) (\<lambda>path. invoke_process_capture_output api (path @ wide '' -s '' @ serial @ wide '' '' @ args))"

section \<open>Lemmas\<close>

lemma wp_outM [simp]: "wp (outM f) Q s \<longleftrightarrow> (case f (outside s) of (a, k) \<Rightarrow> Q (Inr a) (s\<lparr>outside := k\<rparr>))"
  by (simp add: wp_def outM_def split: prod.split)

text \<open>
  What a process promises: \<open>pieces p k\<close> are the pieces of output it will still write, none
  of them empty, before the pipe reports its end.
\<close>

locale process_output =
  fixes api :: "('p, 'k) process_api"
    and pieces :: "'p \<Rightarrow> 'k \<Rightarrow> string list"
  assumes read_end: "pieces p k = [] \<Longrightarrow> fst (read_pipe api p k) = None \<or> fst (read_pipe api p k) = Some []"
    and read_more: "pieces p k = x # xs \<Longrightarrow> x \<noteq> [] \<and> fst (read_pipe api p k) = Some x \<and> pieces p (snd (read_pipe api p k)) = xs"
begin

lemma capture_loop_pieces:
  "wp (capture_loop api p) (\<lambda>r s'. r = Inr () \<and> captured s' = captured s @ pieces p (outside s)
     \<and> adb_invoke_path s' = adb_invoke_path s) s"
proof (induction "pieces p (outside s)" arbitrary: s)
  case Nil
  then show ?case
    using read_end [of p "outside s"]
    by (cases "read_pipe api p (outside s)") (auto simp: wp_def capture_loop.simps [of api p s] bindM_def outM_def returnM_def)
next
  case (Cons x xs)
  from read_more [OF Cons(2) [symmetric]] obtain k' where rd: "read_pipe api p (outside s) = (Some x, k')" "x \<noteq> []" "pieces p k' = xs"
    by (cases "read_pipe api p (outside s)") auto
  with Cons(1) [of "s\<lparr>outside := k', captured := captured s @ [x]\<rparr>"] Cons(2) [symmetric] show ?case
    by (auto simp: wp_def capture_loop.simps [of api p s] bindM_def outM_def modifyM_def)
qed

end

text \<open>
  A machine on which adb is installed and its commands succeed: \<open>text_of cmd\<close> is the text that
  the process with the command line \<open>cmd\<close> writes.
\<close>

locale adb_host = process_output api pieces
  for api :: "('p, 'k) process_api" and pieces :: "'p \<Rightarrow> 'k \<Rightarrow> string list" +
  fixes text_of :: "wstring \<Rightarrow> string"
  assumes pipes: "\<exists>k'. create_pipe api k = (True, k')" "\<exists>k'. set_handle_information api k = (True, k')"
    and runs: "\<exists>p k'. create_process api cmd k = (Some p, k') \<and> concat (pieces p k') = text_of cmd"
    and exits: "\<exists>k'. get_exit_code api p k = (Some 0, k')"
    and installed: "\<exists>k'. launches api cmd k = (True, k')"
begin

lemma wp_capture_loop:
  assumes "\<And>s'. \<lbrakk>captured s' = captured s @ pieces p (outside s); adb_invoke_path s' = adb_invoke_path s\<rbrakk> \<Longrightarrow> Q (Inr ()) s'"
  shows "wp (capture_loop api p) Q s"
  by (rule wp_mono [OF capture_loop_pieces]) (use assms in auto)

lemma wp_capture_output:
  assumes "\<And>s'. \<lbrakk>concat (captured s') = concat (captured s) @ text_of (non_constify_string cmd); adb_invoke_path s' = adb_invoke_path s\<rbrakk>
    \<Longrightarrow> Q (Inr 0) s'"
  shows "wp (invoke_process_capture_output api cmd) Q s"
proof -
  from pipes obtain k1 k2 where pp: "create_pipe api (outside s) = (True, k1)" "set_handle_information api k1 = (True, k2)" by blast
  from runs obtain p k3 where run: "create_process api (non_constify_string cmd) k2 = (Some p, k3)"
    and out: "concat (pieces p k3) = text_of (non_constify_string cmd)" by blast
  have "wp (capture_loop api p) (\<lambda>r s'. case r of Inl e \<Rightarrow> Q (Inl e) s'
      | Inr _ \<Rightarrow> wp (bindM (outM (get_exit_code api p)) (\<lambda>code.
          case code of None \<Rightarrow> throwM (RuntimeError ''Failed to get exit code'') | Some exit_code \<Rightarrow> returnM exit_code)) Q s') (s\<lparr>outside := k3\<rparr>)"
  proof (rule wp_capture_loop)
    fix s' :: "'k adb_state"
    assume "captured s' = captured (s\<lparr>outside := k3\<rparr>) @ pieces p (outside (s\<lparr>outside := k3\<rparr>))"
      "adb_invoke_path s' = adb_invoke_path (s\<lparr>outside := k3\<rparr>)"
    moreover from exits obtain k4 where "get_exit_code api p (outside s') = (Some 0, k4)" by blast
    ultimately show "case Inr () of Inl e \<Rightarrow> Q (Inl e) s'
      | Inr _ \<Rightarrow> wp (bindM (outM (get_exit_code api p)) (\<lambda>code.
          case code of None \<Rightarrow> throwM (RuntimeError ''Failed to get exit code'') | Some exit_code \<Rightarrow> returnM exit_code)) Q s'"
      using out by (auto intro!: assms)
  qed
  then show ?thesis
    by (simp add: invoke_process_capture_output_def create_stdouterr_pipes_def requireM_def create_process_pipe_output_def pp run)
qed

lemma wp_find_adb_path:
  assumes "\<And>path s'. \<lbrakk>captured s' = captured s; adb_invoke_path s' = Some path;
      adb_invoke_path s = None \<longrightarrow> path = wide ''adb''; adb_invoke_path s \<noteq> None \<longrightarrow> adb_invoke_path s = Some path\<rbrakk> \<Longrightarrow> Q (Inr path) s'"
  shows "wp (find_adb_path api) Q s"
proof (cases "adb_invoke_path s")
  case None
  from installed obtain k where "launches api (non_constify_string (wide ''adb'')) (outside s) = (True, k)" by blast
  with None show ?thesis
    by (auto simp: find_adb_path_def adb_install_exists_def store_adb_path_def intro!: assms)
qed (auto simp: find_adb_path_def intro!: assms)

lemma wp_invoke_throw_on_nonzero:
  assumes "\<And>s'. adb_invoke_path s' = adb_invoke_path s \<Longrightarrow> Q (Inr (text_of (non_constify_string cmd))) s'"
  shows "wp (invoke_throw_on_nonzero api cmd) Q s"
  by (auto simp: invoke_throw_on_nonzero_def invoke_process_capture_output_string_def intro!: wp_capture_output assms)

text \<open>adb commands return everything the process has written.\<close>

lemma wp_invoke_adb:
  "wp (invoke_adb api args) (\<lambda>r s'. \<exists>path. adb_invoke_path s' = Some path
     \<and> path = (case adb_invoke_path s of None \<Rightarrow> wide ''adb'' | Some current \<Rightarrow> current)
     \<and> r = Inr (text_of (non_constify_string (path @ wide '' '' @ args)))) s"
  by (auto simp: invoke_adb_def intro!: wp_find_adb_path wp_invoke_throw_on_nonzero split: option.splits)

lemma wp_invoke_adb_with_serial:
  "wp (invoke_adb_with_serial api serial args) (\<lambda>r s'. \<exists>path. adb_invoke_path s' = Some path
     \<and> path = (case adb_invoke_path s of None \<Rightarrow> wide ''adb'' | Some current \<Rightarrow> current)
     \<and> r = Inr (text_of (non_constify_string (path @ wide '' -s '' @ serial @ wide '' '' @ args)))) s"
  by (auto simp: invoke_adb_with_serial_def intro!: wp_find_adb_path wp_invoke_throw_on_nonzero split: option.splits)

end

text \<open>
  A machine for examples: \<open>adb\<close> is on the search path and lists two devices, one of them not
  authorised; the list comes in two pieces, and every other command is silent. The state is
  what the running process has still to write; \<open>exe_path\<close> is the path of the program, if known.
\<close>

definition ex_listing :: "string list" where
  "ex_listing =
     [''List of devices attached'' @ [CHR 0x0D, newline] @ ''R5'' @ [CHR 0x09] @ ''dev'',
      ''ice'' @ [CHR 0x0D, newline] @ ''X9'' @ [CHR 0x09] @ ''unauthorized'' @ [CHR 0x0D, newline] @ [CHR 0x0D, newline]]"

definition ex_text :: "wstring \<Rightarrow> string list" where
  "ex_text cmd = (if cmd = wide ''adb devices'' then ex_listing else [])"

definition ex_adb :: "wstring option \<Rightarrow> (unit, string list) process_api" where
  "ex_adb exe_path = \<lparr>create_pipe = (\<lambda>k. (True, k)), set_handle_information = (\<lambda>k. (True, k)),
     create_process = (\<lambda>cmd k. (Some (), ex_text cmd)),
     read_pipe = (\<lambda>p k. case k of [] \<Rightarrow> (None, k) | x # xs \<Rightarrow> (Some x, xs)),
     get_exit_code = (\<lambda>p k. (Some 0, k)), launches = (\<lambda>path k. (True, k)),
     get_module_file_name = exe_path,
     path_remove_file_spec = (\<lambda>_. wide ''C:/nandroidfs''), path_combine = (\<lambda>dir rel. dir @ wide ''/'' @ rel)\<rparr>"

definition ex_pieces :: "unit \<Rightarrow> string list \<Rightarrow> string list" where
  "ex_pieces p k = takeWhile (\<lambda>x. x \<noteq> []) k"

interpretation ex_machine: adb_host "ex_adb exe_path" ex_pieces "\<lambda>cmd. concat (ex_text cmd)"
  for exe_path
  by unfold_locales (auto simp: ex_adb_def ex_pieces_def ex_text_def ex_listing_def split: list.splits if_splits)

end
