(* ===== verification/Nandroid.thy ===== *)
theory Nandroid
  imports Connecting Adb Client
begin

text \<open>
  \<open>nandroidfs/Nandroid.cpp\<close>: starting the daemon on a device, connecting to it, mounting the
  drive, and taking all of it down. The thread that runs the daemon (\<open>invoke_daemon\<close>) acts
  on the object in events: a piece of output, and its end. The two threads meet only under
  \<open>mtx_agent_ready\<close>, which \<open>begin\<close> keeps from the moment it is woken until it returns; so
  what the daemon's thread does is given by the list of the events that happen while the other
  thread waits, a parameter (\<open>agent_progress\<close>). Dokan's calls are parameters too.
\<close>

section \<open>State\<close>

datatype thread_state = NotStarted | Running | Finished

text \<open>
  \<open>agent_log\<close> are the lines given to \<open>agent_logger\<close>; \<open>nan_instance\<close> the drive letter under which
  the Dokan instance is mounted (\<open>None\<close> is the null handle).
\<close>

record 's Nandroid =
  device_serial :: string
  wide_device_serial :: wstring
  port_num :: u16
  agent_output_buffer :: string
  agent_log :: "string list"
  agent_ready :: bool
  agent_ready_notified :: bool
  agent_dead_notified :: bool
  agent_invoke_thread :: thread_state
  nan_connection :: "'s Connection option"
  nan_instance :: "u16 option"

datatype agent_event = AgentOutput string | AgentExit

text \<open>The three places where a thread waits for the daemon's thread.\<close>

datatype agent_wait = ReadyWait | DeadWait | JoinWait

text \<open>The results of \<open>DokanCreateFileSystem\<close> that the source names, and any other code.\<close>

datatype dokan_status =
    DOKAN_SUCCESS | DOKAN_ERROR | DOKAN_DRIVE_LETTER_ERROR | DOKAN_DRIVER_INSTALL_ERROR | DOKAN_START_ERROR
  | DOKAN_MOUNT_ERROR | DOKAN_MOUNT_POINT_ERROR | DOKAN_VERSION_ERROR | DOKAN_STATUS int

record ('p, 'k, 's, 'a) host =
  adb_api :: "('p, 'k) process_api"
  sockets :: "('s, 'a, 'k) resolver"
  host_conn_env :: "'s conn_env"
  dokan_create :: "u16 \<Rightarrow> 'k \<Rightarrow> dokan_status \<times> 'k"
  dokan_close :: "u16 \<Rightarrow> 'k \<Rightarrow> 'k"
  agent_progress :: "agent_wait \<Rightarrow> string \<Rightarrow> 'k \<Rightarrow> agent_event list \<times> 'k"

text \<open>A method of the object: its own state and that of the process.\<close>

record ('s, 'k) method_state =
  this :: "'s Nandroid"
  process :: "'k adb_state"

definition AGENT_REL_PATH :: wstring where
  "AGENT_REL_PATH = wide ''nandroid-daemon''"

definition AGENT_DEST_PATH :: wstring where
  "AGENT_DEST_PATH = wide ''/data/local/tmp/nandroid-daemon''"

definition Nandroid_new :: "(string \<Rightarrow> wstring option) \<Rightarrow> string \<Rightarrow> u16 \<Rightarrow> exn + 's Nandroid" where
  "Nandroid_new utf16 serial port =
     map_sum id (\<lambda>wide_serial.
       \<lparr>device_serial = serial, wide_device_serial = wide_serial, port_num = port,
        agent_output_buffer = [], agent_log = [], agent_ready = False, agent_ready_notified = False,
        agent_dead_notified = False, agent_invoke_thread = NotStarted, nan_connection = None, nan_instance = None\<rparr>)
      (wstring_from_string utf16 serial)"

section \<open>The daemon's thread\<close>

definition pop_back_if :: "char \<Rightarrow> string \<Rightarrow> string" where
  "pop_back_if c line = (if ends_with line [c] then butlast line else line)"

text \<open>
  One iteration of the loop over the new-lines of the buffer. The second argument of
  \<open>substr\<close> is a count; the source passes the position \<open>next\<close>.
\<close>

definition handle_daemon_line :: "string \<Rightarrow> nat \<Rightarrow> nat \<Rightarrow> 's Nandroid \<Rightarrow> 's Nandroid" where
  "handle_daemon_line buf start next n =
     (let line = take next (drop start buf);
          n' = (if starts_with line AGENT_READY_MSG then n\<lparr>agent_ready := True, agent_ready_notified := True\<rparr> else n)
      in n'\<lparr>agent_log := agent_log n' @ [pop_back_if (CHR 0x0D) (pop_back_if newline line)]\<rparr>)"

definition handle_daemon_output :: "string \<Rightarrow> 's Nandroid \<Rightarrow> 's Nandroid" where
  "handle_daemon_output piece n =
     (let buf = agent_output_buffer n @ piece;
          (start, n') = line_loop (handle_daemon_line buf) buf 0 n
      in n'\<lparr>agent_output_buffer := drop start buf\<rparr>)"

text \<open>The end of \<open>invoke_daemon\<close>, after which the thread is done.\<close>

definition agent_exited :: "'s Nandroid \<Rightarrow> 's Nandroid" where
  "agent_exited n =
     n\<lparr>agent_ready := False, agent_ready_notified := True, agent_dead_notified := True, agent_invoke_thread := Finished\<rparr>"

fun agent_step :: "agent_event \<Rightarrow> 's Nandroid \<Rightarrow> 's Nandroid" where
  "agent_step (AgentOutput piece) n = handle_daemon_output piece n"
| "agent_step AgentExit n = agent_exited n"

text \<open>Nothing happens while there is no running thread.\<close>

definition agent_acts :: "agent_event \<Rightarrow> 's Nandroid \<Rightarrow> 's Nandroid" where
  "agent_acts e n = (if agent_invoke_thread n = Running then agent_step e n else n)"

text \<open>
  The whole thread: the events it contributes, in order. An exception is logged and ends it
  like an exit.
\<close>

definition invoke_daemon :: "('p, 'k) process_api \<Rightarrow> wstring \<Rightarrow> ('k adb_state, agent_event list) M" where
  "invoke_daemon api serial =
     thenM (modifyM (\<lambda>s. s\<lparr>captured := []\<rparr>))
    (thenM (catchM (thenM (invoke_adb_capture_output api serial (wide ''shell .'' @ AGENT_DEST_PATH)) (returnM ()))
                   (\<lambda>e. if is_exception e then returnM () else throwM e))
    (bindM (getM captured) (\<lambda>chunks. returnM (map AgentOutput chunks @ [AgentExit]))))"

section \<open>Mounting\<close>

text \<open>The loop over the drive letters; the letter is a \<open>wchar_t\<close>.\<close>

function mount_loop :: "('p, 'k, 's, 'a) host \<Rightarrow> u16 \<Rightarrow> 'k \<Rightarrow> (exn + u16) \<times> 'k" where
  "mount_loop H letter k =
     (case dokan_create H letter k of (status, k) \<Rightarrow>
        case status of
          DOKAN_SUCCESS \<Rightarrow> (Inr letter, k)
        | DOKAN_ERROR \<Rightarrow> (Inl (RuntimeError ''Unspecified dokan error''), k)
        | DOKAN_DRIVE_LETTER_ERROR \<Rightarrow> (Inl (RuntimeError ''Invalid drive letter''), k)
        | DOKAN_DRIVER_INSTALL_ERROR \<Rightarrow> (Inl (RuntimeError ''Failed to install dokan driver''), k)
        | DOKAN_START_ERROR \<Rightarrow> (Inl (RuntimeError ''Internal driver error''), k)
        | DOKAN_MOUNT_ERROR \<Rightarrow>
            if letter = 0x5A
            then (Inl (RuntimeError ''No valid mount points found! All drive letters must be occupied''), k)
            else mount_loop H (letter + 1) k
        | DOKAN_MOUNT_POINT_ERROR \<Rightarrow> (Inl (RuntimeError ''Mount point was invalid''), k)
        | DOKAN_VERSION_ERROR \<Rightarrow> (Inl (RuntimeError ''Incompatible with installed version of dokan''), k)
        | DOKAN_STATUS _ \<Rightarrow> (Inl (RuntimeError ''Unknown error occured''), k))"
  by pat_completeness auto

lemma letters_left: "letter \<noteq> 0x5A \<Longrightarrow> unat (0x5A - (letter + 1) :: u16) < unat (0x5A - letter)"
proof -
  assume "letter \<noteq> 0x5A"
  then have "0x5A - letter \<noteq> 0" by simp
  moreover have "0x5A - (letter + 1) = (0x5A - letter) - 1" by (simp add: algebra_simps)
  ultimately show ?thesis by (metis unat_minus_one unat_gt_0 diff_less zero_less_one)
qed

termination mount_loop
  by (relation "measure (\<lambda>(H, letter, k). unat (0x5A - letter))") (use letters_left in auto)

declare mount_loop.simps [simp del]

section \<open>Methods\<close>

definition adbM :: "('k adb_state, 'a) M \<Rightarrow> (('s, 'k) method_state, 'a) M" where
  "adbM m = (\<lambda>s. case m (process s) of None \<Rightarrow> None | Some (r, p) \<Rightarrow> Some (r, s\<lparr>process := p\<rparr>))"

definition set_this :: "('s Nandroid \<Rightarrow> 's Nandroid) \<Rightarrow> (('s, 'k) method_state, unit) M" where
  "set_this f = modifyM (\<lambda>s. s\<lparr>this := f (this s)\<rparr>)"

text \<open>A wait during which the daemon's thread makes progress.\<close>

definition let_agent_run :: "('p, 'k, 's, 'a) host \<Rightarrow> agent_wait \<Rightarrow> (('s, 'k) method_state, unit) M" where
  "let_agent_run H wait =
     bindM (getM (\<lambda>s. device_serial (this s))) (\<lambda>serial.
     bindM (adbM (outM (agent_progress H wait serial))) (\<lambda>events.
     set_this (fold agent_acts events)))"

definition wait_until :: "('s Nandroid \<Rightarrow> bool) \<Rightarrow> (('s, 'k) method_state, unit) M" where
  "wait_until pred = (\<lambda>s. if pred (this s) then Some (Inr (), s) else None)"

definition adb_on_device :: "('p, 'k, 's, 'a) host \<Rightarrow> wstring \<Rightarrow> (('s, 'k) method_state, unit) M" where
  "adb_on_device H args =
     bindM (getM (\<lambda>s. wide_device_serial (this s))) (\<lambda>serial.
     thenM (adbM (invoke_adb_with_serial (adb_api H) serial args)) (returnM ()))"

definition connect_to_agent :: "('p, 'k, 's, 'a) host \<Rightarrow> (('s, 'k) method_state, unit) M" where
  "connect_to_agent H = (\<lambda>s.
     case Connection_new (sockets H) (host_conn_env H) ''localhost'' (port_num (this s)) (outside (process s)) of
       None \<Rightarrow> None
     | Some (Inl e, k) \<Rightarrow> Some (Inl e, s\<lparr>process := (process s)\<lparr>outside := k\<rparr>\<rparr>)
     | Some (Inr c, k) \<Rightarrow>
         Some (Inr (), s\<lparr>process := (process s)\<lparr>outside := k\<rparr>, this := (this s)\<lparr>nan_connection := Some c\<rparr>\<rparr>))"

definition mount_filesystem :: "('p, 'k, 's, 'a) host \<Rightarrow> (('s, 'k) method_state, unit) M" where
  "mount_filesystem H =
     bindM (adbM (outM (mount_loop H 0x44))) (\<lambda>res.
       case res of
         Inl e \<Rightarrow> throwM e
       | Inr letter \<Rightarrow> set_this (\<lambda>n. n\<lparr>nan_instance := Some letter\<rparr>))"

definition quoted :: "wstring \<Rightarrow> wstring" where
  "quoted path = [0x22] @ path @ [0x22]"

text \<open>\<open>Nandroid::begin\<close>, up to the start of the daemon's thread, and from there on.\<close>

definition launch_agent :: "('p, 'k, 's, 'a) host \<Rightarrow> (('s, 'k) method_state, unit) M" where
  "launch_agent H =
     (case get_abs_path_from_rel_to_exe (adb_api H) AGENT_REL_PATH of
        None \<Rightarrow> throwM (RuntimeError ''Failed to get agent path'')
      | Some agent_path \<Rightarrow>
          thenM (adb_on_device H (wide ''push '' @ quoted agent_path @ wide '' '' @ AGENT_DEST_PATH))
         (thenM (adb_on_device H (wide ''shell chmod +x '' @ AGENT_DEST_PATH))
         (bindM (getM (\<lambda>s. port_num (this s))) (\<lambda>port.
          thenM (adb_on_device H (wide (''forward tcp:'' @ dec_string (unat port) @ '' tcp:'' @ dec_string (unat AGENT_PORT))))
                (set_this (\<lambda>n. n\<lparr>agent_invoke_thread := Running\<rparr>))))))"

definition await_agent :: "('p, 'k, 's, 'a) host \<Rightarrow> (('s, 'k) method_state, unit) M" where
  "await_agent H =
     thenM (let_agent_run H ReadyWait)
    (thenM (wait_until agent_ready_notified)
    (thenM (set_this (\<lambda>n. n\<lparr>agent_ready_notified := False\<rparr>))
    (bindM (getM (\<lambda>s. agent_ready (this s))) (\<lambda>ready.
       if ready then returnM () else throwM (RuntimeError ''Agent failed to start up'')))))"

definition Nandroid_begin :: "('p, 'k, 's, 'a) host \<Rightarrow> (('s, 'k) method_state, unit) M" where
  "Nandroid_begin H =
     thenM (launch_agent H)
    (thenM (await_agent H)
    (thenM (connect_to_agent H)
           (mount_filesystem H)))"

text \<open>
  \<open>Nandroid::~Nandroid\<close>. The first wait is at most two seconds long; \<open>join\<close> waits for the end
  of the thread. Joining a thread that was never started throws out of the destructor, which
  ends the process.
\<close>

definition join_agent :: "('p, 'k, 's, 'a) host \<Rightarrow> (('s, 'k) method_state, unit) M" where
  "join_agent H =
     bindM (getM (\<lambda>s. agent_invoke_thread (this s))) (\<lambda>t.
       if t = NotStarted then throwM ProcessAbort
       else thenM (let_agent_run H JoinWait) (wait_until (\<lambda>n. agent_invoke_thread n = Finished)))"

definition Nandroid_delete :: "('p, 'k, 's, 'a) host \<Rightarrow> (('s, 'k) method_state, unit) M" where
  "Nandroid_delete H =
     bindM (getM (\<lambda>s. nan_instance (this s))) (\<lambda>i.
     thenM (case i of None \<Rightarrow> returnM () | Some letter \<Rightarrow> adbM (outM (\<lambda>k. ((), dokan_close H letter k))))
    (bindM (getM (\<lambda>s. nan_connection (this s))) (\<lambda>c.
     thenM (case c of None \<Rightarrow> returnM () | Some conn \<Rightarrow> adbM (outM (\<lambda>k. ((), Connection_delete (sockets H) conn k))))
    (thenM (let_agent_run H DeadWait)
    (bindM (getM (\<lambda>s. agent_dead_notified (this s))) (\<lambda>notified.
     thenM (if notified then returnM ()
            else catchM (adb_on_device H (wide ''shell pkill nandroid-daemon''))
                        (\<lambda>e. if is_exception e then returnM () else throwM e))
           (join_agent H)))))))"

section \<open>Lemmas\<close>

lemma wp_adbM [simp]: "wp (adbM m) Q s \<longleftrightarrow> wp m (\<lambda>r p. Q r (s\<lparr>process := p\<rparr>)) (process s)"
  by (auto simp: wp_def adbM_def split: option.split)

lemma wp_set_this [simp]: "wp (set_this f) Q s \<longleftrightarrow> Q (Inr ()) (s\<lparr>this := f (this s)\<rparr>)"
  by (simp add: set_this_def)

lemma wp_wait_until [simp]: "wp (wait_until p) Q s \<longleftrightarrow> p (this s) \<and> Q (Inr ()) s"
  by (simp add: wp_def wait_until_def)

lemma wp_connect_to_agent:
  "wp (connect_to_agent H) Q s \<longleftrightarrow>
     (case Connection_new (sockets H) (host_conn_env H) ''localhost'' (port_num (this s)) (outside (process s)) of
        None \<Rightarrow> False
      | Some (Inl e, k) \<Rightarrow> Q (Inl e) (s\<lparr>process := (process s)\<lparr>outside := k\<rparr>\<rparr>)
      | Some (Inr c, k) \<Rightarrow> Q (Inr ()) (s\<lparr>process := (process s)\<lparr>outside := k\<rparr>, this := (this s)\<lparr>nan_connection := Some c\<rparr>\<rparr>))"
  by (auto simp: wp_def connect_to_agent_def split: option.split sum.split)

lemma blocks_iff: "m s = None \<longleftrightarrow> \<not> wp m (\<lambda>_ _. True) s"
  by (auto simp: wp_def split: option.split)

subsection \<open>Output of the daemon\<close>

lemma ready_msg_one_line: "newline \<notin> set AGENT_READY_MSG"
  by (simp add: AGENT_READY_MSG_def)

text \<open>What \<open>substr\<close> adds after the end of the line cannot complete a prefix that has no new-line.\<close>

lemma starts_with_cut:
  assumes "newline \<notin> set pre"
  shows "starts_with (l @ take n (newline # t)) pre \<longleftrightarrow> starts_with l pre"
proof (cases "length pre \<le> length l")
  case False
  have "take (length pre) (l @ take n (newline # t)) \<noteq> pre"
  proof
    assume eq: "take (length pre) (l @ take n (newline # t)) = pre"
    show False
    proof (cases n)
      case 0
      with arg_cong [OF eq, of length] False show False by simp
    next
      case (Suc m)
      from False obtain d where "length pre = length l + Suc d" using less_iff_Suc_add [of "length l" "length pre"] by auto
      with eq Suc have "l @ newline # take d (take m t) = pre" by simp
      with assms show False by auto
    qed
  qed
  with False show ?thesis by (auto simp: starts_with_def dest: arg_cong [of _ _ length])
qed (simp add: starts_with_def)

definition ready_flags :: "'s Nandroid \<Rightarrow> bool \<times> bool" where
  "ready_flags n = (agent_ready n, agent_ready_notified n)"

definition sees_line :: "string \<Rightarrow> bool \<times> bool \<Rightarrow> bool \<times> bool" where
  "sees_line line flags = (if starts_with line AGENT_READY_MSG then (True, True) else flags)"

lemma ready_flags_daemon_line:
  assumes "drop start buf = l @ newline # t" and "newline \<notin> set l"
  shows "ready_flags (handle_daemon_line buf start (start + length l) n) = sees_line l (ready_flags n)"
  using starts_with_cut [OF ready_msg_one_line, of l start t]
  by (simp add: assms(1) handle_daemon_line_def ready_flags_def sees_line_def Let_def)

lemma handle_daemon_output_lines:
  "ready_flags (handle_daemon_output piece n) = fold sees_line (fst (split_lines (agent_output_buffer n @ piece))) (ready_flags n)"
  "agent_output_buffer (handle_daemon_output piece n) = snd (split_lines (agent_output_buffer n @ piece))"
  using line_loop_lines [of "agent_output_buffer n @ piece" ready_flags "handle_daemon_line (agent_output_buffer n @ piece)" sees_line,
      where start = 0 and a = n, OF ready_flags_daemon_line]
  by (auto simp: handle_daemon_output_def Let_def ready_flags_def split: prod.split)

lemma fold_handle_daemon_output:
  assumes "newline \<notin> set (agent_output_buffer n)"
  shows "ready_flags (fold handle_daemon_output pieces n)
      = fold sees_line (fst (split_lines (agent_output_buffer n @ concat pieces))) (ready_flags n)"
    and "agent_output_buffer (fold handle_daemon_output pieces n) = snd (split_lines (agent_output_buffer n @ concat pieces))"
  using assms
proof (induction pieces arbitrary: n)
  case (Cons piece pieces)
  { case 1
    show ?case using Cons(1) [of "handle_daemon_output piece n"]
      by (simp add: handle_daemon_output_lines split_lines_append [of "agent_output_buffer n @ piece" "concat pieces", simplified])
  next
    case 2
    show ?case using Cons(2) [of "handle_daemon_output piece n"]
      by (simp add: handle_daemon_output_lines split_lines_append [of "agent_output_buffer n @ piece" "concat pieces", simplified])
  }
qed (simp_all add: split_lines_no_newline)

lemma fold_sees_line:
  "fold sees_line ls (r, m) =
     (let seen = \<exists>l \<in> set ls. starts_with l AGENT_READY_MSG in (r \<or> seen, m \<or> seen))"
  by (induction ls arbitrary: r m) (auto simp: sees_line_def Let_def)

subsection \<open>Events of the daemon's thread\<close>

text \<open>What the output of the daemon leaves alone.\<close>

definition fixed_part :: "'s Nandroid \<Rightarrow> string \<times> wstring \<times> u16 \<times> bool \<times> thread_state \<times> 's Connection option \<times> u16 option" where
  "fixed_part n = (device_serial n, wide_device_serial n, port_num n, agent_dead_notified n, agent_invoke_thread n, nan_connection n, nan_instance n)"

lemma fixed_part_line: "fixed_part (handle_daemon_line buf start nl n) = fixed_part n"
  by (simp add: fixed_part_def handle_daemon_line_def Let_def)

lemma fixed_part_output: "fixed_part (handle_daemon_output piece n) = fixed_part n"
proof -
  let ?buf = "agent_output_buffer n @ piece"
  have "fixed_part (snd (line_loop (handle_daemon_line ?buf) ?buf 0 n)) = fold (\<lambda>_. id) (fst (split_lines (drop 0 ?buf))) (fixed_part n)"
    by (rule line_loop_lines [THEN conjunct1]) (simp add: fixed_part_line)
  then show ?thesis
    by (auto simp: handle_daemon_output_def Let_def fixed_part_def fold_id split: prod.split)
qed

lemma fixed_part_outputs: "fixed_part (fold handle_daemon_output pieces n) = fixed_part n"
  by (induction pieces arbitrary: n) (simp_all add: fixed_part_output)

fun agent_pieces :: "agent_event list \<Rightarrow> string list" where
  "agent_pieces [] = []"
| "agent_pieces (AgentOutput piece # es) = piece # agent_pieces es"
| "agent_pieces (AgentExit # es) = []"

lemma agent_acts_stopped: "agent_invoke_thread n \<noteq> Running \<Longrightarrow> fold agent_acts es n = n"
  by (induction es) (simp_all add: agent_acts_def)

text \<open>A running thread: its output up to its end, and its end.\<close>

lemma agent_acts_run:
  assumes "agent_invoke_thread n = Running"
  shows "fold agent_acts es n = (if AgentExit \<in> set es then agent_exited else id) (fold handle_daemon_output (agent_pieces es) n)"
  using assms
proof (induction es arbitrary: n rule: agent_pieces.induct)
  case (2 piece es)
  have "agent_invoke_thread (handle_daemon_output piece n) = Running"
    using fixed_part_output [of piece n] 2(2) by (simp add: fixed_part_def)
  from 2(1) [OF this] 2(2) show ?case by (simp add: agent_acts_def)
next
  case (3 es)
  then have "fold agent_acts (AgentExit # es) n = fold agent_acts es (agent_exited n)" by (simp add: agent_acts_def)
  then show ?case by (simp add: agent_acts_stopped agent_exited_def)
qed simp

lemma wp_let_agent_run [simp]:
  "wp (let_agent_run H w) Q s \<longleftrightarrow>
     (case agent_progress H w (device_serial (this s)) (outside (process s)) of
        (es, k) \<Rightarrow> Q (Inr ()) (s\<lparr>process := (process s)\<lparr>outside := k\<rparr>, this := fold agent_acts es (this s)\<rparr>))"
  by (simp add: let_agent_run_def split: prod.split)

definition announces_ready :: "string \<Rightarrow> bool" where
  "announces_ready text \<longleftrightarrow> (\<exists>line \<in> set (fst (split_lines text)). starts_with line AGENT_READY_MSG)"

lemma Nandroid_new_fields:
  assumes "Nandroid_new u serial port = Inr n"
  shows "device_serial n = serial" "port_num n = port" "agent_output_buffer n = []" "ready_flags n = (False, False)"
    "agent_invoke_thread n = NotStarted" "nan_connection n = None" "nan_instance n = None" "agent_dead_notified n = False"
  using assms by (auto simp: Nandroid_new_def ready_flags_def map_sum_def split: sum.splits)

lemma ready_after_output:
  assumes "agent_output_buffer n = []" and "ready_flags n = (False, False)"
  shows "ready_flags (fold handle_daemon_output pieces n) = (announces_ready (concat pieces), announces_ready (concat pieces))"
  using fold_handle_daemon_output(1) [of n pieces] assms by (simp add: fold_sees_line announces_ready_def Let_def)

text \<open>
  C17: the daemon is recognised as ready exactly when a complete line of its output starts
  with the ready message, however the output is cut into pieces, and the text after the last
  new-line is kept for the next piece. The excess characters that \<open>substr\<close> takes into
  \<open>line\<close> make no difference to this.
\<close>

theorem daemon_ready_detected:
  assumes "Nandroid_new u serial port = Inr n"
  shows "agent_ready (fold handle_daemon_output pieces n)
        = (\<exists>line \<in> set (fst (split_lines (concat pieces))). starts_with line AGENT_READY_MSG)
    \<and> agent_ready_notified (fold handle_daemon_output pieces n) = agent_ready (fold handle_daemon_output pieces n)
    \<and> agent_output_buffer (fold handle_daemon_output pieces n) = snd (split_lines (concat pieces))"
  using ready_after_output [of n pieces] fold_handle_daemon_output(2) [of n pieces] Nandroid_new_fields [OF assms]
  by (simp add: ready_flags_def announces_ready_def)

definition ex_device :: "sock Nandroid" where
  "ex_device =
     \<lparr>device_serial = ''R5'', wide_device_serial = wide ''R5'', port_num = 25989,
      agent_output_buffer = [], agent_log = [], agent_ready = False, agent_ready_notified = False,
      agent_dead_notified = False, agent_invoke_thread = NotStarted, nan_connection = None, nan_instance = None\<rparr>"

lemma ex_device_new: "Nandroid_new (\<lambda>s. Some (wide s)) ''R5'' 25989 = Inr ex_device"
  by (simp add: Nandroid_new_def ex_device_def wstring_from_string_def)

theorem daemon_ready_detected_witness:
  "agent_ready (fold handle_daemon_output [''bound'' @ [newline] @ ''NANDROID_READY'', ''_FOR_CONNECTION'', [newline] @ ''x''] ex_device)
   \<and> agent_output_buffer (fold handle_daemon_output [''bound'' @ [newline] @ ''NANDROID_READY'', ''_FOR_CONNECTION'', [newline] @ ''x''] ex_device) = ''x''"
  using daemon_ready_detected [OF ex_device_new, of "[''bound'' @ [newline] @ ''NANDROID_READY'', ''_FOR_CONNECTION'', [newline] @ ''x'']"]
  by (simp add: AGENT_READY_MSG_def starts_with_def)

text \<open>
  The line that is logged is not the line that was received: \<open>substr(last_newline_idx + 1, next_newline_idx)\<close>
  takes as many characters as the buffer has before the new-line.
\<close>

lemma daemon_log_repeats:
  "agent_log (handle_daemon_output (''a'' @ [newline] @ ''b'' @ [newline] @ ''c'' @ [newline]) ex_device)
     = [''a'', ''b'' @ [newline] @ ''c'', ''c'']"
  by code_simp

text \<open>
  C19: what \<open>begin\<close> does after it has started the daemon's thread. If the thread ends before
  \<open>begin\<close> is woken, \<open>begin\<close> fails and does not wait forever, even if the daemon had announced
  itself; otherwise it goes on to connect exactly when the ready line has come, and waits as
  long as it has not.
\<close>

theorem await_agent_outcome:
  assumes "Nandroid_new u serial port = Inr n"
    and "agent_progress H ReadyWait serial (outside p) = (events, k)"
  shows "let s = \<lparr>this = n\<lparr>agent_invoke_thread := Running\<rparr>, process = p\<rparr> in
    if AgentExit \<in> set events
    then wp (await_agent H) (\<lambda>r s'. r = Inl (RuntimeError ''Agent failed to start up'') \<and> agent_invoke_thread (this s') = Finished) s
    else if announces_ready (concat (agent_pieces events))
    then wp (await_agent H) (\<lambda>r s'. r = Inr () \<and> agent_ready (this s') \<and> agent_invoke_thread (this s') = Running) s
    else await_agent H s = None"
proof -
  let ?n = "n\<lparr>agent_invoke_thread := Running\<rparr>" and ?m = "fold handle_daemon_output (agent_pieces events) (n\<lparr>agent_invoke_thread := Running\<rparr>)"
  note new = Nandroid_new_fields [OF assms(1)]
  have flags: "agent_ready ?m = announces_ready (concat (agent_pieces events))" "agent_ready_notified ?m = agent_ready ?m"
    using ready_after_output [of ?n "agent_pieces events"] new by (auto simp: ready_flags_def)
  have thread: "agent_invoke_thread ?m = Running"
    using fixed_part_outputs [of "agent_pieces events" ?n] by (simp add: fixed_part_def)
  show ?thesis
    using assms(2) new(1) by (simp add: Let_def await_agent_def blocks_iff agent_acts_run agent_exited_def flags thread)
qed

subsection \<open>Mounting\<close>

text \<open>
  What mounting promises: the drive letters from \<open>D\<close> to \<open>Z\<close> are tried in order; a letter that is
  taken leads to the next, success or any other error ends the search.
\<close>

definition drive_letters :: "u16 list" where
  "drive_letters = map word_of_nat [0x44..<0x5B]"

fun try_letters :: "('p, 'k, 's, 'a) host \<Rightarrow> u16 list \<Rightarrow> 'k \<Rightarrow> dokan_status \<times> u16 option \<times> 'k" where
  "try_letters H [] k = (DOKAN_MOUNT_ERROR, None, k)"
| "try_letters H (l # ls) k =
     (case dokan_create H l k of
        (DOKAN_SUCCESS, k) \<Rightarrow> (DOKAN_SUCCESS, Some l, k)
      | (DOKAN_MOUNT_ERROR, k) \<Rightarrow> try_letters H ls k
      | (status, k) \<Rightarrow> (status, None, k))"

lemma mount_loop_from:
  assumes "a \<le> 0x5A"
  shows "case try_letters H (map word_of_nat [a..<0x5B]) k of
    (status, letter, k') \<Rightarrow> \<exists>msg. mount_loop H (word_of_nat a) k = (case letter of Some l \<Rightarrow> (Inr l, k') | None \<Rightarrow> (Inl (RuntimeError msg), k'))
      \<and> (status = DOKAN_SUCCESS \<longleftrightarrow> letter \<noteq> None) \<and> (\<forall>l. letter = Some l \<longrightarrow> l \<in> set (map word_of_nat [a..<0x5B]))"
  using assms
proof (induction "0x5A - a" arbitrary: a k)
  case 0
  then have "a = 0x5A" by simp
  then show ?case by (simp add: mount_loop.simps split: prod.split dokan_status.split)
next
  case (Suc d)
  then have a: "a < 0x5A" "[a..<0x5B] = a # [Suc a..<0x5B]" by (simp_all add: upt_conv_Cons)
  have "unat (word_of_nat a :: u16) = a" using a(1) by (simp add: unat_of_nat take_bit_nat_eq_self)
  with a(1) have "(word_of_nat a :: u16) \<noteq> 0x5A" by auto
  note loop = mount_loop.simps [of H "word_of_nat a" k]
  obtain status k1 where dc: "dokan_create H (word_of_nat a) k = (status, k1)" by fastforce
  show ?case
  proof (cases "status = DOKAN_MOUNT_ERROR")
    case True
    have "case try_letters H (map word_of_nat [Suc a..<0x5B]) k1 of
      (status, letter, k') \<Rightarrow> \<exists>msg. mount_loop H (word_of_nat (Suc a)) k1 = (case letter of Some l \<Rightarrow> (Inr l, k') | None \<Rightarrow> (Inl (RuntimeError msg), k'))
        \<and> (status = DOKAN_SUCCESS \<longleftrightarrow> letter \<noteq> None) \<and> (\<forall>l. letter = Some l \<longrightarrow> l \<in> set (map word_of_nat [Suc a..<0x5B]))"
      using Suc(2) a(1) by (intro Suc(1)) auto
    then show ?thesis
      using True dc \<open>word_of_nat a \<noteq> 0x5A\<close> by (auto simp: a(2) loop add.commute split: prod.splits)
  next
    case False
    then show ?thesis
      using dc by (cases status) (auto simp: a(2) loop)
  qed
qed

text \<open>
  C20: mounting is the search through the drive letters \<open>D\<close> to \<open>Z\<close>: it always ends, with the
  letter the search finds, and with an exception when the search finds none.
\<close>

theorem mount_filesystem_letters:
  "case try_letters H drive_letters (outside (process s)) of (status, letter, k) \<Rightarrow>
     (\<forall>l. letter = Some l \<longrightarrow> l \<in> set drive_letters) \<and>
     wp (mount_filesystem H) (\<lambda>r s'. outside (process s') = k \<and>
       (case letter of
          Some l \<Rightarrow> status = DOKAN_SUCCESS \<and> r = Inr () \<and> this s' = (this s)\<lparr>nan_instance := Some l\<rparr>
        | None \<Rightarrow> status \<noteq> DOKAN_SUCCESS \<and> (\<exists>msg. r = Inl (RuntimeError msg)) \<and> this s' = this s)) s"
  using mount_loop_from [where a = "0x44" and H = H and k = "outside (process s)"]
  by (auto simp: mount_filesystem_def drive_letters_def split: prod.splits option.splits)

lemma mount_loop_result:
  "case fst (mount_loop H 0x44 k) of Inl e \<Rightarrow> is_exception e | Inr l \<Rightarrow> l \<in> set drive_letters"
  using mount_loop_from [where a = "0x44" and H = H and k = k]
  by (auto simp: drive_letters_def is_exception_def split: prod.splits option.splits)

subsection \<open>Starting and taking down\<close>

text \<open>How \<open>begin\<close> may leave the object.\<close>

definition started :: "'s Nandroid \<Rightarrow> exn + unit \<Rightarrow> 's Nandroid \<Rightarrow> bool" where
  "started n r n' \<longleftrightarrow> device_serial n' = device_serial n \<and> port_num n' = port_num n \<and> agent_invoke_thread n' \<noteq> NotStarted
     \<and> (case r of Inl e \<Rightarrow> is_exception e
        | Inr _ \<Rightarrow> nan_connection n' \<noteq> None \<and> (\<exists>l. nan_instance n' = Some l \<and> l \<in> set drive_letters))"

lemma started_failed:
  "\<lbrakk>device_serial n' = device_serial n; port_num n' = port_num n; agent_invoke_thread n' \<noteq> NotStarted; is_exception e\<rbrakk>
    \<Longrightarrow> started n (Inl e) n'"
  by (simp add: started_def)

text \<open>
  A host on which an object can be taken down: adb commands come back, with or without an
  exception, and the daemon's thread ends while it is being joined.
\<close>

locale closing_host =
  fixes H :: "('p, 'k, 's, 'a) host"
  assumes adb_comes_back: "wp (invoke_adb_with_serial (adb_api H) serial args) (\<lambda>r _. \<forall>e. r = Inl e \<longrightarrow> is_exception e) p"
    and agent_ends: "AgentExit \<in> set (fst (agent_progress H JoinWait dev k))"
begin

lemma wp_adb_any:
  assumes "\<And>p. Q (Inr ()) (s\<lparr>process := p\<rparr>)" and "\<And>e p. is_exception e \<Longrightarrow> Q (Inl e) (s\<lparr>process := p\<rparr>)"
  shows "wp (adb_on_device H args) Q s"
  by (auto simp: adb_on_device_def assms split: sum.split intro!: wp_mono [OF adb_comes_back])

lemma delete_returns:
  assumes "agent_invoke_thread (this s) \<noteq> NotStarted"
  shows "wp (Nandroid_delete H) (\<lambda>r _. r = Inr ()) s"
proof -
  have thread: "agent_invoke_thread (fold agent_acts es n) \<noteq> NotStarted" if "agent_invoke_thread n \<noteq> NotStarted" for es and n :: "'s Nandroid"
    using that fixed_part_outputs [of "agent_pieces es" n]
    by (cases "agent_invoke_thread n = Running") (auto simp: agent_acts_run agent_acts_stopped agent_exited_def fixed_part_def)
  have ends: "agent_invoke_thread (fold agent_acts es n) = Finished" if "agent_invoke_thread n \<noteq> NotStarted" "AgentExit \<in> set es" for es and n :: "'s Nandroid"
    using that by (cases "agent_invoke_thread n") (auto simp: agent_acts_run agent_acts_stopped agent_exited_def)
  have join: "wp (join_agent H) (\<lambda>r _. r = Inr ()) t" if "agent_invoke_thread (this t) \<noteq> NotStarted" for t
    using that agent_ends [of "device_serial (this t)" "outside (process t)"] ends
    by (auto simp: join_agent_def split: prod.split)
  show ?thesis
    using assms thread
    by (auto simp: Nandroid_delete_def split: prod.split option.split intro!: join wp_adb_any)
qed

end

text \<open>
  A host on which the other calls come back too: adb commands succeed, the daemon's thread
  either reports the daemon ready or ends, and connecting returns.
\<close>

locale responsive_host = closing_host H
  for H :: "('p, 'k, 's, 'a) host" +
  assumes agent_path: "get_abs_path_from_rel_to_exe (adb_api H) AGENT_REL_PATH \<noteq> None"
    and adb_returns: "wp (invoke_adb_with_serial (adb_api H) serial args) (\<lambda>r _. \<exists>out. r = Inr out) p"
    and agent_wakes: "agent_progress H ReadyWait dev k = (events, k') \<Longrightarrow>
      AgentExit \<in> set events \<or> announces_ready (concat (agent_pieces events))"
    and connecting_returns: "\<exists>res k'. Connection_new (sockets H) (host_conn_env H) ''localhost'' port k = Some (res, k')
      \<and> (\<forall>e. res = Inl e \<longrightarrow> is_exception e)"
begin

lemma wp_adb_on_device: "(\<And>p. Q (Inr ()) (s\<lparr>process := p\<rparr>)) \<Longrightarrow> wp (adb_on_device H args) Q s"
  by (auto simp: adb_on_device_def intro: wp_mono [OF adb_returns])

lemma wp_launch_agent:
  assumes "\<And>p. Q (Inr ()) (s\<lparr>process := p, this := (this s)\<lparr>agent_invoke_thread := Running\<rparr>\<rparr>)"
  shows "wp (launch_agent H) Q s"
  using agent_path assms by (auto simp: launch_agent_def intro!: wp_adb_on_device)

lemma wp_await_agent:
  assumes "agent_output_buffer (this s) = []" and "ready_flags (this s) = (False, False)" and "agent_invoke_thread (this s) = Running"
    and "\<And>n p. fixed_part n = fixed_part (this s) \<Longrightarrow> Q (Inr ()) (s\<lparr>process := p, this := n\<rparr>)"
    and "\<And>n p e. \<lbrakk>device_serial n = device_serial (this s); port_num n = port_num (this s); agent_invoke_thread n = Finished; is_exception e\<rbrakk>
      \<Longrightarrow> Q (Inl e) (s\<lparr>process := p, this := n\<rparr>)"
  shows "wp (await_agent H) Q s"
proof -
  obtain es k where pr: "agent_progress H ReadyWait (device_serial (this s)) (outside (process s)) = (es, k)" by fastforce
  let ?m = "fold handle_daemon_output (agent_pieces es) (this s)"
  have kept: "fixed_part ?m = fixed_part (this s)" by (rule fixed_part_outputs)
  have flags: "agent_ready ?m = announces_ready (concat (agent_pieces es))" "agent_ready_notified ?m = agent_ready ?m"
    using ready_after_output [OF assms(1,2)] by (auto simp: ready_flags_def)
  show ?thesis
  proof (cases "AgentExit \<in> set es")
    case True
    with kept show ?thesis
      by (auto simp: await_agent_def pr agent_acts_run [OF assms(3)] agent_exited_def fixed_part_def is_exception_def intro!: assms(5))
  next
    case False
    with agent_wakes [OF pr] kept show ?thesis
      by (auto simp: await_agent_def pr agent_acts_run [OF assms(3)] flags fixed_part_def intro!: assms(4))
  qed
qed

lemma begin_started:
  assumes "agent_output_buffer (this s) = []" and "ready_flags (this s) = (False, False)"
  shows "wp (Nandroid_begin H) (\<lambda>r s'. started (this s) r (this s')) s"
proof -
  have mount: "wp (mount_filesystem H) (\<lambda>r s'. started n r (this s')) t"
    if "fixed_part m = fixed_part (n\<lparr>agent_invoke_thread := Running\<rparr>)" "this t = m\<lparr>nan_connection := Some c\<rparr>" for m n t c
    using that mount_loop_result [of H "outside (process t)"]
    by (auto simp: mount_filesystem_def started_def fixed_part_def split: prod.splits sum.splits)
  have connect: "wp (connect_to_agent H) (\<lambda>r s'. case r of Inl e \<Rightarrow> started n (Inl e) (this s')
      | Inr _ \<Rightarrow> wp (mount_filesystem H) (\<lambda>r s'. started n r (this s')) s') t"
    if "fixed_part (this t) = fixed_part (n\<lparr>agent_invoke_thread := Running\<rparr>)" for n t
  proof -
    obtain res k where cn: "Connection_new (sockets H) (host_conn_env H) ''localhost'' (port_num (this t)) (outside (process t)) = Some (res, k)"
      and "\<forall>e. res = Inl e \<longrightarrow> is_exception e" using connecting_returns by blast
    moreover have "started n (Inl e) (this t)" if "is_exception e" for e
      using that \<open>fixed_part (this t) = _\<close> by (auto simp: started_def fixed_part_def)
    ultimately show ?thesis
      by (cases res) (auto simp: wp_connect_to_agent intro!: mount [OF \<open>fixed_part (this t) = _\<close>])
  qed
  have "wp (await_agent H) (\<lambda>r s'. case r of Inl e \<Rightarrow> started (this s) (Inl e) (this s')
      | Inr _ \<Rightarrow> wp (thenM (connect_to_agent H) (mount_filesystem H)) (\<lambda>r s'. started (this s) r (this s')) s') t"
    if "this t = (this s)\<lparr>agent_invoke_thread := Running\<rparr>" for t
    using assms that by (intro wp_await_agent) (auto simp: ready_flags_def started_failed connect)
  then show ?thesis
    unfolding Nandroid_begin_def wp_thenM [of "launch_agent H"] wp_thenM [of "await_agent H"]
    by (intro wp_launch_agent) simp
qed

end

subsection \<open>A host for examples\<close>

text \<open>
  The drive letter \<open>D\<close> is taken; the daemon announces itself, answers the handshake, and ends
  when its connection is closed. \<open>ready\<close> is the text it prints first.
\<close>

definition ex_host :: "string \<Rightarrow> (unit, string list, sock, unit) host" where
  "ex_host ready = \<lparr>adb_api = ex_adb (Some (wide ''C:/nandroidfs/nandroidfs.exe'')),
     sockets = \<lparr>wsa_startup = (\<lambda>k. (0, k)), wsa_cleanup = id, getaddrinfo = (\<lambda>a p k. (Inr [()], k)),
       new_socket = (\<lambda>a k. (Inr (ex_sock [0xFA, 0xFE, 0x5A, 0xBE]), k)), connect = (\<lambda>t a k. ((True, t), k)),
       closesocket = (\<lambda>t k. (t, k))\<rparr>,
     host_conn_env = ex_env,
     dokan_create = (\<lambda>letter k. (if letter = 0x44 then DOKAN_MOUNT_ERROR else DOKAN_SUCCESS, k)),
     dokan_close = (\<lambda>_ k. k),
     agent_progress = (\<lambda>w serial k. (case w of
        ReadyWait \<Rightarrow> if announces_ready ready then [AgentOutput ready] else [AgentOutput ready, AgentExit]
      | DeadWait \<Rightarrow> [] | JoinWait \<Rightarrow> [AgentExit], k))\<rparr>"

lemma ex_connection:
  "\<exists>c. Connection_new (sockets (ex_host ready)) (host_conn_env (ex_host ready)) ''localhost'' port k = Some (Inr c, k)"
proof -
  let ?t = "ex_sock [0xFA, 0xFE, 0x5A, 0xBE]"
  have b: "be_bytes 4 HANDSHAKE_DATA = [0xFA, 0xFE, 0x5A, 0xBE]" by code_simp
  have "wp (handshake ex_env) (\<lambda>r s'. r = Inr ()) (Connection_init ex_env ?t)"
    using client.handshake_spec [OF client.intro [OF ex_win], of "Connection_init ex_env ?t" HANDSHAKE_DATA "[]"]
    by (auto simp: b elim!: wp_mono)
  then show ?thesis
    by (auto simp: ex_host_def Connection_new_def connect_any_def wp_iff)
qed

interpretation ex_host: responsive_host "ex_host ready"
  for ready
proof unfold_locales
  fix serial args p
  show "wp (invoke_adb_with_serial (adb_api (ex_host ready)) serial args) (\<lambda>r _. \<exists>out. r = Inr out) p"
    "wp (invoke_adb_with_serial (adb_api (ex_host ready)) serial args) (\<lambda>r _. \<forall>e. r = Inl e \<longrightarrow> is_exception e) p"
    using ex_machine.wp_invoke_adb_with_serial [of "Some (wide ''C:/nandroidfs/nandroidfs.exe'')" serial args p]
    by (auto simp: ex_host_def elim!: wp_mono)
next
  fix port k
  show "\<exists>res k'. Connection_new (sockets (ex_host ready)) (host_conn_env (ex_host ready)) ''localhost'' port k = Some (res, k')
      \<and> (\<forall>e. res = Inl e \<longrightarrow> is_exception e)"
    using ex_connection [of ready port k] by auto
qed (auto simp: ex_host_def get_abs_path_from_rel_to_exe_def get_exe_path_def ex_adb_def split: if_splits)

definition ex_process :: "string list adb_state" where
  "ex_process = \<lparr>adb_invoke_path = None, captured = [], outside = []\<rparr>"

theorem await_agent_outcome_witness:
  "wp (await_agent (ex_host (AGENT_READY_MSG @ [newline]))) (\<lambda>r s'. r = Inr ()) \<lparr>this = ex_device\<lparr>agent_invoke_thread := Running\<rparr>, process = ex_process\<rparr>
   \<and> wp (await_agent (ex_host ''no route'')) (\<lambda>r s'. r = Inl (RuntimeError ''Agent failed to start up''))
       \<lparr>this = ex_device\<lparr>agent_invoke_thread := Running\<rparr>, process = ex_process\<rparr>"
proof -
  have "announces_ready (AGENT_READY_MSG @ [newline])" "\<not> announces_ready ''no route''"
    by (simp_all add: announces_ready_def AGENT_READY_MSG_def starts_with_def)
  then have "agent_progress (ex_host (AGENT_READY_MSG @ [newline])) ReadyWait ''R5'' (outside ex_process) = ([AgentOutput (AGENT_READY_MSG @ [newline])], [])"
    "agent_progress (ex_host ''no route'') ReadyWait ''R5'' (outside ex_process) = ([AgentOutput ''no route'', AgentExit], [])"
    by (simp_all add: ex_host_def ex_process_def)
  from this [THEN await_agent_outcome [OF ex_device_new]] \<open>announces_ready _\<close> show ?thesis
    by (auto simp: Let_def elim!: wp_mono)
qed

theorem mount_filesystem_letters_witness:
  "0x45 \<in> set drive_letters \<and>
   wp (mount_filesystem (ex_host [])) (\<lambda>r s'. r = Inr () \<and> nan_instance (this s') = Some 0x45) \<lparr>this = ex_device, process = ex_process\<rparr>"
proof -
  have "try_letters (ex_host []) drive_letters (outside (process \<lparr>this = ex_device, process = ex_process\<rparr>)) = (DOKAN_SUCCESS, Some 0x45, [])"
    by (simp add: ex_host_def ex_process_def drive_letters_def upt_rec)
  with mount_filesystem_letters [of "ex_host []" "\<lparr>this = ex_device, process = ex_process\<rparr>"] show ?thesis
    by (auto elim!: wp_mono)
qed

text \<open>
  C16: the life of a device object on a responsive host: \<open>begin\<close> always returns; when it returns
  normally there is a connection and the drive is mounted on one of the letters \<open>D\<close> to \<open>Z\<close>,
  and when it throws after the daemon's thread was started the object can still be destroyed:
  in both cases the destructor returns.
\<close>

theorem Nandroid_lifecycle:
  assumes "responsive_host H" and "Nandroid_new u serial port = Inr n"
  shows "wp (Nandroid_begin H) (\<lambda>r s'. (case r of
        Inl e \<Rightarrow> is_exception e
      | Inr _ \<Rightarrow> nan_connection (this s') \<noteq> None \<and> (\<exists>l. nan_instance (this s') = Some l \<and> l \<in> set drive_letters))
    \<and> wp (Nandroid_delete H) (\<lambda>r' _. r' = Inr ()) s') \<lparr>this = n, process = p\<rparr>"
  using responsive_host.begin_started [OF assms(1), of "\<lparr>this = n, process = p\<rparr>"] Nandroid_new_fields [OF assms(2)]
  by (auto simp: started_def elim!: wp_mono intro: closing_host.delete_returns [OF responsive_host.axioms(1), OF assms(1)])

theorem Nandroid_lifecycle_witness:
  "wp (Nandroid_begin (ex_host (AGENT_READY_MSG @ [newline]))) (\<lambda>r s'.
      wp (Nandroid_delete (ex_host (AGENT_READY_MSG @ [newline]))) (\<lambda>r' _. r' = Inr ()) s') \<lparr>this = ex_device, process = ex_process\<rparr>"
  using Nandroid_lifecycle [OF ex_host.responsive_host_axioms ex_device_new, of "AGENT_READY_MSG @ [newline]" ex_process]
  by (auto elim!: wp_mono)

end
