(* ===== verification/Device_Tracker.thy ===== *)
theory Device_Tracker
  imports Nandroid "HOL-Library.AList" "HOL-Library.Multiset"
begin

text \<open>
  \<open>nandroidfs/DeviceTracker.cpp\<close>: the devices that adb lists, and the \<open>Nandroid\<close> object of each
  device that is mounted. Every operation holds \<open>device_man_mtx\<close> and is one step. The order in
  which a hash table is traversed is a parameter (\<open>bucket_order\<close>, a permutation of its keys). The objects live on
  the heap (\<open>objects\<close>, by address) and \<open>instances\<close> holds their addresses, as the pointers of the source; an address
  is never used again after its object was deleted, and using a deleted object is undefined behaviour.
\<close>

section \<open>State\<close>

record ('s, 'k) DeviceTracker =
  current_port :: u16
  instances :: "(string \<times> nat) list"
  objects :: "nat \<rightharpoonup> 's Nandroid"
  next_object :: nat
  failed_to_connect :: "string list"
  tracker_process :: "'k adb_state"

type_synonym bucket_order = "string list \<Rightarrow> string list"

definition DeviceTracker_new :: "'k adb_state \<Rightarrow> ('s, 'k) DeviceTracker" where
  "DeviceTracker_new p = \<lparr>current_port = 25989, instances = [], objects = Map.empty, next_object = 0, failed_to_connect = [], tracker_process = p\<rparr>"

section \<open>The device list\<close>

text \<open>One iteration of the loop over the lines of \<open>adb devices\<close>.\<close>

definition device_line :: "string \<Rightarrow> nat \<Rightarrow> nat \<Rightarrow> string list \<Rightarrow> string list" where
  "device_line output start nl devices_serial =
     (let line = pop_back_if (CHR 0x0D) (take (nl - start) (drop start output)) in
      if line = ''List of devices attached'' \<or> line = [] then devices_serial
      else (case find_from (CHR 0x09) 0 line of
              None \<Rightarrow> devices_serial
            | Some tab_idx \<Rightarrow>
                (let serial_no = take tab_idx line; status = drop (tab_idx + 1) line in
                 if status = ''device'' then List.insert serial_no devices_serial else devices_serial)))"

definition parse_devices :: "string \<Rightarrow> string list" where
  "parse_devices output = snd (line_loop (device_line output) output 0 [])"

definition list_authorized_adb_devices :: "('p, 'k, 's, 'a) host \<Rightarrow> ('k adb_state, string list) M" where
  "list_authorized_adb_devices H =
     bindM (invoke_adb (adb_api H) (wide ''devices'')) (\<lambda>output. returnM (parse_devices output))"

section \<open>Operations\<close>

definition processM :: "('k adb_state, 'a) M \<Rightarrow> (('s, 'k) DeviceTracker, 'a) M" where
  "processM m = (\<lambda>t. case m (tracker_process t) of None \<Rightarrow> None | Some (r, p) \<Rightarrow> Some (r, t\<lparr>tracker_process := p\<rparr>))"

text \<open>A method called through a pointer.\<close>

definition on_object :: "(('s, 'k) method_state, 'a) M \<Rightarrow> nat \<Rightarrow> (('s, 'k) DeviceTracker, 'a) M" where
  "on_object m a = (\<lambda>t.
     case objects t a of
       None \<Rightarrow> Some (Inl UndefinedBehaviour, t)
     | Some obj \<Rightarrow>
         (case m \<lparr>this = obj, process = tracker_process t\<rparr> of
            None \<Rightarrow> None
          | Some (r, s) \<Rightarrow> Some (r, t\<lparr>objects := (objects t)(a \<mapsto> this s), tracker_process := process s\<rparr>)))"

definition delete_object :: "('p, 'k, 's, 'a) host \<Rightarrow> nat \<Rightarrow> (('s, 'k) DeviceTracker, unit) M" where
  "delete_object H a = thenM (on_object (Nandroid_delete H) a) (modifyM (\<lambda>t. t\<lparr>objects := (objects t)(a := None)\<rparr>))"

definition new_object :: "'s Nandroid \<Rightarrow> (('s, 'k) DeviceTracker, nat) M" where
  "new_object obj =
     bindM (getM next_object) (\<lambda>a.
     thenM (modifyM (\<lambda>t. t\<lparr>objects := (objects t)(a \<mapsto> obj), next_object := Suc a\<rparr>)) (returnM a))"

definition connect_to_device_internal ::
  "('p, 'k, 's, 'a) host \<Rightarrow> string \<Rightarrow> (('s, 'k) DeviceTracker, nat) M" where
  "connect_to_device_internal H serial =
     bindM (getM current_port) (\<lambda>port.
       case Nandroid_new (from_utf8 (host_conn_env H)) serial port of
         Inl e \<Rightarrow> throwM e
       | Inr obj \<Rightarrow>
           bindM (new_object obj) (\<lambda>inst.
           thenM (modifyM (\<lambda>t. t\<lparr>current_port := current_port t + 1\<rparr>))
          (thenM (catchM (thenM (on_object (Nandroid_begin H) inst)
                                (modifyM (\<lambda>t. t\<lparr>instances := AList.update serial inst (instances t)\<rparr>)))
                         (\<lambda>e. if is_exception e then thenM (delete_object H inst) (throwM e) else throwM e))
                 (returnM inst))))"

definition connect_to_device :: "('p, 'k, 's, 'a) host \<Rightarrow> string \<Rightarrow> (('s, 'k) DeviceTracker, nat) M" where
  "connect_to_device H serial = connect_to_device_internal H serial"

text \<open>The serial number is read through the pointer.\<close>

definition unmount_device :: "('p, 'k, 's, 'a) host \<Rightarrow> nat \<Rightarrow> (('s, 'k) DeviceTracker, unit) M" where
  "unmount_device H handle =
     bindM (on_object (getM (\<lambda>s. device_serial (this s))) handle) (\<lambda>serial.
     thenM (modifyM (\<lambda>t. t\<lparr>instances := AList.delete serial (instances t)\<rparr>))
           (delete_object H handle))"

fun connect_new_devices :: "('p, 'k, 's, 'a) host \<Rightarrow> string list \<Rightarrow> (('s, 'k) DeviceTracker, unit) M" where
  "connect_new_devices H [] = returnM ()"
| "connect_new_devices H (serial # devices) =
     thenM (bindM (getM (\<lambda>t. serial \<in> fst ` set (instances t) \<or> serial \<in> set (failed_to_connect t))) (\<lambda>known.
              if known then returnM ()
              else catchM (thenM (connect_to_device_internal H serial) (returnM ()))
                     (\<lambda>e. if is_exception e
                          then modifyM (\<lambda>t. t\<lparr>failed_to_connect := List.insert serial (failed_to_connect t)\<rparr>)
                          else throwM e)))
           (connect_new_devices H devices)"

text \<open>\<open>delete instances[serial]\<close>; for a missing key this deletes a null pointer.\<close>

definition delete_at :: "('p, 'k, 's, 'a) host \<Rightarrow> string \<Rightarrow> (('s, 'k) DeviceTracker, unit) M" where
  "delete_at H serial =
     bindM (getM (\<lambda>t. map_of (instances t) serial)) (\<lambda>inst.
       case inst of None \<Rightarrow> returnM () | Some a \<Rightarrow> delete_object H a)"

fun remove_devices :: "('p, 'k, 's, 'a) host \<Rightarrow> string list \<Rightarrow> (('s, 'k) DeviceTracker, unit) M" where
  "remove_devices H [] = returnM ()"
| "remove_devices H (serial # to_remove) =
     thenM (delete_at H serial)
    (thenM (modifyM (\<lambda>t. t\<lparr>instances := AList.delete serial (instances t)\<rparr>))
           (remove_devices H to_remove))"

definition update_connected_devices :: "bucket_order \<Rightarrow> ('p, 'k, 's, 'a) host \<Rightarrow> (('s, 'k) DeviceTracker, unit) M" where
  "update_connected_devices order H =
     bindM (processM (list_authorized_adb_devices H)) (\<lambda>devices.
     thenM (connect_new_devices H (order devices))
    (bindM (getM (\<lambda>t. filter (\<lambda>serial. serial \<notin> set devices) (order (map fst (instances t))))) (\<lambda>to_remove.
     remove_devices H to_remove)))"

fun delete_all :: "('p, 'k, 's, 'a) host \<Rightarrow> string list \<Rightarrow> (('s, 'k) DeviceTracker, unit) M" where
  "delete_all H [] = returnM ()"
| "delete_all H (serial # serials) =
     thenM (delete_at H serial)
           (delete_all H serials)"

definition DeviceTracker_delete :: "bucket_order \<Rightarrow> ('p, 'k, 's, 'a) host \<Rightarrow> (('s, 'k) DeviceTracker, unit) M" where
  "DeviceTracker_delete order H = bindM (getM (\<lambda>t. order (map fst (instances t)))) (delete_all H)"

section \<open>Lemmas\<close>

lemma wp_processM [simp]: "wp (processM m) Q t \<longleftrightarrow> wp m (\<lambda>r p. Q r (t\<lparr>tracker_process := p\<rparr>)) (tracker_process t)"
  by (auto simp: wp_def processM_def split: option.split)

lemma wp_on_object:
  "objects t a = Some obj \<Longrightarrow> wp (on_object m a) Q t \<longleftrightarrow>
     wp m (\<lambda>r s. Q r (t\<lparr>objects := (objects t)(a \<mapsto> this s), tracker_process := process s\<rparr>)) \<lparr>this = obj, process = tracker_process t\<rparr>"
  by (auto simp: wp_def on_object_def split: option.split)

lemma wp_on_dead_object: "objects t a = None \<Longrightarrow> wp (on_object m a) Q t \<longleftrightarrow> Q (Inl UndefinedBehaviour) t"
  by (simp add: wp_def on_object_def)

lemma wp_new_object [simp]:
  "wp (new_object obj) Q t \<longleftrightarrow>
     Q (Inr (next_object t)) (t\<lparr>objects := (objects t)(next_object t \<mapsto> obj), next_object := Suc (next_object t)\<rparr>)"
  by (simp add: new_object_def)

subsection \<open>The device list\<close>

abbreviation tab :: char where
  "tab \<equiv> CHR 0x09"

text \<open>The serial number that a line of the list names as authorised.\<close>

definition device_of :: "string \<Rightarrow> string option" where
  "device_of line =
     (let l = pop_back_if (CHR 0x0D) line in
      if l = ''List of devices attached'' \<or> l = [] then None
      else (case find_from tab 0 l of
              None \<Rightarrow> None
            | Some i \<Rightarrow> if drop (i + 1) l = ''device'' then Some (take i l) else None))"

lemma first_split_unique: "\<lbrakk>c \<notin> set l; c \<notin> set l'\<rbrakk> \<Longrightarrow> l @ c # r = l' @ c # r' \<longleftrightarrow> l = l' \<and> r = r'"
proof (induction l arbitrary: l')
  case Nil
  then show ?case by (cases l') auto
next
  case (Cons x l)
  then show ?case by (cases l') auto
qed

lemma device_of_iff: "device_of line = Some serial \<longleftrightarrow> pop_back_if (CHR 0x0D) line = serial @ tab # ''device'' \<and> tab \<notin> set serial"
proof (cases "tab \<in> set (pop_back_if (CHR 0x0D) line)")
  case False
  then show ?thesis using find_from_none [of tab 0] by (auto simp: device_of_def Let_def)
next
  case True
  from split_list_first [OF this] obtain l r where lr: "pop_back_if (CHR 0x0D) line = l @ tab # r" "tab \<notin> set l" by auto
  then have "find_from tab 0 (l @ tab # r) = Some (length l)" using find_from_line [of 0 "l @ tab # r" l tab r] by simp
  moreover have "l @ tab # r \<noteq> ''List of devices attached''"
  proof
    assume "l @ tab # r = ''List of devices attached''"
    then have "tab \<in> set ''List of devices attached''" by (metis in_set_conv_decomp)
    then show False by simp
  qed
  moreover have "l @ tab # r = serial @ tab # ''device'' \<and> tab \<notin> set serial \<longleftrightarrow> l = serial \<and> r = ''device''"
    using lr(2) first_split_unique [of tab l serial r "''device''"] by auto
  ultimately show ?thesis using lr by (auto simp: device_of_def Let_def)
qed

definition add_device :: "string \<Rightarrow> string list \<Rightarrow> string list" where
  "add_device line devices = (case device_of line of None \<Rightarrow> devices | Some serial \<Rightarrow> List.insert serial devices)"

lemma parse_devices_fold: "parse_devices text = fold add_device (fst (split_lines text)) []"
proof -
  have "device_line text start (start + length l) devices = add_device l devices" if "drop start text = l @ newline # t" for start l t devices
    using that by (auto simp: device_line_def add_device_def device_of_def Let_def split: option.split)
  then have "id (snd (line_loop (device_line text) text 0 [])) = fold add_device (fst (split_lines (drop 0 text))) (id [])"
    by (intro line_loop_lines [THEN conjunct1]) simp
  then show ?thesis by (simp add: parse_devices_def)
qed

lemma fold_add_device:
  "set (fold add_device ls ds) = set ds \<union> {serial. \<exists>line \<in> set ls. device_of line = Some serial}"
  "distinct ds \<Longrightarrow> distinct (fold add_device ls ds)"
  by (induction ls arbitrary: ds) (auto simp: add_device_def split: option.splits)

text \<open>
  C18: the devices found in the output of \<open>adb devices\<close> are exactly the serial numbers of the
  complete lines that consist of the serial number, a tab and the word \<open>device\<close>, with or
  without a carriage return; each once.
\<close>

theorem authorized_devices:
  "distinct (parse_devices text) \<and>
   (serial \<in> set (parse_devices text) \<longleftrightarrow>
      tab \<notin> set serial \<and> (\<exists>line \<in> set (fst (split_lines text)). pop_back_if (CHR 0x0D) line = serial @ tab # ''device''))"
  by (auto simp: parse_devices_fold fold_add_device device_of_iff)

theorem authorized_devices_witness:
  "parse_devices (concat ex_listing) = [''R5'']
   \<and> tab \<notin> set ''R5'' \<and> (\<exists>line \<in> set (fst (split_lines (concat ex_listing))). pop_back_if (CHR 0x0D) line = ''R5'' @ tab # ''device'')"
proof -
  have "parse_devices (concat ex_listing) = [''R5'']" by code_simp
  with authorized_devices [of "concat ex_listing" "''R5''"] show ?thesis by simp
qed

subsection \<open>Connecting and disconnecting\<close>

text \<open>
  The invariant of the tracker: the table has one pointer per serial number, to an object for that number with
  its daemon's thread, connection and mounted drive; there are no other objects on the heap; and no device
  is both mounted and given up.
\<close>

definition live :: "string \<Rightarrow> 's Nandroid \<Rightarrow> bool" where
  "live serial obj \<longleftrightarrow> device_serial obj = serial \<and> agent_invoke_thread obj \<noteq> NotStarted \<and> nan_connection obj \<noteq> None \<and> nan_instance obj \<noteq> None"

definition mounted_devices :: "('s, 'k) DeviceTracker \<Rightarrow> string set" where
  "mounted_devices t = fst ` set (instances t)"

definition given_up :: "('s, 'k) DeviceTracker \<Rightarrow> string set" where
  "given_up t = set (failed_to_connect t)"

text \<open>The object that a device is served by.\<close>

definition device_object :: "('s, 'k) DeviceTracker \<Rightarrow> string \<Rightarrow> 's Nandroid option" where
  "device_object t serial = Option.bind (map_of (instances t) serial) (objects t)"

definition tracker_inv :: "('s, 'k) DeviceTracker \<Rightarrow> bool" where
  "tracker_inv t \<longleftrightarrow> distinct (map fst (instances t))
     \<and> (\<forall>(serial, a) \<in> set (instances t). \<exists>obj. objects t a = Some obj \<and> live serial obj)
     \<and> dom (objects t) = snd ` set (instances t) \<and> (\<forall>a \<in> dom (objects t). a < next_object t)
     \<and> mounted_devices t \<inter> given_up t = {}"

lemma tracker_inv_new: "tracker_inv (DeviceTracker_new p)"
  by (simp add: tracker_inv_def DeviceTracker_new_def mounted_devices_def given_up_def)

lemma tracker_inv_process [simp]:
  "tracker_inv (t\<lparr>tracker_process := p\<rparr>) = tracker_inv t"
  "mounted_devices (t\<lparr>tracker_process := p\<rparr>) = mounted_devices t"
  "given_up (t\<lparr>tracker_process := p\<rparr>) = given_up t"
  "device_object (t\<lparr>tracker_process := p\<rparr>) = device_object t"
  by (simp_all add: tracker_inv_def mounted_devices_def given_up_def device_object_def fun_eq_iff)

lemma tracker_inv_entry:
  assumes "tracker_inv t" and "map_of (instances t) serial = Some a"
  obtains obj where "objects t a = Some obj" and "live serial obj" and "device_object t serial = Some obj"
  using assms by (auto simp: tracker_inv_def device_object_def dest!: map_of_SomeD)

lemma tracker_inv_object:
  assumes "tracker_inv t" and "objects t a = Some obj"
  shows "map_of (instances t) (device_serial obj) = Some a" and "live (device_serial obj) obj"
proof -
  from assms obtain serial where "(serial, a) \<in> set (instances t)" by (force simp: tracker_inv_def dom_def)
  moreover from this assms have "live serial obj" by (auto simp: tracker_inv_def)
  ultimately show "map_of (instances t) (device_serial obj) = Some a" "live (device_serial obj) obj"
    using assms(1) by (auto simp: live_def tracker_inv_def)
qed

lemma update_new: "serial \<notin> fst ` set al \<Longrightarrow> AList.update serial a al = al @ [(serial, a)]"
  by (induction al) auto

lemma tracker_inv_add:
  assumes "tracker_inv t" and "serial \<notin> mounted_devices t" and "serial \<notin> given_up t" and "live serial obj"
    and "instances t' = AList.update serial (next_object t) (instances t)" and "objects t' = (objects t)(next_object t \<mapsto> obj)"
    and "next_object t' = Suc (next_object t)" and "failed_to_connect t' = failed_to_connect t"
  shows "tracker_inv t'" and "mounted_devices t' = insert serial (mounted_devices t)"
    and "\<And>other. other \<in> mounted_devices t \<Longrightarrow> map_of (instances t') other = map_of (instances t) other \<and> device_object t' other = device_object t other"
proof -
  from assms have fresh: "objects t (next_object t) = None" by (auto simp: tracker_inv_def dom_def)
  have i: "instances t' = instances t @ [(serial, next_object t)]" using assms(2,5) by (simp add: update_new mounted_devices_def)
  then show mounted: "mounted_devices t' = insert serial (mounted_devices t)" by (auto simp: mounted_devices_def)
  show "tracker_inv t'"
    unfolding tracker_inv_def mounted given_up_def assms(8)
    using assms(1-4) fresh i assms(6,7) by (auto simp: tracker_inv_def mounted_devices_def given_up_def less_Suc_eq)
  fix other
  assume "other \<in> mounted_devices t"
  then obtain a where a: "map_of (instances t) other = Some a" by (force simp: mounted_devices_def map_of_eq_None_iff)
  with assms(1) fresh have "a \<noteq> next_object t" by (auto elim: tracker_inv_entry)
  then show "map_of (instances t') other = map_of (instances t) other \<and> device_object t' other = device_object t other"
    using a i assms(6) by (auto simp: device_object_def map_add_def)
qed

lemma tracker_inv_remove:
  assumes "tracker_inv t" and "map_of (instances t) serial = Some a"
    and "instances t' = AList.delete serial (instances t)" and "objects t' = (objects t)(a := None)"
    and "next_object t' = next_object t" and "failed_to_connect t' = failed_to_connect t"
  shows "tracker_inv t'" and "mounted_devices t' = mounted_devices t - {serial}"
    and "\<And>other. other \<noteq> serial \<Longrightarrow> map_of (instances t') other = map_of (instances t) other \<and> device_object t' other = device_object t other"
proof -
  show mounted: "mounted_devices t' = mounted_devices t - {serial}"
    using assms(3) by (auto simp: mounted_devices_def AList.delete_eq)
  have only: "b \<noteq> a" if "(other, b) \<in> set (instances t)" "other \<noteq> serial" for other b
  proof
    assume "b = a"
    from assms(1,2) obtain obj where "objects t a = Some obj" "live serial obj" by (rule tracker_inv_entry)
    moreover from this that assms(1) \<open>b = a\<close> have "live other obj" by (auto simp: tracker_inv_def)
    ultimately show False using that(2) by (simp add: live_def)
  qed
  have dom: "snd ` set (AList.delete serial (instances t)) = snd ` set (instances t) - {a}"
  proof -
    have "(serial, b) \<in> set (instances t) \<Longrightarrow> b = a" for b using assms(1,2) by (auto simp: tracker_inv_def)
    with only show ?thesis by (force simp: AList.delete_eq)
  qed
  show "tracker_inv t'"
    unfolding tracker_inv_def mounted given_up_def assms(6)
    using assms(1) dom only by (auto simp: tracker_inv_def assms(3-5) given_up_def AList.delete_eq intro: distinct_map_filter)
  fix other
  assume "other \<noteq> serial"
  with only show "map_of (instances t') other = map_of (instances t) other \<and> device_object t' other = device_object t other"
    by (auto simp: device_object_def assms(3,4) AList.delete_conv' dest: map_of_SomeD split: bind_split)
qed

text \<open>
  What a scan may do to the tracker while it goes through \<open>devices\<close>, and while it removes them.
\<close>

definition same_entry :: "string \<Rightarrow> ('s, 'k) DeviceTracker \<Rightarrow> ('s, 'k) DeviceTracker \<Rightarrow> bool" where
  "same_entry serial t t' \<longleftrightarrow> map_of (instances t') serial = map_of (instances t) serial \<and> device_object t' serial = device_object t serial"

definition grows :: "string set \<Rightarrow> ('s, 'k) DeviceTracker \<Rightarrow> ('s, 'k) DeviceTracker \<Rightarrow> bool" where
  "grows devices t t' \<longleftrightarrow> tracker_inv t' \<and> mounted_devices t \<subseteq> mounted_devices t' \<and> given_up t \<subseteq> given_up t'
     \<and> mounted_devices t' \<union> given_up t' = mounted_devices t \<union> given_up t \<union> devices
     \<and> (\<forall>serial \<in> mounted_devices t. same_entry serial t t')"

definition shrinks :: "string set \<Rightarrow> ('s, 'k) DeviceTracker \<Rightarrow> ('s, 'k) DeviceTracker \<Rightarrow> bool" where
  "shrinks gone t t' \<longleftrightarrow> tracker_inv t' \<and> mounted_devices t' = mounted_devices t - gone \<and> given_up t' = given_up t
     \<and> (\<forall>serial. serial \<notin> gone \<longrightarrow> same_entry serial t t')"

lemma grows_trans: "grows A t t' \<Longrightarrow> grows B t' t'' \<Longrightarrow> grows (A \<union> B) t t''"
  unfolding grows_def by (auto simp: subset_iff same_entry_def)

lemma shrinks_trans: "shrinks A t t' \<Longrightarrow> shrinks B t' t'' \<Longrightarrow> shrinks (A \<union> B) t t''"
  unfolding shrinks_def by (auto simp: same_entry_def)

text \<open>After a scan, exactly the listed devices that did not fail are mounted.\<close>

definition scanned :: "string set \<Rightarrow> ('s, 'k) DeviceTracker \<Rightarrow> ('s, 'k) DeviceTracker \<Rightarrow> bool" where
  "scanned devices t t' \<longleftrightarrow> tracker_inv t' \<and> mounted_devices t' \<subseteq> devices \<and> devices \<subseteq> mounted_devices t' \<union> given_up t'
     \<and> given_up t \<subseteq> given_up t'
     \<and> (\<forall>serial \<in> mounted_devices t \<inter> devices. same_entry serial t t')"

lemma scanned_grows_shrinks:
  assumes "grows D t t'" and "shrinks S t' t''" and "S = mounted_devices t' - D"
  shows "scanned D t t''"
  using assms unfolding grows_def shrinks_def scanned_def by (auto simp: same_entry_def subset_iff)

context closing_host
begin

lemma wp_delete_object:
  assumes "objects t a = Some obj" and "agent_invoke_thread obj \<noteq> NotStarted"
    and "\<And>t'. \<lbrakk>instances t' = instances t; objects t' = (objects t)(a := None); next_object t' = next_object t;
      failed_to_connect t' = failed_to_connect t\<rbrakk> \<Longrightarrow> Q (Inr ()) t'"
  shows "wp (delete_object H a) Q t"
  using assms(2,3) delete_returns [of "\<lparr>this = obj, process = tracker_process t\<rparr>"]
  by (auto simp: delete_object_def wp_on_object [OF assms(1)] elim!: wp_mono)

lemma wp_remove_entry:
  assumes "tracker_inv t" and "\<And>t'. shrinks {serial} t t' \<Longrightarrow> Q (Inr ()) t'"
  shows "wp (thenM (delete_at H serial) (modifyM (\<lambda>t. t\<lparr>instances := AList.delete serial (instances t)\<rparr>))) Q t"
proof (cases "map_of (instances t) serial")
  case None
  then have "serial \<notin> fst ` set (instances t)" by (simp add: map_of_eq_None_iff)
  with None have "shrinks {serial} t (t\<lparr>instances := AList.delete serial (instances t)\<rparr>)"
    using assms(1) by (simp add: shrinks_def same_entry_def mounted_devices_def delete_id)
  with None assms(2) show ?thesis by (simp add: delete_at_def)
next
  case (Some a)
  from assms(1) Some obtain obj where obj: "objects t a = Some obj" "live serial obj" by (rule tracker_inv_entry)
  have "shrinks {serial} t (t'\<lparr>instances := AList.delete serial (instances t')\<rparr>)"
    if "instances t' = instances t" "objects t' = (objects t)(a := None)" "next_object t' = next_object t" "failed_to_connect t' = failed_to_connect t" for t' :: "('s, 'k) DeviceTracker"
    using tracker_inv_remove [OF assms(1) Some, of "t'\<lparr>instances := AList.delete serial (instances t')\<rparr>"] that
    by (simp add: shrinks_def same_entry_def given_up_def)
  with Some obj assms(2) show ?thesis
    by (auto simp: delete_at_def live_def intro!: wp_delete_object [OF obj(1)])
qed

lemma wp_remove_devices:
  assumes "tracker_inv t"
  shows "wp (remove_devices H ss) (\<lambda>r t'. r = Inr () \<and> shrinks (set ss) t t') t"
  using assms
proof (induction ss arbitrary: t)
  case Nil
  then show ?case by (simp add: shrinks_def same_entry_def)
next
  case (Cons s ss)
  have rest: "wp (remove_devices H ss) (\<lambda>r t''. r = Inr () \<and> shrinks (insert s (set ss)) t t'') t'" if "shrinks {s} t t'" for t'
  proof -
    from that have "tracker_inv t'" by (simp add: shrinks_def)
    with shrinks_trans [OF that, of "set ss"] show ?thesis by (auto intro!: wp_mono [OF Cons(1)])
  qed
  have "wp (thenM (delete_at H s) (modifyM (\<lambda>t. t\<lparr>instances := AList.delete s (instances t)\<rparr>)))
      (\<lambda>r t'. r = Inr () \<and> shrinks {s} t t') t"
    by (rule wp_remove_entry [OF Cons(2)]) simp
  with rest show ?case by (auto elim!: wp_mono split: sum.splits)
qed

lemma wp_delete_all:
  assumes "distinct ss" and "inj_on (map_of (instances t)) (set ss)"
    and "\<forall>serial \<in> set ss. \<exists>a obj. map_of (instances t) serial = Some a \<and> objects t a = Some obj \<and> agent_invoke_thread obj \<noteq> NotStarted"
  shows "wp (delete_all H ss) (\<lambda>r t'. r = Inr () \<and> instances t' = instances t
     \<and> dom (objects t') = dom (objects t) - {a. \<exists>serial \<in> set ss. map_of (instances t) serial = Some a}) t"
  using assms
proof (induction ss arbitrary: t)
  case (Cons s ss)
  from Cons(4) obtain a obj where a: "map_of (instances t) s = Some a" "objects t a = Some obj" "agent_invoke_thread obj \<noteq> NotStarted" by auto
  have "wp (delete_all H ss) (\<lambda>r t''. r = Inr () \<and> instances t'' = instances t
     \<and> dom (objects t'') = dom (objects t) - {a. \<exists>serial \<in> set (s # ss). map_of (instances t) serial = Some a}) t'"
    if t': "instances t' = instances t" "objects t' = (objects t)(a := None)" for t'
  proof (rule wp_mono [OF Cons(1)])
    have other: "map_of (instances t) serial \<noteq> Some a" if "serial \<in> set ss" for serial
    proof
      assume "map_of (instances t) serial = Some a"
      with a(1) that Cons(3) have "serial = s" by (auto simp: inj_on_def)
      with that Cons(2) show False by simp
    qed
    with Cons(4) t' show "\<forall>serial \<in> set ss. \<exists>a obj. map_of (instances t') serial = Some a \<and> objects t' a = Some obj \<and> agent_invoke_thread obj \<noteq> NotStarted"
      by force
    fix r and s' :: "('s, 'k) DeviceTracker"
    assume "r = Inr () \<and> instances s' = instances t'
      \<and> dom (objects s') = dom (objects t') - {a. \<exists>serial \<in> set ss. map_of (instances t') serial = Some a}"
    moreover have "dom (objects t') = dom (objects t) - {a}" using t'(2) by simp
    ultimately show "r = Inr () \<and> instances s' = instances t
      \<and> dom (objects s') = dom (objects t) - {a. \<exists>serial \<in> set (s # ss). map_of (instances t) serial = Some a}"
      using t'(1) a(1) by auto
  qed (use Cons(2,3) t'(1) in \<open>simp_all add: inj_on_def\<close>)
  with a show ?case by (auto simp: delete_at_def intro!: wp_delete_object [OF a(2)])
qed simp

lemma wp_DeviceTracker_delete:
  assumes "tracker_inv t" and "\<And>xs. mset (order xs) = mset xs"
  shows "wp (DeviceTracker_delete order H) (\<lambda>r t'. r = Inr () \<and> instances t' = instances t \<and> objects t' = Map.empty) t"
proof -
  let ?ss = "order (map fst (instances t))"
  have s: "set ?ss = mounted_devices t" "distinct ?ss"
    using assms mset_eq_setD [OF assms(2)] mset_eq_imp_distinct_iff [OF assms(2)] by (auto simp: mounted_devices_def tracker_inv_def)
  have entry: "\<exists>a obj. map_of (instances t) serial = Some a \<and> objects t a = Some obj \<and> live serial obj" if "serial \<in> mounted_devices t" for serial
    using that assms(1) by (force simp: mounted_devices_def tracker_inv_def)
  have "inj_on (map_of (instances t)) (set ?ss)"
    unfolding s
  proof (rule inj_onI)
    fix x y
    assume "x \<in> mounted_devices t" "y \<in> mounted_devices t" "map_of (instances t) x = map_of (instances t) y"
    with entry [of x] entry [of y] show "x = y" by (auto simp: live_def)
  qed
  moreover have "\<forall>serial \<in> set ?ss. \<exists>a obj. map_of (instances t) serial = Some a \<and> objects t a = Some obj \<and> agent_invoke_thread obj \<noteq> NotStarted"
    unfolding s using entry by (force simp: live_def)
  ultimately have "wp (delete_all H ?ss) (\<lambda>r t'. r = Inr () \<and> instances t' = instances t
     \<and> dom (objects t') = dom (objects t) - {a. \<exists>serial \<in> mounted_devices t. map_of (instances t) serial = Some a}) t"
    using wp_delete_all [OF s(2)] s(1) by simp
  moreover have "dom (objects t) - {a. \<exists>serial \<in> mounted_devices t. map_of (instances t) serial = Some a} = {}"
    using assms(1) by (auto simp: tracker_inv_def mounted_devices_def) force
  ultimately show ?thesis by (auto simp: DeviceTracker_delete_def elim!: wp_mono)
qed

text \<open>Unmounting through a pointer to an object that is alive.\<close>

lemma wp_unmount_device:
  assumes "tracker_inv t" and "objects t a = Some obj"
  shows "wp (unmount_device H a) (\<lambda>r t'. r = Inr () \<and> shrinks {device_serial obj} t t' \<and> objects t' = (objects t)(a := None)) t"
proof -
  note obj = tracker_inv_object [OF assms]
  have "shrinks {device_serial obj} t t'"
    if "instances t' = AList.delete (device_serial obj) (instances t)" "objects t' = (objects t)(a := None)" "next_object t' = next_object t"
      "failed_to_connect t' = failed_to_connect t" for t' :: "('s, 'k) DeviceTracker"
    using tracker_inv_remove [OF assms(1) obj(1) that] that by (simp add: shrinks_def same_entry_def given_up_def)
  moreover have "objects t = (objects t)(a \<mapsto> obj)" using assms(2) by auto
  ultimately show ?thesis
    using obj(2) assms(2)
    by (auto simp: unmount_device_def wp_on_object [OF assms(2)] live_def intro!: wp_delete_object [where obj = obj])
qed

end

context responsive_host
begin

lemma wp_connect:
  assumes "tracker_inv t" and "serial \<notin> mounted_devices t" and "serial \<notin> given_up t"
  shows "wp (connect_to_device_internal H serial) (\<lambda>r t'. case r of
      Inr a \<Rightarrow> grows {serial} t t' \<and> map_of (instances t') serial = Some a
    | Inl e \<Rightarrow> is_exception e \<and> instances t' = instances t \<and> objects t' = objects t \<and> next_object t \<le> next_object t'
        \<and> failed_to_connect t' = failed_to_connect t) t"
proof (cases "Nandroid_new (from_utf8 (host_conn_env H)) serial (current_port t) :: exn + 's Nandroid")
  case (Inl e)
  then have "is_exception e"
    by (auto simp: Nandroid_new_def wstring_from_string_def is_exception_def split: option.splits)
  with Inl show ?thesis by (simp add: connect_to_device_internal_def)
next
  case (Inr obj)
  let ?a = "next_object t"
  note new = Nandroid_new_fields [OF Inr]
  from assms(1) have "objects t ?a = None" by (auto simp: tracker_inv_def dom_def)
  then have fresh: "(objects t)(?a := None) = objects t" by auto
  have begun: "wp (Nandroid_begin H) (\<lambda>r s'. started obj r (this s')) \<lparr>this = obj, process = tracker_process t\<rparr>"
    using new begin_started [of "\<lparr>this = obj, process = tracker_process t\<rparr>"] by simp
  have added: "grows {serial} t t' \<and> map_of (instances t') serial = Some ?a"
    if "started obj (Inr ()) n" and t': "instances t' = AList.update serial ?a (instances t)" "objects t' = (objects t)(?a \<mapsto> n)"
      "next_object t' = Suc ?a" "failed_to_connect t' = failed_to_connect t" for n and t' :: "('s, 'k) DeviceTracker"
  proof -
    from that(1) new(1) have "live serial n" by (auto simp: started_def live_def)
    from tracker_inv_add [OF assms this t'] t' show ?thesis
      by (auto simp: grows_def same_entry_def given_up_def update_conv')
  qed
  have failed: "wp (delete_object H ?a) (\<lambda>r t''. r = Inr () \<and> instances t'' = instances t \<and> objects t'' = objects t \<and> ?a \<le> next_object t''
      \<and> failed_to_connect t'' = failed_to_connect t) t'"
    if "started obj (Inl e) n" "instances t' = instances t" "objects t' = (objects t)(?a \<mapsto> n)" "next_object t' = Suc ?a"
      "failed_to_connect t' = failed_to_connect t" for e n and t' :: "('s, 'k) DeviceTracker"
    using that fresh by (auto simp: started_def intro!: wp_delete_object [where obj = n])
  have on: "wp (on_object (Nandroid_begin H) ?a) (\<lambda>r t'. \<exists>n. started obj r n \<and> instances t' = instances t \<and> objects t' = (objects t)(?a \<mapsto> n)
      \<and> next_object t' = Suc ?a \<and> failed_to_connect t' = failed_to_connect t) t'"
    if "instances t' = instances t" "objects t' = (objects t)(?a \<mapsto> obj)" "next_object t' = Suc ?a" "failed_to_connect t' = failed_to_connect t"
      "tracker_process t' = tracker_process t" for t'
    using that begun by (auto simp: wp_on_object [where obj = obj] elim!: wp_mono)
  have tried: "wp (catchM (thenM (on_object (Nandroid_begin H) ?a) (modifyM (\<lambda>t. t\<lparr>instances := AList.update serial ?a (instances t)\<rparr>)))
        (\<lambda>e. if is_exception e then thenM (delete_object H ?a) (throwM e) else throwM e))
      (\<lambda>r t'. case r of Inr _ \<Rightarrow> grows {serial} t t' \<and> map_of (instances t') serial = Some ?a
         | Inl e \<Rightarrow> is_exception e \<and> instances t' = instances t \<and> objects t' = objects t \<and> ?a \<le> next_object t'
             \<and> failed_to_connect t' = failed_to_connect t) t'"
    if "instances t' = instances t" "objects t' = (objects t)(?a \<mapsto> obj)" "next_object t' = Suc ?a" "failed_to_connect t' = failed_to_connect t"
      "tracker_process t' = tracker_process t" for t'
    unfolding wp_catchM wp_thenM
  proof (rule wp_mono [OF on [OF that]], elim exE conjE, goal_cases)
    case (1 r s' n)
    then show ?case
    proof (cases r)
      case (Inl e)
      with 1 have "is_exception e" by (simp add: started_def)
      with Inl 1 show ?thesis by (auto intro!: wp_mono [OF failed])
    qed (use added [of n "s'\<lparr>instances := AList.update serial ?a (instances s')\<rparr>"] in simp)
  qed
  show ?thesis
    using Inr by (auto simp: connect_to_device_internal_def split: sum.splits intro!: wp_mono [OF tried] simp del: wp_catchM)
qed

lemma wp_connect_new_devices:
  assumes "tracker_inv t"
  shows "wp (connect_new_devices H ds) (\<lambda>r t'. r = Inr () \<and> grows (set ds) t t') t"
  using assms
proof (induction ds arbitrary: t)
  case Nil
  then show ?case by (simp add: grows_def same_entry_def)
next
  case (Cons d ds)
  have rest: "wp (connect_new_devices H ds) (\<lambda>r t''. r = Inr () \<and> grows (insert d (set ds)) t t'') t'" if "grows {d} t t'" for t'
  proof -
    from that have "tracker_inv t'" by (simp add: grows_def)
    with grows_trans [OF that, of "set ds"] show ?thesis by (auto intro!: wp_mono [OF Cons(1)])
  qed
  show ?case
  proof (cases "d \<in> mounted_devices t \<or> d \<in> given_up t")
    case True
    with Cons(2) have "grows {d} t t" by (auto simp: grows_def same_entry_def)
    with True rest [of t] show ?thesis by (auto simp: mounted_devices_def given_up_def)
  next
    case False
    have failed: "grows {d} t (t'\<lparr>failed_to_connect := List.insert d (failed_to_connect t)\<rparr>)" (is "grows _ _ ?t")
      if "instances t' = instances t" "objects t' = objects t" "next_object t \<le> next_object t'" "failed_to_connect t' = failed_to_connect t" for t' :: "('s, 'k) DeviceTracker"
    proof -
      have "\<forall>a \<in> dom (objects t). a < next_object t'" using Cons(2) that(3) unfolding tracker_inv_def by (meson order_less_le_trans)
      moreover have sets: "mounted_devices ?t = mounted_devices t" "given_up ?t = insert d (given_up t)"
        by (simp_all add: mounted_devices_def given_up_def that)
      ultimately have "tracker_inv ?t"
        unfolding tracker_inv_def sets using Cons(2) False by (simp add: tracker_inv_def that)
      moreover have "same_entry serial t ?t" for serial by (simp add: same_entry_def device_object_def that)
      ultimately show ?thesis unfolding grows_def sets by auto
    qed
    from False have "wp (catchM (thenM (connect_to_device_internal H d) (returnM ()))
        (\<lambda>e. if is_exception e then modifyM (\<lambda>t. t\<lparr>failed_to_connect := List.insert d (failed_to_connect t)\<rparr>) else throwM e))
        (\<lambda>r t'. r = Inr () \<and> grows {d} t t') t"
      unfolding wp_catchM wp_thenM
      by (intro wp_mono [OF wp_connect [OF Cons(2)]]) (auto split: sum.splits intro!: failed)
    with False rest show ?thesis
      by (auto simp: mounted_devices_def given_up_def simp del: wp_catchM split: sum.splits elim!: wp_mono)
  qed
qed

lemma wp_update:
  assumes "tracker_inv t" and "\<And>xs. set (order xs) = set xs"
    and "wp (invoke_adb (adb_api H) (wide ''devices'')) (\<lambda>r _. r = Inr listing) (tracker_process t)"
  shows "wp (update_connected_devices order H) (\<lambda>r t'. r = Inr () \<and> scanned (set (parse_devices listing)) t t') t"
proof -
  let ?ds = "parse_devices listing"
  have remove: "wp (remove_devices H ss) (\<lambda>r t''. r = Inr () \<and> scanned (set ?ds) t t'') t'"
    if "grows (set ?ds) t t'" and "set ss = mounted_devices t' - set ?ds" for t' ss
  proof -
    from that(1) have "tracker_inv t'" by (simp add: grows_def)
    with that show ?thesis by (auto intro!: wp_mono [OF wp_remove_devices] elim!: scanned_grows_shrinks)
  qed
  have "wp (thenM (connect_new_devices H (order ?ds))
      (bindM (getM (\<lambda>t. filter (\<lambda>serial. serial \<notin> set ?ds) (order (map fst (instances t))))) (\<lambda>to_remove. remove_devices H to_remove)))
        (\<lambda>r t''. r = Inr () \<and> scanned (set ?ds) t t'') (t\<lparr>tracker_process := p\<rparr>)" for p
    unfolding wp_thenM
  proof (rule wp_mono [OF wp_connect_new_devices])
    fix r t' assume "r = Inr () \<and> grows (set (order ?ds)) (t\<lparr>tracker_process := p\<rparr>) t'"
    moreover have "grows D (t\<lparr>tracker_process := p\<rparr>) t' = grows D t t'" for D by (simp add: grows_def same_entry_def)
    ultimately show "case r of Inl e \<Rightarrow> Inl e = Inr () \<and> scanned (set ?ds) t t'
      | Inr _ \<Rightarrow> wp (bindM (getM (\<lambda>t. filter (\<lambda>serial. serial \<notin> set ?ds) (order (map fst (instances t))))) (\<lambda>to_remove. remove_devices H to_remove))
          (\<lambda>r t''. r = Inr () \<and> scanned (set ?ds) t t'') t'"
      using assms(2) by (auto simp: mounted_devices_def intro!: remove)
  qed (use assms(1) in simp)
  then show ?thesis
    unfolding update_connected_devices_def list_authorized_adb_devices_def wp_bindM [of "processM _"] wp_processM wp_bindM [of "invoke_adb _ _"]
    by (intro wp_mono [OF assms(3)]) simp
qed

end

text \<open>
  C12: a scan on a responsive host. It always returns without an exception and keeps the
  invariant of the tracker. Afterwards every mounted device is one that adb lists as
  authorised, every listed device is mounted or was given up, a device that was given up stays
  so, and the devices that were mounted and still are listed keep their objects, which are untouched. None
  of this depends on the order of the hash tables.
\<close>

theorem scan_connects_devices:
  assumes "responsive_host H" and "tracker_inv t" and "\<And>xs. set (order xs) = set xs"
    and "wp (invoke_adb (adb_api H) (wide ''devices'')) (\<lambda>r _. r = Inr listing) (tracker_process t)"
  shows "wp (update_connected_devices order H) (\<lambda>r t'. r = Inr () \<and> tracker_inv t'
     \<and> mounted_devices t' \<subseteq> set (parse_devices listing) \<and> set (parse_devices listing) \<subseteq> mounted_devices t' \<union> given_up t'
     \<and> given_up t \<subseteq> given_up t'
     \<and> (\<forall>serial \<in> mounted_devices t \<inter> set (parse_devices listing). map_of (instances t') serial = map_of (instances t) serial
          \<and> device_object t' serial = device_object t serial)) t"
  by (rule wp_mono [OF responsive_host.wp_update [OF assms]]) (auto simp: scanned_def same_entry_def)

lemma ex_devices:
  "wp (invoke_adb (adb_api (ex_host ready)) (wide ''devices'')) (\<lambda>r _. r = Inr (concat ex_listing)) ex_process"
proof -
  have "non_constify_string (wide ''adb'' @ wide '' '' @ wide ''devices'') = wide ''adb devices''" by code_simp
  then show ?thesis
    using ex_machine.wp_invoke_adb [of "Some (wide ''C:/nandroidfs/nandroidfs.exe'')" "wide ''devices''" ex_process]
    by (auto simp: ex_host_def ex_process_def ex_text_def elim!: wp_mono)
qed

theorem scan_connects_devices_witness:
  "wp (update_connected_devices rev (ex_host (AGENT_READY_MSG @ [newline]))) (\<lambda>r t'. r = Inr () \<and> tracker_inv t'
     \<and> mounted_devices t' \<subseteq> {''R5''} \<and> {''R5''} \<subseteq> mounted_devices t' \<union> given_up t') (DeviceTracker_new ex_process)"
proof -
  have "parse_devices (concat ex_listing) = [''R5'']" by code_simp
  moreover have adb: "wp (invoke_adb (adb_api (ex_host (AGENT_READY_MSG @ [newline]))) (wide ''devices'')) (\<lambda>r _. r = Inr (concat ex_listing))
      (tracker_process (DeviceTracker_new ex_process))"
    using ex_devices by (simp add: DeviceTracker_new_def)
  ultimately show ?thesis
    using scan_connects_devices [OF ex_host.responsive_host_axioms tracker_inv_new _ adb, of rev]
    by (auto elim!: wp_mono)
qed

subsection \<open>Where a device takes the program with it\<close>

lemma bindM_SomeE:
  assumes "bindM m f s = Some (r, s')"
  obtains (throws) e where "m s = Some (Inl e, s')" "r = Inl e" | (continues) a s1 where "m s = Some (Inr a, s1)" "f a s1 = Some (r, s')"
  using assms by (auto simp: bindM_def split: Option.bind_splits sum.splits)

lemma adb_on_device_this:
  assumes "adb_on_device H args s = Some (r, s')"
  shows "this s' = this s"
  using assms by (auto simp: adb_on_device_def thenM_def adbM_def getM_def returnM_def elim!: bindM_SomeE split: option.splits)

lemma launch_agent_failed:
  assumes "launch_agent H s = Some (Inl e, s')"
  shows "this s' = this s"
  using assms
  by (auto simp: launch_agent_def thenM_def getM_def throwM_def set_this_def modifyM_def elim!: bindM_SomeE dest!: adb_on_device_this split: option.splits)

lemma begin_not_launched:
  assumes "wp (launch_agent H) (\<lambda>r _. \<exists>e. r = Inl e \<and> is_exception e) s"
  shows "wp (Nandroid_begin H) (\<lambda>r s'. (\<exists>e. r = Inl e \<and> is_exception e) \<and> this s' = this s) s"
  using assms launch_agent_failed [of H s] by (auto simp: Nandroid_begin_def wp_def split: option.splits) (auto simp: thenM_def bindM_def)

lemma delete_not_started:
  assumes "agent_invoke_thread (this s) = NotStarted" and "nan_connection (this s) = None" and "nan_instance (this s) = None"
    and "closing_host H"
  shows "wp (Nandroid_delete H) (\<lambda>r s'. r = Inl ProcessAbort) s"
  using assms(1-3)
  by (auto simp: Nandroid_delete_def join_agent_def agent_acts_stopped split: prod.split intro!: closing_host.wp_adb_any [OF assms(4)])

text \<open>
  C21: a device whose daemon cannot even be started ends the whole program. When a new device
  is listed and copying or starting the daemon fails before its thread exists, the exception does
  not reach the handler that would put the device on the list of failed devices: the cleanup
  joins a thread that was never started, and the process is terminated.
\<close>

theorem failed_launch_terminates:
  assumes "Nandroid_new (from_utf8 (host_conn_env H)) serial (current_port t) = Inr obj"
    and "serial \<notin> mounted_devices t" and "serial \<notin> given_up t"
    and "wp (launch_agent H) (\<lambda>r _. \<exists>e. r = Inl e \<and> is_exception e) \<lparr>this = obj, process = tracker_process t\<rparr>"
    and "closing_host H"
  shows "wp (connect_new_devices H (serial # devices)) (\<lambda>r t'. r = Inl ProcessAbort \<and> serial \<notin> given_up t') t"
proof -
  note new = Nandroid_new_fields [OF assms(1)]
  have del: "wp (delete_object H a) (\<lambda>r t'. r = Inl ProcessAbort \<and> failed_to_connect t' = failed_to_connect t) t'"
    if "failed_to_connect t' = failed_to_connect t" "objects t' a = Some obj" for t' a
    using delete_not_started [of "\<lparr>this = obj, process = tracker_process t'\<rparr>" H] new assms(5) that
    by (auto simp: delete_object_def wp_on_object [OF that(2)] elim!: wp_mono)
  have "wp (connect_to_device_internal H serial) (\<lambda>r t'. r = Inl ProcessAbort \<and> failed_to_connect t' = failed_to_connect t) t"
    using begin_not_launched [OF assms(4)] assms(1)
    by (auto simp: connect_to_device_internal_def wp_on_object [where obj = obj] elim!: wp_mono intro!: wp_mono [OF del])
  then show ?thesis
    using assms(2,3) by (auto simp: mounted_devices_def given_up_def is_exception_def elim!: wp_mono)
qed

definition ex_no_daemon :: "(unit, string list, sock, unit) host" where
  "ex_no_daemon = (ex_host [])\<lparr>adb_api := ex_adb None\<rparr>"

theorem failed_launch_terminates_witness:
  "wp (connect_new_devices ex_no_daemon [''R5'']) (\<lambda>r t'. r = Inl ProcessAbort \<and> ''R5'' \<notin> given_up t') (DeviceTracker_new ex_process)"
proof (rule failed_launch_terminates)
  have "from_utf8 (host_conn_env ex_no_daemon) = (\<lambda>s. Some (wide s))"
    by (auto simp: ex_no_daemon_def ex_host_def ex_env_def ascii_def wide_def)
  then show "Nandroid_new (from_utf8 (host_conn_env ex_no_daemon)) ''R5'' (current_port (DeviceTracker_new ex_process)) = Inr ex_device"
    by (simp add: DeviceTracker_new_def ex_device_new)
  show "wp (launch_agent ex_no_daemon) (\<lambda>r _. \<exists>e. r = Inl e \<and> is_exception e) \<lparr>this = ex_device, process = tracker_process (DeviceTracker_new ex_process)\<rparr>"
    by (simp add: launch_agent_def get_abs_path_from_rel_to_exe_def get_exe_path_def ex_no_daemon_def ex_adb_def is_exception_def)
  show "closing_host ex_no_daemon"
  proof
    show "wp (invoke_adb_with_serial (adb_api ex_no_daemon) serial args) (\<lambda>r _. \<forall>e. r = Inl e \<longrightarrow> is_exception e) p" for serial args p
      using ex_machine.wp_invoke_adb_with_serial [of None serial args p] by (auto simp: ex_no_daemon_def elim!: wp_mono)
  qed (simp add: ex_no_daemon_def ex_host_def)
qed (simp_all add: DeviceTracker_new_def mounted_devices_def given_up_def)

text \<open>
  C22: unmounting the same device twice, which two callbacks do when both find the connection
  closed and both call \<open>unmount_device\<close> with the pointer to its object: the first call removes the device from the table and
  destroys the object, and the second one uses the destroyed object.
\<close>

theorem unmount_twice:
  assumes "closing_host H" and "tracker_inv t" and "objects t handle = Some obj"
  shows "device_object t (device_serial obj) = Some obj \<and> wp (unmount_device H handle) (\<lambda>r t'. r = Inr () \<and> tracker_inv t'
    \<and> mounted_devices t' = mounted_devices t - {device_serial obj} \<and> objects t' = (objects t)(handle := None)
    \<and> wp (unmount_device H handle) (\<lambda>r' _. r' = Inl UndefinedBehaviour) t') t"
proof
  show "device_object t (device_serial obj) = Some obj"
    using tracker_inv_object [OF assms(2,3)] assms(3) by (simp add: device_object_def)
  have "wp (unmount_device H handle) (\<lambda>r' _. r' = Inl UndefinedBehaviour) t'" if "objects t' = (objects t)(handle := None)" for t'
    using that by (simp add: unmount_device_def wp_on_dead_object)
  then show "wp (unmount_device H handle) (\<lambda>r t'. r = Inr () \<and> tracker_inv t'
    \<and> mounted_devices t' = mounted_devices t - {device_serial obj} \<and> objects t' = (objects t)(handle := None)
    \<and> wp (unmount_device H handle) (\<lambda>r' _. r' = Inl UndefinedBehaviour) t') t"
    by (auto simp: shrinks_def intro!: wp_mono [OF closing_host.wp_unmount_device [OF assms]])
qed

definition ex_mounted :: "(sock, string list) DeviceTracker" where
  "ex_mounted = (DeviceTracker_new ex_process)\<lparr>instances := [(''R5'', 0)], next_object := 1, objects := [0 \<mapsto>
     ex_device\<lparr>agent_invoke_thread := Running, nan_connection := Some (Connection_init ex_env (ex_sock [])), nan_instance := Some 0x44\<rparr>]\<rparr>"

lemma ex_mounted_inv: "tracker_inv ex_mounted" "mounted_devices ex_mounted = {''R5''}"
  by (simp_all add: ex_mounted_def tracker_inv_def live_def mounted_devices_def given_up_def DeviceTracker_new_def ex_device_def)

theorem unmount_twice_witness:
  "wp (unmount_device (ex_host []) 0) (\<lambda>r t'. r = Inr () \<and> mounted_devices t' = {}
    \<and> wp (unmount_device (ex_host []) 0) (\<lambda>r' _. r' = Inl UndefinedBehaviour) t') ex_mounted"
proof -
  have obj: "objects ex_mounted 0 = Some (ex_device\<lparr>agent_invoke_thread := Running,
      nan_connection := Some (Connection_init ex_env (ex_sock [])), nan_instance := Some 0x44\<rparr>)"
    by (simp add: ex_mounted_def)
  have "device_serial ex_device = ''R5''" by (simp add: ex_device_def)
  with ex_mounted_inv(2) show ?thesis
    by (intro wp_mono [OF unmount_twice [OF ex_host.closing_host_axioms ex_mounted_inv(1) obj, THEN conjunct2]]) simp
qed

end
