(* ===== verification/Tray_Menu.thy ===== *)
theory Tray_Menu
  imports Text_Lines
begin

text \<open>
  \<open>nandroidfs/TrayMenu.cpp\<close>: the tray icon, its menu and the console window. The calls into
  Windows are recorded in \<open>calls\<close> with their result, which is a parameter: \<open>api c n\<close> is whether
  the call \<open>c\<close> succeeds when \<open>n\<close> calls were made before it. Handles are represented by whether
  they are non-null.
\<close>

section \<open>State\<close>

datatype win_call =
    RegisterClass | UnregisterClass
  | CreateWindowEx | DestroyWindow
  | ExtractIcon | DestroyIcon
  | CreatePopupMenu | InsertMenu u32 | SetMenuItemInfo bool | TrackPopupMenu
  | NotifyIconAdd | NotifyIconSetVersion | NotifyIconDelete
  | AllocConsole | ShowConsoleWindow bool
  | PostClose

type_synonym message = "u32 \<times> u64 \<times> u64"

text \<open>
  What \<open>GetMessage\<close> returns: a message (a positive result), \<open>WM_QUIT\<close> (zero), or an error (-1), which leaves
  \<open>msg\<close> as it was.
\<close>

datatype fetched = Fetched message | FetchQuit | FetchError

text \<open>
  The window's thread: not started (not joinable), in its loop with the content of \<open>msg\<close> (nothing before the first
  message), or at its end.
\<close>

datatype event_thread = NoThread | InLoop "message option" | LoopEnded

record TrayMenuManager =
  initialised :: bool
  init_succeeded :: bool
  init_process_finished :: bool
  alloced_console :: bool
  console_enabled :: bool
  window_class_registered :: bool
  tray_icon_window :: bool
  tray_icon_id :: int
  right_click_menu :: bool
  exe_icon :: bool
  event_loop_thread :: event_thread
  quit_calls :: nat
  calls :: "(win_call \<times> bool) list"

type_synonym win_api = "win_call \<Rightarrow> nat \<Rightarrow> bool"

definition TrayMenuManager_new :: TrayMenuManager where
  "TrayMenuManager_new =
     \<lparr>initialised = False, init_succeeded = False, init_process_finished = False, alloced_console = False,
      console_enabled = False, window_class_registered = False, tray_icon_window = False, tray_icon_id = 0,
      right_click_menu = False, exe_icon = False, event_loop_thread = NoThread, quit_calls = 0, calls = []\<rparr>"

text \<open>The constructor refuses a second instance.\<close>

definition TrayMenuManager_construct :: "bool \<Rightarrow> exn + TrayMenuManager" where
  "TrayMenuManager_construct instance_exists =
     (if instance_exists then Inl (RuntimeError ''Attemted to create multiple instances of TrayMenuManager'')
      else Inr TrayMenuManager_new)"

definition QUIT_ITEM_ID :: u32 where "QUIT_ITEM_ID = 1"
definition CONSOLE_ITEM_ID :: u32 where "CONSOLE_ITEM_ID = 2"
definition WM_CLOSE :: u32 where "WM_CLOSE = 0x10"
definition WM_CONTEXTMENU :: u32 where "WM_CONTEXTMENU = 0x7B"
definition WM_COMMAND :: u32 where "WM_COMMAND = 0x111"
definition TRAY_ICON_CLICK_MSG :: u32 where "TRAY_ICON_CLICK_MSG = 0x8001"
definition CTRL_C_EVENT :: u32 where "CTRL_C_EVENT = 0"

lemmas message_defs = WM_CLOSE_def WM_CONTEXTMENU_def WM_COMMAND_def TRAY_ICON_CLICK_MSG_def

definition win :: "win_api \<Rightarrow> win_call \<Rightarrow> (TrayMenuManager, bool) M" where
  "win api c = (\<lambda>s. let ok = api c (length (calls s)) in Some (Inr ok, s\<lparr>calls := calls s @ [(c, ok)]\<rparr>))"

section \<open>Operations\<close>

definition register_window_class :: "win_api \<Rightarrow> (TrayMenuManager, bool) M" where
  "register_window_class api = win api RegisterClass"

definition load_window_icon :: "win_api \<Rightarrow> (TrayMenuManager, bool) M" where
  "load_window_icon api =
     bindM (win api ExtractIcon) (\<lambda>icon. thenM (modifyM (\<lambda>s. s\<lparr>exe_icon := icon\<rparr>)) (returnM icon))"

definition create_rightclick_menu :: "win_api \<Rightarrow> (TrayMenuManager, bool) M" where
  "create_rightclick_menu api =
     bindM (win api CreatePopupMenu) (\<lambda>menu.
     thenM (modifyM (\<lambda>s. s\<lparr>right_click_menu := menu\<rparr>))
    (if \<not> menu then returnM False
     else bindM (win api (InsertMenu QUIT_ITEM_ID)) (\<lambda>ok.
       if \<not> ok then returnM False
       else bindM (win api (InsertMenu CONSOLE_ITEM_ID)) (\<lambda>ok. returnM ok))))"

definition update_rightclick_menu :: "win_api \<Rightarrow> (TrayMenuManager, bool) M" where
  "update_rightclick_menu api =
     bindM (getM (\<lambda>s. (right_click_menu s, console_enabled s))) (\<lambda>(menu, enabled).
       if \<not> menu then returnM False else win api (SetMenuItemInfo enabled))"

definition release_resources :: "win_api \<Rightarrow> (TrayMenuManager, unit) M" where
  "release_resources api =
     bindM (getM (\<lambda>s. s)) (\<lambda>s.
     thenM (if tray_icon_id s \<noteq> 0 then win api NotifyIconDelete else returnM True)
    (thenM (if tray_icon_window s then win api DestroyWindow else returnM True)
    (thenM (modifyM (\<lambda>s. s\<lparr>tray_icon_window := False\<rparr>))
    (thenM (if exe_icon s then win api DestroyIcon else returnM True)
    (thenM (if window_class_registered s then win api UnregisterClass else returnM True)
           (returnM ()))))))"

definition initialise_internal :: "win_api \<Rightarrow> (TrayMenuManager, bool) M" where
  "initialise_internal api =
     bindM (register_window_class api) (\<lambda>ok. if \<not> ok then returnM False else
     thenM (modifyM (\<lambda>s. s\<lparr>window_class_registered := True\<rparr>))
    (bindM (win api CreateWindowEx) (\<lambda>window.
     thenM (modifyM (\<lambda>s. s\<lparr>tray_icon_window := window\<rparr>))
    (if \<not> window then returnM False else
     bindM (load_window_icon api) (\<lambda>ok. if \<not> ok then returnM False else
     bindM (create_rightclick_menu api) (\<lambda>ok. if \<not> ok then returnM False else
     thenM (update_rightclick_menu api)
    (bindM (win api NotifyIconAdd) (\<lambda>ok. if \<not> ok then returnM False else
     thenM (modifyM (\<lambda>s. s\<lparr>tray_icon_id := 1\<rparr>))
           (win api NotifyIconSetVersion)))))))))"

text \<open>Redirecting the standard streams to a new console has no counterpart.\<close>

definition set_console_enabled :: "win_api \<Rightarrow> bool \<Rightarrow> (TrayMenuManager, bool) M" where
  "set_console_enabled api new_enabled =
     bindM (getM (\<lambda>s. (console_enabled s, alloced_console s))) (\<lambda>(enabled, alloced).
       if new_enabled = enabled then returnM True
       else bindM (if new_enabled
                   then (if \<not> alloced
                         then bindM (win api AllocConsole) (\<lambda>ok.
                              if ok then thenM (modifyM (\<lambda>s. s\<lparr>alloced_console := True\<rparr>)) (returnM True) else returnM False)
                         else thenM (win api (ShowConsoleWindow True)) (returnM True))
                   else if alloced then thenM (win api (ShowConsoleWindow False)) (returnM True)
                   else returnM True) (\<lambda>ok.
            if \<not> ok then returnM False
            else thenM (modifyM (\<lambda>s. s\<lparr>console_enabled := new_enabled\<rparr>))
                (thenM (update_rightclick_menu api) (returnM True))))"

definition LOWORD :: "u64 \<Rightarrow> u32" where "LOWORD x = ucast (take_bit 16 x)"
definition HIWORD :: "u64 \<Rightarrow> u32" where "HIWORD x = ucast (take_bit 16 (drop_bit 16 x))"

text \<open>The window procedure; the result is whether the message goes on to \<open>DefWindowProc\<close>.\<close>

definition tray_window_proc :: "win_api \<Rightarrow> u32 \<Rightarrow> u64 \<Rightarrow> u64 \<Rightarrow> (TrayMenuManager, bool) M" where
  "tray_window_proc api msg w_param l_param =
     (if msg = WM_CLOSE then thenM (release_resources api) (returnM False)
      else if msg = TRAY_ICON_CLICK_MSG
      then bindM (getM right_click_menu) (\<lambda>menu.
           if LOWORD l_param = WM_CONTEXTMENU \<and> menu then thenM (win api TrackPopupMenu) (returnM False) else returnM False)
      else if msg = WM_COMMAND \<and> HIWORD w_param = 0
      then (if LOWORD w_param = QUIT_ITEM_ID then thenM (modifyM (\<lambda>s. s\<lparr>quit_calls := quit_calls s + 1\<rparr>)) (returnM False)
            else if LOWORD w_param = CONSOLE_ITEM_ID
            then bindM (getM console_enabled) (\<lambda>enabled. thenM (set_console_enabled api (\<not> enabled)) (returnM False))
            else returnM False)
      else returnM True)"

text \<open>
  The loop, for the results of \<open>GetMessage\<close> in their order. It ends when the window is gone or \<open>WM_QUIT\<close> was
  fetched; when neither has happened after the last of them, the thread waits in \<open>GetMessage\<close>. An
  error has the previous message dispatched again; as the first result it has an uninitialised one dispatched.
\<close>

definition dispatch_message :: "win_api \<Rightarrow> message \<Rightarrow> (TrayMenuManager, unit) M" where
  "dispatch_message api m = (case m of (msg, w_param, l_param) \<Rightarrow> thenM (tray_window_proc api msg w_param l_param) (returnM ()))"

definition loop_body :: "win_api \<Rightarrow> fetched \<Rightarrow> message option \<Rightarrow> (TrayMenuManager, unit) M" where
  "loop_body api f prev_msg =
     (case f of
        FetchQuit \<Rightarrow> modifyM (\<lambda>s. s\<lparr>event_loop_thread := LoopEnded\<rparr>)
      | Fetched m \<Rightarrow> thenM (modifyM (\<lambda>s. s\<lparr>event_loop_thread := InLoop (Some m)\<rparr>)) (dispatch_message api m)
      | FetchError \<Rightarrow> (case prev_msg of None \<Rightarrow> throwM UndefinedBehaviour | Some m \<Rightarrow> dispatch_message api m))"

definition loop_condition :: "(TrayMenuManager, unit) M" where
  "loop_condition = modifyM (\<lambda>s. case event_loop_thread s of
     InLoop _ \<Rightarrow> if tray_icon_window s then s else s\<lparr>event_loop_thread := LoopEnded\<rparr> | _ \<Rightarrow> s)"

fun event_loop :: "win_api \<Rightarrow> fetched list \<Rightarrow> (TrayMenuManager, unit) M" where
  "event_loop api [] = loop_condition"
| "event_loop api (f # fs) =
     thenM loop_condition
    (thenM (bindM (getM event_loop_thread) (\<lambda>t. case t of InLoop prev_msg \<Rightarrow> loop_body api f prev_msg | _ \<Rightarrow> returnM ()))
           (event_loop api fs))"

text \<open>The window's thread up to the point where \<open>initialise\<close> is woken, in a release build, and \<open>initialise\<close> itself.\<close>

definition window_thread_init :: "win_api \<Rightarrow> (TrayMenuManager, unit) M" where
  "window_thread_init api =
     bindM (initialise_internal api) (\<lambda>success.
     thenM (if success then returnM () else release_resources api)
           (modifyM (\<lambda>s. s\<lparr>init_process_finished := True, init_succeeded := success\<rparr>)))"

definition initialise :: "win_api \<Rightarrow> (TrayMenuManager, bool) M" where
  "initialise api =
     bindM (getM initialised) (\<lambda>done.
       if done then throwM (RuntimeError ''already initialised'')
       else thenM (modifyM (\<lambda>s. s\<lparr>initialised := True, event_loop_thread := InLoop None\<rparr>))
           (thenM (window_thread_init api) (getM init_succeeded)))"

text \<open>Waiting for the end of the thread.\<close>

definition join_event_loop :: "(TrayMenuManager, unit) M" where
  "join_event_loop = (\<lambda>s. if event_loop_thread s = LoopEnded then Some (Inr (), s) else None)"

text \<open>
  The destructor: it asks the window to close, if there is one, and joins the thread, which blocks until the thread has
  ended; joining a thread that was never started throws out of the destructor, which ends the process. \<open>fs\<close> is what is
  fetched before the message of the destructor, which arrives unless \<open>PostMessage\<close> fails.
\<close>

definition TrayMenuManager_delete :: "win_api \<Rightarrow> fetched list \<Rightarrow> (TrayMenuManager, unit) M" where
  "TrayMenuManager_delete api fs =
     bindM (getM tray_icon_window) (\<lambda>window.
     bindM (if window then win api PostClose else returnM False) (\<lambda>posted.
     bindM (getM event_loop_thread) (\<lambda>t.
       if t = NoThread then throwM ProcessAbort
       else thenM (event_loop api (fs @ (if posted then [Fetched (WM_CLOSE, 0, 0)] else [])))
                  join_event_loop)))"

definition console_handler :: "u32 \<Rightarrow> (TrayMenuManager, bool) M" where
  "console_handler sig =
     (if sig = CTRL_C_EVENT then thenM (modifyM (\<lambda>s. s\<lparr>quit_calls := quit_calls s + 1\<rparr>)) (returnM True) else returnM True)"

section \<open>Lemmas\<close>

lemma wp_win [simp]:
  "wp (win api c) Q s \<longleftrightarrow>
     Q (Inr (api c (length (calls s)))) (s\<lparr>calls := calls s @ [(c, api c (length (calls s)))]\<rparr>)"
  by (simp add: wp_def win_def Let_def)

lemma wp_join_event_loop [simp]: "wp join_event_loop Q s \<longleftrightarrow> event_loop_thread s = LoopEnded \<and> Q (Inr ()) s"
  by (simp add: wp_def join_event_loop_def)

text \<open>How many objects that \<open>acquire\<close> has created have not been given back by \<open>release\<close>.\<close>

definition held :: "win_call \<Rightarrow> win_call \<Rightarrow> (win_call \<times> bool) list \<Rightarrow> int" where
  "held acquire release cs = int (length (filter (\<lambda>c. c = (acquire, True)) cs)) - int (length (filter (\<lambda>c. fst c = release) cs))"

lemma held_simps [simp]:
  "held a r [] = 0"
  "held a r (cs @ ds) = held a r cs + held a r ds"
  "held a r ((c, ok) # cs) = of_bool (c = a \<and> ok) - of_bool (c = r) + held a r cs"
  by (auto simp: held_def)

text \<open>
  While the window exists the object's fields say which objects are held; afterwards none is.
\<close>

definition accounted :: "TrayMenuManager \<Rightarrow> bool" where
  "accounted s \<longleftrightarrow>
     held RegisterClass UnregisterClass (calls s) = of_bool (tray_icon_window s \<and> window_class_registered s)
     \<and> held CreateWindowEx DestroyWindow (calls s) = of_bool (tray_icon_window s)
     \<and> held ExtractIcon DestroyIcon (calls s) = of_bool (tray_icon_window s \<and> exe_icon s)
     \<and> held NotifyIconAdd NotifyIconDelete (calls s) = of_bool (tray_icon_window s \<and> tray_icon_id s \<noteq> 0)"

lemma accounted_frame [simp]:
  "accounted (s\<lparr>event_loop_thread := t\<rparr>) = accounted s" "accounted (s\<lparr>quit_calls := q\<rparr>) = accounted s"
  "accounted (s\<lparr>calls := calls s @ [(PostClose, ok)]\<rparr>) = accounted s" "accounted (s\<lparr>calls := calls s @ [(TrackPopupMenu, ok)]\<rparr>) = accounted s"
  by (simp_all add: accounted_def)

lemma release_accounted:
  assumes "accounted s" and "tray_icon_window s"
  shows "wp (release_resources api) (\<lambda>r s'. r = Inr () \<and> accounted s' \<and> \<not> tray_icon_window s'
     \<and> event_loop_thread s' = event_loop_thread s \<and> quit_calls s' = quit_calls s \<and> alloced_console s' = alloced_console s) s"
  using assms by (simp add: release_resources_def accounted_def)

lemma init_accounted:
  assumes "calls s = []" and "\<not> tray_icon_window s" and "tray_icon_id s = 0" and "\<not> exe_icon s" and "\<not> window_class_registered s" and "\<not> right_click_menu s"
  shows "wp (window_thread_init api) (\<lambda>r s'. r = Inr () \<and> accounted s' \<and> tray_icon_window s' = init_succeeded s'
     \<and> event_loop_thread s' = event_loop_thread s) s"
  using assms
  by (simp add: window_thread_init_def initialise_internal_def register_window_class_def load_window_icon_def create_rightclick_menu_def
      update_rightclick_menu_def release_resources_def accounted_def)

text \<open>What the window procedure does to the window, the thread and the request to quit.\<close>

definition quits :: "message \<Rightarrow> bool" where
  "quits m = (case m of (msg, w_param, _) \<Rightarrow> msg = WM_COMMAND \<and> HIWORD w_param = 0 \<and> LOWORD w_param = QUIT_ITEM_ID)"

lemma wp_dispatch:
  assumes "accounted s" and "tray_icon_window s"
  shows "wp (dispatch_message api m) (\<lambda>r s'. r = Inr () \<and> accounted s' \<and> tray_icon_window s' = (fst m \<noteq> WM_CLOSE)
     \<and> event_loop_thread s' = event_loop_thread s \<and> quit_calls s' = quit_calls s + of_bool (quits m)
     \<and> (alloced_console s \<longrightarrow> alloced_console s')) s"
proof -
  obtain msg w l where m: "m = (msg, w, l)" by (cases m)
  have console: "wp (set_console_enabled api new_enabled) (\<lambda>r s'. \<not> isl r \<and> accounted s' \<and> tray_icon_window s'
      \<and> event_loop_thread s' = event_loop_thread s \<and> quit_calls s' = quit_calls s \<and> (alloced_console s \<longrightarrow> alloced_console s')) s" for new_enabled
    using assms by (simp add: set_console_enabled_def update_rightclick_menu_def accounted_def)
  have ids: "QUIT_ITEM_ID \<noteq> CONSOLE_ITEM_ID" by (simp add: QUIT_ITEM_ID_def CONSOLE_ITEM_ID_def)
  show ?thesis
    using assms ids
    by (auto simp: m dispatch_message_def tray_window_proc_def quits_def message_defs split: sum.split intro!: wp_mono [OF console] wp_mono [OF release_accounted [OF assms]])
qed

text \<open>
  The loop keeps the account, and ends with the window as long as \<open>WM_QUIT\<close> is not fetched and the
  first result is no error.
\<close>

definition looping :: "TrayMenuManager \<Rightarrow> bool" where
  "looping s \<longleftrightarrow> accounted s \<and> (case event_loop_thread s of NoThread \<Rightarrow> False | InLoop _ \<Rightarrow> True | LoopEnded \<Rightarrow> \<not> tray_icon_window s)"

definition no_quit :: "TrayMenuManager \<Rightarrow> fetched list \<Rightarrow> bool" where
  "no_quit s fs \<longleftrightarrow> FetchQuit \<notin> set fs \<and> (event_loop_thread s = InLoop None \<longrightarrow> fs \<noteq> [] \<longrightarrow> hd fs \<noteq> FetchError)"

lemma wp_loop_body:
  assumes "accounted s" and "tray_icon_window s" and "event_loop_thread s = InLoop prev_msg" and "f \<noteq> FetchQuit" and "prev_msg = None \<longrightarrow> f \<noteq> FetchError"
  shows "wp (loop_body api f prev_msg) (\<lambda>r s'. r = Inr () \<and> accounted s' \<and> (\<exists>m. event_loop_thread s' = InLoop (Some m))
     \<and> (\<forall>m. f = Fetched m \<longrightarrow> tray_icon_window s' = (fst m \<noteq> WM_CLOSE) \<and> quit_calls s' = quit_calls s + of_bool (quits m)
           \<and> (alloced_console s \<longrightarrow> alloced_console s'))) s"
proof -
  have fetched: "wp (dispatch_message api m) (\<lambda>r s'. r = Inr () \<and> accounted s' \<and> tray_icon_window s' = (fst m \<noteq> WM_CLOSE)
     \<and> event_loop_thread s' = InLoop (Some m) \<and> quit_calls s' = quit_calls s + of_bool (quits m) \<and> (alloced_console s \<longrightarrow> alloced_console s'))
     (s\<lparr>event_loop_thread := InLoop (Some m)\<rparr>)" for m
    using assms(1,2) wp_dispatch [of "s\<lparr>event_loop_thread := InLoop (Some m)\<rparr>" api m] by simp
  show ?thesis
    using assms(3-5)
    by (cases f) (auto simp: loop_body_def split: option.split intro!: wp_mono [OF fetched] wp_mono [OF wp_dispatch [OF assms(1,2)]])
qed

lemma wp_event_loop:
  assumes "looping s" and "no_quit s fs"
  shows "wp (event_loop api fs) (\<lambda>r s'. r = Inr () \<and> looping s' \<and> (tray_icon_window s' \<or> event_loop_thread s' = LoopEnded)
     \<and> (\<not> tray_icon_window s \<or> Fetched (WM_CLOSE, 0, 0) \<in> set fs \<longrightarrow> event_loop_thread s' = LoopEnded) \<and> (event_loop_thread s \<noteq> InLoop None \<or> fs \<noteq> [] \<longrightarrow> event_loop_thread s' \<noteq> InLoop None)) s"
  using assms
proof (induction fs arbitrary: s)
  case Nil
  then show ?case by (auto simp: loop_condition_def looping_def split: event_thread.splits)
next
  case (Cons f fs)
  let ?Q = "\<lambda>r s'. r = Inr () \<and> looping s' \<and> (tray_icon_window s' \<or> event_loop_thread s' = LoopEnded)
     \<and> (\<not> tray_icon_window s \<or> Fetched (WM_CLOSE, 0, 0) \<in> set (f # fs) \<longrightarrow> event_loop_thread s' = LoopEnded) \<and> event_loop_thread s' \<noteq> InLoop None"
  have ended: "wp (event_loop api gs) (\<lambda>r s'. r = Inr () \<and> s' = t) t" if "event_loop_thread t = LoopEnded" for gs t
    using that by (induction gs) (simp_all add: loop_condition_def)
  show ?case
  proof (cases "tray_icon_window s \<and> event_loop_thread s \<noteq> LoopEnded")
    case True
    with Cons(2) obtain prev_msg where t: "event_loop_thread s = InLoop prev_msg" by (auto simp: looping_def split: event_thread.splits)
    from Cons(3) t have f: "f \<noteq> FetchQuit" "prev_msg = None \<longrightarrow> f \<noteq> FetchError" by (auto simp: no_quit_def)
    have rest: "wp (event_loop api fs) ?Q s'"
      if s': "accounted s'" "event_loop_thread s' = InLoop (Some m)" "\<forall>m. f = Fetched m \<longrightarrow> tray_icon_window s' = (fst m \<noteq> WM_CLOSE)" for s' m
    proof -
      have "looping s'" "no_quit s' fs" using that Cons(3) by (auto simp: looping_def no_quit_def)
      from Cons(1) [OF this] show ?thesis by (rule wp_mono) (use s'(2,3) True in auto)
    qed
    from Cons(2) have acc: "accounted s" by (simp add: looping_def)
    have "wp (loop_body api f prev_msg) (\<lambda>r s'. case r of Inl e \<Rightarrow> ?Q (Inl e) s' | Inr _ \<Rightarrow> wp (event_loop api fs) ?Q s') s"
    proof (rule wp_mono [OF wp_loop_body [OF acc _ t f]], goal_cases)
      case (2 r s')
      then obtain m where "event_loop_thread s' = InLoop (Some m)" by blast
      with 2 have "wp (event_loop api fs) ?Q s'" by (intro rest [of s' m]) blast+
      with 2 show ?case by (simp only: sum.case)
    qed (use True in simp)
    with True t show ?thesis by (simp add: loop_condition_def) (erule wp_mono, auto elim!: wp_mono split: sum.splits)
  next
    case False
    with Cons(2) have "event_loop_thread s = LoopEnded \<or> \<not> tray_icon_window s \<and> (\<exists>m. event_loop_thread s = InLoop m)"
      by (auto simp: looping_def split: event_thread.splits)
    with Cons(2) show ?thesis
      by (auto simp: loop_condition_def looping_def intro!: wp_mono [OF ended])
  qed
qed

lemma wp_tray_delete:
  assumes "looping s" and "no_quit s fs" and "\<And>n. api PostClose n"
  shows "wp (TrayMenuManager_delete api fs) (\<lambda>r s'. r = Inr () \<and> looping s' \<and> event_loop_thread s' = LoopEnded) s"
proof -
  let ?s = "if tray_icon_window s then s\<lparr>calls := calls s @ [(PostClose, True)]\<rparr> else s"
  let ?fs = "fs @ (if tray_icon_window s then [Fetched (WM_CLOSE, 0, 0)] else [])"
  have "looping ?s" "no_quit ?s ?fs" using assms(1,2) by (auto simp: looping_def no_quit_def hd_append split: event_thread.splits)
  from wp_event_loop [OF this, of api] have "wp (event_loop api ?fs) (\<lambda>r s'. r = Inr () \<and> looping s' \<and> event_loop_thread s' = LoopEnded) ?s"
    by (rule wp_mono) (auto split: if_splits)
  moreover have "event_loop_thread ?s \<noteq> NoThread" using assms(1) by (auto simp: looping_def)
  ultimately show ?thesis
    using assms(3) by (auto simp: TrayMenuManager_delete_def split: if_splits elim!: wp_mono)
qed

lemma wp_initialise:
  "wp (initialise api) (\<lambda>r s. r = Inr (init_succeeded s) \<and> looping s \<and> event_loop_thread s = InLoop None
     \<and> tray_icon_window s = init_succeeded s) TrayMenuManager_new"
proof -
  have "wp (window_thread_init api) (\<lambda>r s'. r = Inr () \<and> accounted s' \<and> tray_icon_window s' = init_succeeded s'
      \<and> event_loop_thread s' = event_loop_thread s) s"
    if "s = TrayMenuManager_new\<lparr>initialised := True, event_loop_thread := InLoop None\<rparr>" for s
    using that by (intro init_accounted) (simp_all add: TrayMenuManager_new_def)
  then show ?thesis
    by (auto simp: initialise_def TrayMenuManager_new_def looping_def elim!: wp_mono)
qed

text \<open>One message other than \<open>WM_CLOSE\<close>.\<close>

lemma wp_one_message:
  assumes "looping s" and "tray_icon_window s" and "fst m \<noteq> WM_CLOSE"
  shows "wp (event_loop api [Fetched m]) (\<lambda>r s'. r = Inr () \<and> looping s' \<and> tray_icon_window s'
     \<and> quit_calls s' = quit_calls s + of_bool (quits m) \<and> (alloced_console s \<longrightarrow> alloced_console s')) s"
proof -
  from assms(1,2) obtain prev_msg where t: "event_loop_thread s = InLoop prev_msg" and acc: "accounted s"
    by (auto simp: looping_def split: event_thread.splits)
  have "wp (loop_body api (Fetched m) prev_msg) (\<lambda>r s'. r = Inr () \<and> accounted s' \<and> (\<exists>m. event_loop_thread s' = InLoop (Some m))
     \<and> tray_icon_window s' \<and> quit_calls s' = quit_calls s + of_bool (quits m) \<and> (alloced_console s \<longrightarrow> alloced_console s')) s"
    by (rule wp_mono [OF wp_loop_body [OF acc assms(2) t]]) (use assms(3) in auto)
  with assms(2) t show ?thesis by (auto simp: loop_condition_def looping_def elim!: wp_mono)
qed

text \<open>A \<open>WM_QUIT\<close> that is fetched while the window exists ends the thread and nothing is given back then.\<close>

lemma quit_message_keeps_resources:
  assumes "looping s" and "tray_icon_window s"
  shows "wp (event_loop api [FetchQuit]) (\<lambda>r s'. r = Inr () \<and> event_loop_thread s' = LoopEnded \<and> tray_icon_window s' \<and> calls s' = calls s) s"
  using assms by (auto simp: looping_def loop_condition_def loop_body_def split: event_thread.splits)

definition all_released :: "TrayMenuManager \<Rightarrow> bool" where
  "all_released s \<longleftrightarrow> held RegisterClass UnregisterClass (calls s) = 0 \<and> held CreateWindowEx DestroyWindow (calls s) = 0
     \<and> held ExtractIcon DestroyIcon (calls s) = 0 \<and> held NotifyIconAdd NotifyIconDelete (calls s) = 0"

lemma looping_ended: "looping s \<Longrightarrow> event_loop_thread s = LoopEnded \<Longrightarrow> \<not> tray_icon_window s \<and> all_released s"
  by (simp add: looping_def accounted_def all_released_def)



end
