(* ===== verification/Program.thy ===== *)
theory Program
  imports Device_Tracker Tray_Menu
begin

text \<open>
  \<open>nandroidfs/main.cpp\<close>: the loop that scans for devices until shutdown is requested, and the
  entry point. Its state is the tray menu, the device tracker and whether Dokan is initialised. What the other threads
  do meanwhile is a parameter: before the first scan and after every scan a list of background events happens, which
  may depend on the state: a result of \<open>GetMessage\<close> in the tray menu's thread, a console signal, or a callback of a drive that
  unmounts its device. The scans and the unmounts exclude each other by \<open>device_man_mtx\<close>, and the
  flag is read under \<open>shutdown_mutex\<close>. Message boxes and logging have no counterpart.
\<close>

section \<open>State\<close>

record ('s, 'k) program =
  tray_menu :: TrayMenuManager
  device_tracker :: "('s, 'k) DeviceTracker"
  dokan_initialised :: bool

datatype background_event = TrayFetch fetched | ConsoleSignal u32 | DriveUnmount nat

type_synonym ('s, 'k) background = "nat \<Rightarrow> ('s, 'k) program \<Rightarrow> background_event list"

definition trayM :: "(TrayMenuManager, 'a) M \<Rightarrow> (('s, 'k) program, 'a) M" where
  "trayM m = (\<lambda>w. case m (tray_menu w) of None \<Rightarrow> None | Some (r, t) \<Rightarrow> Some (r, w\<lparr>tray_menu := t\<rparr>))"

definition trackerM :: "(('s, 'k) DeviceTracker, 'a) M \<Rightarrow> (('s, 'k) program, 'a) M" where
  "trackerM m = (\<lambda>w. case m (device_tracker w) of None \<Rightarrow> None | Some (r, t) \<Rightarrow> Some (r, w\<lparr>device_tracker := t\<rparr>))"

text \<open>The flag is set by the callback that the tray menu calls to quit, and by nothing else.\<close>

definition shutdown_requested :: "('s, 'k) program \<Rightarrow> bool" where
  "shutdown_requested w \<longleftrightarrow> 0 < quit_calls (tray_menu w)"

section \<open>Operations\<close>

text \<open>
  The console handler is installed with the console. An exception that leaves a callback of Dokan ends the process.
\<close>

fun background_step :: "win_api \<Rightarrow> ('p, 'k, 's, 'a) host \<Rightarrow> background_event \<Rightarrow> (('s, 'k) program, unit) M" where
  "background_step api H (TrayFetch f) = trayM (event_loop api [f])"
| "background_step api H (ConsoleSignal sig) =
     bindM (getM (\<lambda>w. alloced_console (tray_menu w))) (\<lambda>alloced.
       if alloced then thenM (trayM (console_handler sig)) (returnM ()) else returnM ())"
| "background_step api H (DriveUnmount handle) =
     catchM (trackerM (unmount_device H handle)) (\<lambda>e. throwM (if is_exception e then ProcessAbort else e))"

fun run_background :: "win_api \<Rightarrow> ('p, 'k, 's, 'a) host \<Rightarrow> background_event list \<Rightarrow> (('s, 'k) program, unit) M" where
  "run_background api H [] = returnM ()"
| "run_background api H (ev # evs) = thenM (background_step api H ev) (run_background api H evs)"

partial_function (option) scan_loop ::
  "win_api \<Rightarrow> bucket_order \<Rightarrow> ('p, 'k, 's, 'a) host \<Rightarrow> ('s, 'k) background \<Rightarrow> nat \<Rightarrow> ('s, 'k) program
     \<Rightarrow> ((exn + unit) \<times> ('s, 'k) program) option" where
  "scan_loop api order H background n w =
     (if shutdown_requested w then returnM ()
      else bindM (trackerM (update_connected_devices order H)) (\<lambda>_.
           bindM (\<lambda>w. run_background api H (background (Suc n) w) w) (\<lambda>_.
           scan_loop api order H background (Suc n)))) w"

declare scan_loop.simps [code]

text \<open>
  The tracker is a local variable: its destructor runs when the function returns and when an
  exception leaves it.
\<close>

definition with_tracker :: "bucket_order \<Rightarrow> ('p, 'k, 's, 'a) host \<Rightarrow> (('s, 'k) program, unit) M \<Rightarrow> (('s, 'k) program, unit) M" where
  "with_tracker order H body =
     thenM (catchM body (\<lambda>e. if is_exception e then thenM (trackerM (DeviceTracker_delete order H)) (throwM e) else throwM e))
           (trackerM (DeviceTracker_delete order H))"

definition scan_for_devices ::
  "win_api \<Rightarrow> bucket_order \<Rightarrow> ('p, 'k, 's, 'a) host \<Rightarrow> ('s, 'k) background \<Rightarrow> (('s, 'k) program, unit) M" where
  "scan_for_devices api order H background =
     thenM (modifyM (\<lambda>w. w\<lparr>device_tracker := DeviceTracker_new (tracker_process (device_tracker w))\<rparr>))
    (with_tracker order H
       (thenM (\<lambda>w. run_background api H (background 0 w) w)
              (scan_loop api order H background 0)))"

definition ERROR_SUCCESS :: u32 where "ERROR_SUCCESS = 0"
definition ERROR_ALREADY_EXISTS :: u32 where "ERROR_ALREADY_EXISTS = 183"

text \<open>Whether the program may start, and whether the user is told that it is running already.\<close>

definition prompt_if_already_running :: "u32 \<Rightarrow> bool \<times> bool" where
  "prompt_if_already_running last_error =
     (if last_error = ERROR_SUCCESS then (True, False)
      else if last_error = ERROR_ALREADY_EXISTS then (False, True)
      else (False, False))"

text \<open>
  The part of \<open>WinMain\<close> after the set-up of the tray menu: the body with its handler, and the destructor of the tray
  menu, which runs when the function returns. \<open>closing\<close> is what the tray menu's thread fetches after the loop has ended.
\<close>

definition run_and_close :: "win_api \<Rightarrow> fetched list \<Rightarrow> (('s, 'k) program, unit) M \<Rightarrow> (('s, 'k) program, int) M" where
  "run_and_close api closing body =
     bindM (catchM (thenM (modifyM (\<lambda>w. w\<lparr>dokan_initialised := True\<rparr>))
                   (thenM body
                   (thenM (modifyM (\<lambda>w. w\<lparr>dokan_initialised := False\<rparr>))
                          (returnM 0))))
                   (\<lambda>e. if is_exception e then thenM (modifyM (\<lambda>w. w\<lparr>dokan_initialised := False\<rparr>)) (returnM 1) else throwM e))
           (\<lambda>code. thenM (trayM (TrayMenuManager_delete api closing)) (returnM code))"

definition program_start :: "'k adb_state \<Rightarrow> ('s, 'k) program" where
  "program_start p = \<lparr>tray_menu = TrayMenuManager_new, device_tracker = DeviceTracker_new p, dokan_initialised = False\<rparr>"

text \<open>The first argument is the result of \<open>GetLastError\<close> after \<open>CreateMutex\<close>.\<close>

definition WinMain ::
  "u32 \<Rightarrow> win_api \<Rightarrow> bucket_order \<Rightarrow> ('p, 'k, 's, 'a) host \<Rightarrow> ('s, 'k) background \<Rightarrow> fetched list \<Rightarrow> (('s, 'k) program, int) M" where
  "WinMain last_error api order H background closing =
     (if \<not> fst (prompt_if_already_running last_error) then returnM 1
      else case TrayMenuManager_construct False of
             Inl e \<Rightarrow> throwM e
           | Inr tray \<Rightarrow>
               thenM (modifyM (\<lambda>w. w\<lparr>tray_menu := tray\<rparr>))
              (thenM (trayM (initialise api))
                     (run_and_close api closing (scan_for_devices api order H background))))"

section \<open>Lemmas\<close>

lemma wp_trayM [simp]: "wp (trayM m) Q w \<longleftrightarrow> wp m (\<lambda>r t. Q r (w\<lparr>tray_menu := t\<rparr>)) (tray_menu w)"
  by (auto simp: wp_def trayM_def split: option.split)

lemma wp_trackerM [simp]: "wp (trackerM m) Q w \<longleftrightarrow> wp m (\<lambda>r t. Q r (w\<lparr>device_tracker := t\<rparr>)) (device_tracker w)"
  by (auto simp: wp_def trackerM_def split: option.split)

lemma wp_scan_loop:
  "wp (scan_loop api order H background n) Q w \<longleftrightarrow>
     (if shutdown_requested w then Q (Inr ()) w
      else wp (trackerM (update_connected_devices order H)) (\<lambda>r w. case r of Inl e \<Rightarrow> Q (Inl e) w
        | Inr _ \<Rightarrow> wp (run_background api H (background (Suc n) w)) (\<lambda>r w. case r of Inl e \<Rightarrow> Q (Inl e) w
        | Inr _ \<Rightarrow> wp (scan_loop api order H background (Suc n)) Q w) w) w)"
proof -
  have "wp (\<lambda>w. run_background api H (background k w) w) Q w = wp (run_background api H (background k w)) Q w" for k Q w
    by (simp add: wp_def)
  moreover have "wp (scan_loop api order H background n) Q w = wp (if shutdown_requested w then returnM ()
      else bindM (trackerM (update_connected_devices order H)) (\<lambda>_.
           bindM (\<lambda>w. run_background api H (background (Suc n) w) w) (\<lambda>_. scan_loop api order H background (Suc n)))) Q w"
    unfolding wp_def by (subst scan_loop.simps) simp
  ultimately show ?thesis by (simp only: wp_if wp_returnM wp_bindM)
qed

text \<open>
  Background events that the program can cope with: the tray menu's thread fetches ordinary messages only, and
  every object is unmounted at most once, while it is alive.
\<close>

fun unmounted :: "background_event list \<Rightarrow> nat list" where
  "unmounted [] = []"
| "unmounted (DriveUnmount handle # evs) = handle # unmounted evs"
| "unmounted (ev # evs) = unmounted evs"

definition orderly :: "background_event list \<Rightarrow> ('s, 'k) program \<Rightarrow> bool" where
  "orderly evs w \<longleftrightarrow> (\<forall>f. TrayFetch f \<in> set evs \<longrightarrow> (\<exists>m. f = Fetched m \<and> fst m \<noteq> WM_CLOSE))
     \<and> distinct (unmounted evs) \<and> set (unmounted evs) \<subseteq> dom (objects (device_tracker w))"

text \<open>The user quits: from the menu, or by Ctrl+C in the console.\<close>

definition asks_to_quit :: "background_event list \<Rightarrow> ('s, 'k) program \<Rightarrow> bool" where
  "asks_to_quit evs w \<longleftrightarrow> (\<exists>m. TrayFetch (Fetched m) \<in> set evs \<and> quits m)
     \<or> alloced_console (tray_menu w) \<and> ConsoleSignal CTRL_C_EVENT \<in> set evs"

text \<open>The state between two scans.\<close>

definition running :: "('s, 'k) program \<Rightarrow> bool" where
  "running w \<longleftrightarrow> tracker_inv (device_tracker w) \<and> looping (tray_menu w) \<and> tray_icon_window (tray_menu w)"

lemma runningD: "running w \<Longrightarrow> tracker_inv (device_tracker w)"
  by (simp add: running_def)

context closing_host
begin

lemma wp_background_step:
  fixes w :: "('s, 'k) program"
  assumes "running w" and "orderly (ev # evs) w"
  shows "wp (background_step api H ev) (\<lambda>r w'. r = Inr () \<and> running w' \<and> orderly evs w' \<and> dokan_initialised w' = dokan_initialised w
     \<and> (alloced_console (tray_menu w) \<longrightarrow> alloced_console (tray_menu w'))
     \<and> (shutdown_requested w \<or> asks_to_quit [ev] w \<longrightarrow> shutdown_requested w')) w"
proof (cases ev)
  case (TrayFetch f)
  with assms(2) obtain m where m: "f = Fetched m" "fst m \<noteq> WM_CLOSE" by (auto simp: orderly_def)
  from assms(1) have "wp (event_loop api [Fetched m]) (\<lambda>r s'. r = Inr () \<and> looping s' \<and> tray_icon_window s'
     \<and> quit_calls s' = quit_calls (tray_menu w) + of_bool (quits m) \<and> (alloced_console (tray_menu w) \<longrightarrow> alloced_console s')) (tray_menu w)"
    using m(2) by (intro wp_one_message) (simp_all add: running_def)
  then show ?thesis
    unfolding TrayFetch m(1) background_step.simps wp_trayM
    by (rule wp_mono) (use assms TrayFetch in \<open>auto simp: running_def orderly_def shutdown_requested_def asks_to_quit_def\<close>)
next
  case (ConsoleSignal sig)
  then show ?thesis
    using assms
    by (auto simp: running_def orderly_def shutdown_requested_def asks_to_quit_def console_handler_def looping_def split: event_thread.splits)
next
  case (DriveUnmount handle)
  with assms(2) obtain obj where "objects (device_tracker w) handle = Some obj" by (auto simp: orderly_def)
  from wp_unmount_device [OF _ this] assms(1) have "wp (unmount_device H handle) (\<lambda>r t'. r = Inr () \<and> tracker_inv t'
      \<and> objects t' = (objects (device_tracker w))(handle := None)) (device_tracker w)"
    by (auto simp: running_def shrinks_def elim!: wp_mono)
  then show ?thesis
    unfolding DriveUnmount background_step.simps wp_catchM wp_trackerM
    by (rule wp_mono) (use assms DriveUnmount in \<open>auto simp: running_def orderly_def shutdown_requested_def asks_to_quit_def\<close>)
qed

lemma wp_run_background:
  fixes w :: "('s, 'k) program"
  assumes "running w" and "orderly evs w"
  shows "wp (run_background api H evs) (\<lambda>r w'. r = Inr () \<and> running w' \<and> dokan_initialised w' = dokan_initialised w
     \<and> (shutdown_requested w \<or> asks_to_quit evs w \<longrightarrow> shutdown_requested w')) w"
  using assms
proof (induction evs arbitrary: w)
  case Nil
  then show ?case by (simp add: asks_to_quit_def)
next
  case (Cons ev evs)
  show ?case
    unfolding run_background.simps wp_thenM
  proof (rule wp_mono [OF wp_background_step [OF Cons(2,3)]], goal_cases)
    case (1 r w')
    then have "wp (run_background api H evs) (\<lambda>r w''. r = Inr () \<and> running w'' \<and> dokan_initialised w'' = dokan_initialised w'
     \<and> (shutdown_requested w' \<or> asks_to_quit evs w' \<longrightarrow> shutdown_requested w'')) w'"
      by (intro Cons(1)) auto
    with 1 show ?case by (auto simp: asks_to_quit_def elim!: wp_mono)
  qed
qed

lemma wp_with_tracker:
  assumes "wp body (\<lambda>r w'. P r w' \<and> tracker_inv (device_tracker w') \<and> (\<forall>e. r = Inl e \<longrightarrow> is_exception e)) w"
    and "\<And>xs. mset (order xs) = mset xs"
    and "\<And>r w' t. \<lbrakk>P r w'; instances t = instances (device_tracker w'); objects t = Map.empty\<rbrakk> \<Longrightarrow> Q r (w'\<lparr>device_tracker := t\<rparr>)"
  shows "wp (with_tracker order H body) Q w"
  unfolding with_tracker_def wp_thenM wp_catchM wp_trackerM
  by (rule wp_mono [OF assms(1)])
     (auto split: sum.splits intro!: wp_mono [OF wp_DeviceTracker_delete [OF _ assms(2)]] assms(3))

end

context responsive_host
begin

lemma wp_scan_loop_ends:
  fixes w :: "('s, 'k) program"
  assumes "\<And>xs. set (order xs) = set xs"
    and "\<And>p. \<exists>listing. wp (invoke_adb (adb_api H) (wide ''devices'')) (\<lambda>r _. r = Inr listing) p"
    and "\<And>n (w :: ('s, 'k) program). tracker_inv (device_tracker w) \<Longrightarrow> orderly (background n w) w" and "\<And>w. asks_to_quit (background stop w) w"
    and "running w" and "n \<le> stop" and "n = stop \<longrightarrow> shutdown_requested w"
  shows "wp (scan_loop api order H background n) (\<lambda>r w'. r = Inr () \<and> running w' \<and> dokan_initialised w' = dokan_initialised w) w"
  using assms(5-7)
proof (induction "stop - n" arbitrary: n w)
  case 0
  then show ?case by (simp add: wp_scan_loop)
next
  case (Suc d)
  obtain listing where "wp (invoke_adb (adb_api H) (wide ''devices'')) (\<lambda>r _. r = Inr listing) (tracker_process (device_tracker w))"
    using assms(2) by blast
  from wp_update [OF _ assms(1) this] Suc(3)
  have scan: "wp (update_connected_devices order H) (\<lambda>r t'. r = Inr () \<and> tracker_inv t') (device_tracker w)"
    by (auto simp: scanned_def running_def elim!: wp_mono)
  have rest: "wp (run_background api H (background (Suc n) w1)) (\<lambda>r w'. case r of Inl e \<Rightarrow> False
      | Inr _ \<Rightarrow> wp (scan_loop api order H background (Suc n)) (\<lambda>r w'. r = Inr () \<and> running w' \<and> dokan_initialised w' = dokan_initialised w) w') w1"
    if "running w1" "dokan_initialised w1 = dokan_initialised w" for w1
  proof (rule wp_mono [OF wp_run_background [OF that(1)]], goal_cases)
    case 1
    then show ?case using assms(3) that(1) by (simp add: running_def)
  next
    case (2 r w')
    with assms(4) [of w1] Suc(2) that(2) show ?case by (auto intro!: wp_mono [OF Suc(1)])
  qed
  show ?case
    unfolding wp_scan_loop [where n = n] wp_trackerM
    using Suc(3) by (auto simp: running_def split: sum.splits intro!: wp_mono [OF scan] wp_mono [OF rest])
qed

end

text \<open>The end of the program after its body: the exit code, and the tray menu is taken down.\<close>

lemma wp_run_and_close:
  assumes "wp body (\<lambda>r w'. P r w' \<and> looping (tray_menu w') \<and> no_quit (tray_menu w') closing \<and> (\<forall>e. r = Inl e \<longrightarrow> is_exception e)) (w\<lparr>dokan_initialised := True\<rparr>)"
    and "\<And>n. api PostClose n"
  shows "wp (run_and_close api closing body) (\<lambda>r w'. event_loop_thread (tray_menu w') = LoopEnded \<and> all_released (tray_menu w') \<and> \<not> dokan_initialised w'
     \<and> (\<exists>r' w''. P r' w'' \<and> device_tracker w' = device_tracker w'' \<and> r = Inr (case r' of Inl _ \<Rightarrow> 1 | Inr _ \<Rightarrow> 0))) w"
proof -
  have close: "wp (TrayMenuManager_delete api closing) (\<lambda>r s'. r = Inr () \<and> event_loop_thread s' = LoopEnded \<and> all_released s') s"
    if "looping s" "no_quit s closing" for s
    using that looping_ended by (auto intro!: wp_mono [OF wp_tray_delete [where api = api, OF _ _ assms(2)]])
  show ?thesis
    unfolding run_and_close_def wp_bindM wp_catchM wp_thenM wp_modifyM sum.case
    by (rule wp_mono [OF assms(1)]) (auto split: sum.splits intro!: wp_mono [OF close])
qed

text \<open>
  C15: the program on a responsive host where adb answers and the tray menu comes up. Once the user quits, by the
  menu or by Ctrl+C in the console, the program ends, whatever the devices did before and whichever drives
  were unmounted by their own callbacks between the scans: the exit code is 0, every device object is destroyed without a
  hang or a crash, the tray menu's thread has ended, what the tray menu took has been given back, and Dokan is shut down. This needs that no callback
  unmounts an object that is destroyed already, and that no closing message reaches the tray menu before its destructor.
\<close>

theorem program_shuts_down:
  fixes background :: "('s, 'k) background"
  assumes "responsive_host H" and "\<And>xs. mset (order xs) = mset xs"
    and "\<And>p. \<exists>listing. wp (invoke_adb (adb_api H) (wide ''devices'')) (\<lambda>r _. r = Inr listing) p"
    and "wp (initialise api) (\<lambda>r _. r = Inr True) TrayMenuManager_new" and "\<And>n. api PostClose n"
    and "\<And>n w. tracker_inv (device_tracker w) \<Longrightarrow> orderly (background n w) w"
    and "\<And>w. asks_to_quit (background stop w) w"
    and "\<And>f. f \<in> set closing \<Longrightarrow> \<exists>m. f = Fetched m"
  shows "wp (WinMain ERROR_SUCCESS api order H background closing) (\<lambda>r w'. r = Inr 0 \<and> objects (device_tracker w') = Map.empty
     \<and> event_loop_thread (tray_menu w') = LoopEnded \<and> all_released (tray_menu w') \<and> \<not> dokan_initialised w') (program_start p)"
proof -
  note closing = responsive_host.axioms(1) [OF assms(1)]
  have set_order: "set (order xs) = set xs" for xs using mset_eq_setD [OF assms(2)] .
  have quiet: "no_quit s closing" for s using assms(8) by (cases closing) (auto simp: no_quit_def)
  have loop: "wp (thenM (\<lambda>w. run_background api H (background 0 w) w) (scan_loop api order H background 0))
      (\<lambda>r w'. (r = Inr () \<and> running w') \<and> tracker_inv (device_tracker w') \<and> (\<forall>e. r = Inl e \<longrightarrow> is_exception e)) w" if "running w" for w
  proof -
    have "wp (run_background api H (background 0 w)) (\<lambda>r w'. r = Inr () \<and> running w' \<and> (0 = stop \<longrightarrow> shutdown_requested w')) w"
      by (rule wp_mono [OF closing_host.wp_run_background [OF closing that]])
         (use that assms(6,7) in \<open>auto simp: running_def\<close>)
    then have "wp (\<lambda>w. run_background api H (background 0 w) w) (\<lambda>r w'. r = Inr () \<and> running w' \<and> (0 = stop \<longrightarrow> shutdown_requested w')) w"
      by (simp add: wp_def)
    then show ?thesis
      unfolding wp_thenM
      by (rule wp_mono) (auto simp: runningD intro!: wp_mono [OF responsive_host.wp_scan_loop_ends
            [where order = order and background = background and stop = stop, OF assms(1) set_order assms(3,6,7)]])
  qed
  have scan: "wp (scan_for_devices api order H background) (\<lambda>r w'. (r = Inr () \<and> objects (device_tracker w') = Map.empty)
      \<and> looping (tray_menu w') \<and> no_quit (tray_menu w') closing \<and> (\<forall>e. r = Inl e \<longrightarrow> is_exception e)) w"
    if "looping (tray_menu w)" "tray_icon_window (tray_menu w)" for w
    unfolding scan_for_devices_def wp_thenM wp_modifyM sum.case
    by (rule closing_host.wp_with_tracker [where order = order, OF closing loop assms(2)]) (use that tracker_inv_new quiet in \<open>auto simp: running_def\<close>)
  have up: "wp (initialise api) (\<lambda>r s. r = Inr True \<and> looping s \<and> tray_icon_window s) TrayMenuManager_new"
    using assms(4) wp_initialise [of api] by (auto simp: wp_def split: option.splits)
  show ?thesis
    by (auto simp: WinMain_def prompt_if_already_running_def TrayMenuManager_construct_def program_start_def
        intro!: wp_mono [OF up] wp_mono [OF wp_run_and_close [where closing = closing and api = api, OF scan assms(5)]])
qed

lemma ex_adb_answers:
  "\<exists>listing. wp (invoke_adb (adb_api (ex_host ready)) (wide ''devices'')) (\<lambda>r _. r = Inr listing) p"
  using ex_machine.wp_invoke_adb [of "Some (wide ''C:/nandroidfs/nandroidfs.exe'')" "wide ''devices''" p]
  by (intro exI, auto simp: ex_host_def elim!: wp_mono)

text \<open>A run in which the drive of the first device is unmounted by a callback, the console is opened, and the user quits after the third scan.\<close>

definition ex_background :: "(sock, string list) background" where
  "ex_background n w =
     (if n = 3 then [TrayFetch (Fetched (WM_COMMAND, 1, 0))]
      else if objects (device_tracker w) 0 = None then [TrayFetch (Fetched (WM_COMMAND, 2, 0))] else [DriveUnmount 0])"

lemma ex_background_quits: "asks_to_quit (ex_background 3 w) w"
proof -
  have "quits (WM_COMMAND, 1, 0)" by code_simp
  then show ?thesis by (auto simp: asks_to_quit_def ex_background_def)
qed

lemma ex_background_orderly: "orderly (ex_background n w) w"
proof -
  have "WM_COMMAND \<noteq> WM_CLOSE" by (simp add: message_defs)
  then show ?thesis by (auto simp: orderly_def ex_background_def)
qed

lemma ex_tray_up: "wp (initialise (\<lambda>_ _. True)) (\<lambda>r _. r = Inr True) TrayMenuManager_new"
  by (simp add: initialise_def window_thread_init_def initialise_internal_def register_window_class_def load_window_icon_def
      create_rightclick_menu_def update_rightclick_menu_def TrayMenuManager_new_def)

theorem program_shuts_down_witness:
  "wp (WinMain ERROR_SUCCESS (\<lambda>_ _. True) rev (ex_host (AGENT_READY_MSG @ [newline])) ex_background []) (\<lambda>r w'. r = Inr 0
     \<and> objects (device_tracker w') = Map.empty \<and> event_loop_thread (tray_menu w') = LoopEnded \<and> all_released (tray_menu w') \<and> \<not> dokan_initialised w')
     (program_start ex_process)"
  by (rule program_shuts_down [where background = ex_background and stop = 3, OF ex_host.responsive_host_axioms])
     (simp_all add: ex_adb_answers ex_tray_up ex_background_orderly ex_background_quits)

text \<open>
  C23: a single failure of \<open>adb devices\<close> ends the program. From any state between two scans in which shutdown is not requested,
  the exception leaves the loop at once: no device has been connected or removed by that scan, the destructor of the
  tracker destroys the objects of all mounted devices and returns, the handler of \<open>WinMain\<close> shuts Dokan down, the tray menu
  is taken down, and the exit code is 1.
\<close>

theorem program_ends_with_adb:
  assumes "closing_host H" and "\<And>xs. mset (order xs) = mset xs" and "\<And>n. api PostClose n"
    and "tracker_inv (device_tracker w)" and "looping (tray_menu w)" and "no_quit (tray_menu w) closing" and "\<not> shutdown_requested w"
    and "wp (invoke_adb (adb_api H) (wide ''devices'')) (\<lambda>r _. r = Inl e) (tracker_process (device_tracker w))" and "is_exception e"
  shows "wp (run_and_close api closing (with_tracker order H (scan_loop api order H background n))) (\<lambda>r w'. r = Inr 1
     \<and> instances (device_tracker w') = instances (device_tracker w) \<and> objects (device_tracker w') = Map.empty
     \<and> event_loop_thread (tray_menu w') = LoopEnded \<and> all_released (tray_menu w') \<and> \<not> dokan_initialised w') w"
proof -
  let ?w = "w\<lparr>dokan_initialised := True\<rparr>"
  have "wp (update_connected_devices order H) (\<lambda>r t'. r = Inl e \<and> instances t' = instances (device_tracker w) \<and> tracker_inv t') (device_tracker w)"
    using assms(4,8) by (auto simp: update_connected_devices_def list_authorized_adb_devices_def elim!: wp_mono)
  then have loop: "wp (scan_loop api order H background n) (\<lambda>r w'. (r = Inl e \<and> instances (device_tracker w') = instances (device_tracker w)
      \<and> tray_menu w' = tray_menu w) \<and> tracker_inv (device_tracker w') \<and> (\<forall>e. r = Inl e \<longrightarrow> is_exception e)) ?w"
    using assms(7,9) by (subst wp_scan_loop) (auto simp: shutdown_requested_def elim!: wp_mono)
  have "wp (with_tracker order H (scan_loop api order H background n)) (\<lambda>r w'. (r = Inl e \<and> instances (device_tracker w') = instances (device_tracker w)
      \<and> objects (device_tracker w') = Map.empty) \<and> looping (tray_menu w') \<and> no_quit (tray_menu w') closing \<and> (\<forall>e. r = Inl e \<longrightarrow> is_exception e)) ?w"
    by (rule closing_host.wp_with_tracker [where order = order, OF assms(1) loop assms(2)]) (use assms(5,6,9) in auto)
  from wp_run_and_close [where api = api, OF this assms(3)] show ?thesis by (rule wp_mono) auto
qed

definition ex_broken_adb :: "(unit, string list, sock, unit) host" where
  "ex_broken_adb = (ex_host [])\<lparr>adb_api := (ex_adb None)\<lparr>create_process := (\<lambda>cmd k. (None, k))\<rparr>\<rparr>"

lemmas broken_adb_defs = ex_broken_adb_def invoke_adb_def invoke_adb_with_serial_def find_adb_path_def adb_install_exists_def store_adb_path_def
  invoke_throw_on_nonzero_def invoke_process_capture_output_string_def invoke_process_capture_output_def create_stdouterr_pipes_def
  requireM_def create_process_pipe_output_def ex_adb_def is_exception_def

interpretation ex_broken: closing_host ex_broken_adb
  by unfold_locales (auto simp: broken_adb_defs ex_host_def split: option.split)

text \<open>The device of the example is mounted, and the set-up of the tray menu failed.\<close>

definition ex_running :: "(sock, string list) program" where
  "ex_running = \<lparr>tray_menu = TrayMenuManager_new\<lparr>event_loop_thread := LoopEnded\<rparr>, device_tracker = ex_mounted, dokan_initialised = True\<rparr>"

theorem program_ends_with_adb_witness:
  "wp (run_and_close (\<lambda>_ _. True) [] (with_tracker rev ex_broken_adb (scan_loop (\<lambda>_ _. True) rev ex_broken_adb ex_background 0))) (\<lambda>r w'. r = Inr 1
     \<and> instances (device_tracker w') = instances (device_tracker ex_running) \<and> objects (device_tracker w') = Map.empty
     \<and> event_loop_thread (tray_menu w') = LoopEnded \<and> all_released (tray_menu w') \<and> \<not> dokan_initialised w') ex_running"
proof (rule program_ends_with_adb [OF ex_broken.closing_host_axioms])
  show "tracker_inv (device_tracker ex_running)" by (simp add: ex_running_def ex_mounted_inv)
  show "wp (invoke_adb (adb_api ex_broken_adb) (wide ''devices'')) (\<lambda>r _. r = Inl (RuntimeError ''Failure in CreateProcess''))
      (tracker_process (device_tracker ex_running))"
    by (simp add: broken_adb_defs ex_running_def ex_mounted_def DeviceTracker_new_def ex_process_def)
qed (simp_all add: ex_running_def looping_def accounted_def no_quit_def shutdown_requested_def TrayMenuManager_new_def is_exception_def)

end
