(* ===== verification/Spec2Isabelle.thy ===== *)
theory Spec2Isabelle
  imports Drive Stat_Cache Traffic_Log Long_Paths Concurrent_Requests Daemon_Main Program Tray_Menu Logger
begin

text \<open>
  \<^bold>\<open>NandroidFS\<close> mounts the storage of an Android device as a Windows drive. Two programs share
  it: on the computer \<open>nandroidfs\<close>, which adb connects to the device and Dokan to the Windows
  file system; on the device \<open>nandroid-daemon\<close>, which carries out requests with POSIX calls. They
  speak a binary protocol over one TCP connection. This development models the C++ sources of both,
  and their shared library, as functions on explicit states, and proves what makes them correct.

  \<^bold>\<open>How the code is modelled.\<close> A stateful function is a computation of the monad \<open>M\<close> of \<open>Prelude\<close>:
  from an object state to either nothing (it does not return) or the new state with a result or
  an exception, keeping the changes made before a throw. \<open>wp\<close> is total correctness: it implies
  that the computation returns. Loops that need not end are least fixed points
  (\<open>partial_function (option)\<close>), the others are recursive functions with a termination proof; no
  fuel is used. Machine integers are words at their width. Undefined behaviour and the
  termination of the process are outcomes of their own, which no handler catches. What is outside
  the repository (sockets, POSIX, Windows, Dokan, adb, clocks, character conversion, hash order)
  is a parameter; what the code relies on is stated as a locale (\<open>tcp_socket\<close>, \<open>win_socket\<close>,
  \<open>unix_socket\<close>, \<open>posix_os\<close>, \<open>regular_file\<close>, \<open>dir_stream\<close>, \<open>process_output\<close>, \<open>adb_host\<close>,
  \<open>closing_host\<close>, \<open>responsive_host\<close>), and every locale is interpreted on a concrete instance.

  \<^bold>\<open>Shared library\<close> (\<open>nandroid_shared\<close>). \<open>Serialization\<close>: \<open>DataReader\<close> and \<open>DataWriter\<close>
  (\<open>serialization.cpp\<close>) with their buffers; a stream object is specified by the bytes it consumes
  and appends (\<open>transacts\<close>), whatever pieces the socket delivers. \<open>Requests\<close>, \<open>Responses\<close>: the
  enumerations and argument structures with readers and writers. \<open>Protocol\<close>: abstract requests and
  responses with their wire forms. \<open>Path_Utils\<close>: \<open>path_utils.cpp\<close>. \<open>Text_Lines\<close>: splitting of
  text into lines, as two functions of the program do it.

  \<^bold>\<open>Device side\<close> (\<open>nandroid_daemon\<close>). \<open>Sockets\<close>: reading and writing the socket, for both
  programs. \<open>Client_Handler\<close>: every handler and the message loop of \<open>ClientHandler.cpp\<close>.
  \<open>Daemon_Spec\<close>: the abstract daemon, \<open>respond\<close>, a function from a request and a device state to a
  response and a device state. \<open>Daemon_Refinement\<close>: each handler implements it. \<open>Ram_FS\<close>: a file
  system in memory for examples. \<open>Daemon\<close>: the session theorem and the properties of single
  requests. \<open>Response_Types\<close>: the type of response each request has, from the comments of
  \<open>requests.hpp\<close>, and that the type tells where a response ends. \<open>Daemon_Main\<close>: \<open>main.cpp\<close>.

  \<^bold>\<open>Computer side\<close> (\<open>nandroidfs\<close>). \<open>Conversion\<close>: status codes, times and paths
  (\<open>conversion.cpp\<close>). \<open>Timed_Cache\<close>: \<open>TimedCache.hpp\<close>, with the specification that a lookup gives
  the last stored value that is fresh and not invalidated; \<open>Stat_Cache\<close>: \<open>StatCache.cpp\<close>, the
  cache it has replaced, which gives the same answers. \<open>Connection\<close>: the request functions of
  \<open>Connection.cpp\<close> with their two caches; \<open>Connecting\<close>: its constructor and destructor;
  \<open>Traffic_Log\<close>: the byte counters and the log thread of its debug build;
  \<open>Client_Refinement\<close>, \<open>Client\<close>: what each request sends and returns, and what the caches may
  answer. \<open>Client_Limits\<close>: what a listing from the caches shows. \<open>Cache_History\<close>: the states of both caches after any
  sequence of calls, as functions of the calls and their answers alone. \<open>Long_Paths\<close>: what a call with a path too long
  for the protocol does to the next call. \<open>Request_Programs\<close>: the same
  request functions cut into the actions another thread may come between (taking and releasing
  \<open>request_mutex\<close>, one operation of a cache, one message written or read), and the proof that run
  without interruption they are the functions of \<open>Connection\<close>. \<open>Concurrency\<close>: several threads
  whose actions interleave in any order, with the invariants of the mutex and of the two streams;
  \<open>Concurrent_Requests\<close>: what the threads get. \<open>Operations\<close>: every Dokan callback of \<open>operations.cpp\<close> with its exception frame;
  a callback that fails leaves no connection behind, and a later one through the destroyed object is undefined
  behaviour. \<open>Drive\<close>: what opening, reading, writing, closing and deleting do. \<open>Adb\<close>: \<open>Adb.cpp\<close> and
  \<open>win_path_util.cpp\<close>. \<open>Nandroid\<close>: starting the daemon, waiting for it, mounting and taking down
  (\<open>Nandroid.cpp\<close>). \<open>Device_Tracker\<close>: \<open>DeviceTracker.cpp\<close>, with the objects on a heap and the table holding their
  addresses. \<open>Tray_Menu\<close>: \<open>TrayMenu.cpp\<close>, with the life of the window's thread and every result of \<open>GetMessage\<close>. \<open>Program\<close>:
  \<open>main.cpp\<close>, the scanning loop with what the other threads do between the scans, and the lifetimes of the tracker
  and of the tray menu. \<open>Logger\<close>: \<open>Logger.cpp\<close>.

  \<^bold>\<open>This theory\<close> puts the two programs together: a write through the drive is read back, a
  directory listing through the drive shows the device's entries, and the daemon's output makes the
  computer connect, which is what the daemon waits for.

  \<^bold>\<open>What the properties show.\<close> Refinement: the daemon's sessions follow \<open>respond\<close> and its whole
  life serves one client, which it lets in only after it has announced itself; mounting is the search through the letters \<open>D\<close> to \<open>Z\<close>. Concurrency:
  only the thread that holds the mutex touches the streams, every thread that ends has released it,
  and the calls of any number of threads, interleaved in any way, are answered as if they had been
  made one after the other in some order. Caching: a stat or a listing is answered without a request
  exactly when the history of the connection has a value for it that is at most 200 ms old and not
  invalidated since, and then with that value, otherwise with the daemon's answer. Types: every response
  has the type of its request, and no response is the beginning of another one of its type. Round trips: file contents and time stamps. Invariants:
  the caches, the file contexts of the callbacks, the tracker's table, the resources of the tray
  menu. Liveness and termination: every request is answered before the next is awaited, starting a
  device and destroying it return on a responsive host, and after a request to quit the program ends with
  every device object destroyed, the tray menu's thread joined and its resources given back, whichever drives were unmounted by their callbacks before.
  Errors: exceptions stay inside the callbacks, a lost daemon unmounts the drive; and the places
  where the code goes wrong: a failed seek, an oversized length or a path longer than a length field
  desynchronises the stream, a cached listing leaves out the entries whose stat is not fresh, listings
  of the root stay cached, a stat after a write is the old one, a device whose daemon cannot be
  launched terminates the program, a second unmount uses a destroyed object, one failing
  \<open>adb devices\<close> ends the program.

  \<^bold>\<open>Interleaving.\<close> The request functions of several Dokan threads interleave action by action in
  \<open>Concurrency\<close>; an operation of a cache is one action, because it holds the lock of the cache
  throughout (\<open>invalidate\<close> takes its lock twice, and \<open>Timed_Cache\<close> shows that it is one step all
  the same). Tracker operations hold \<open>device_man_mtx\<close> throughout and are one step each; in \<open>Program\<close> they interleave with
  the other threads as lists of events that may depend on the state. The daemon's output thread in \<open>Nandroid\<close> acts through explicit lists of events while another thread
  waits.

  \<^bold>\<open>Not modelled.\<close> Log output other than the daemon's lines and the logger itself, message boxes,
  what \<open>DokanInit\<close> and \<open>DokanShutdown\<close> do inside Dokan, the texts of \<open>what()\<close>, freeing
  of memory and handles that has no further effect, and \<open>nandroidfs/responses.cpp\<close>, which is
  not part of the build and contradicts the class it belongs to.
\<close>

section \<open>The computer and the device together\<close>

text \<open>
  The two programs of the system run on the two ends of one connection. \<open>linked V s V' d sent
  reply\<close> says that the computer's side \<open>s\<close> will receive \<open>reply\<close> and the device's side \<open>d\<close>,
  ready for its next request, will receive \<open>sent\<close>. A statement that the computer then sends
  exactly \<open>sent\<close> and the device exactly \<open>reply\<close> describes a run of the whole system.
\<close>

definition linked :: "'s sock_view \<Rightarrow> 's callback \<Rightarrow> 't sock_view \<Rightarrow> ('t, 'w) ClientHandler \<Rightarrow> u8 list \<Rightarrow> u8 list \<Rightarrow> bool" where
  "linked V s V' d sent reply \<longleftrightarrow> mounted_on V reply s
     \<and> ep_ok V' d \<and> in_of V' d = sent \<and> buffer_bytes_filled (writer d) = 0"

lemma conversed_trans:
  "conversed V r1 o1 s s1 \<Longrightarrow> conversed V r2 o2 s1 s2 \<Longrightarrow> conversed V r2 (o1 @ o2) s s2"
  by (auto simp: conversed_def)

lemma conversed_mounted: "conversed V rest sent s s' \<Longrightarrow> mounted_on V rest s'"
  by (auto simp: conversed_def mounted_on_def)

lemma conversed_file_info: "conversed V rest sent s s' \<Longrightarrow> file_info s' = file_info s"
  by (simp add: conversed_def)

text \<open>The computer's half: a write and a read of the same region, on the two responses.\<close>

lemma drive_write_then_read:
  fixes V :: "'s sock_view" and s :: "'s callback"
  assumes win: "win_socket (winsock env) V" and ctx: "fc_read_access ctx" "fc_write_access ctx" "fc_handle ctx \<noteq> NO_HANDLE"
    and len: "length bs < 2 ^ 31" and s: "Context (file_info s) = Some ctx"
    and m: "mounted_on V (response_bytes (RespStatus Success) @ response_bytes (RespData bs)) s"
    and n: "n = word_of_nat (length bs)"
  shows "wp (both (write_file env bs n off) (read_file env n off))
    (\<lambda>r s'. r = Inr ((STATUS_SUCCESS, Some n), (STATUS_SUCCESS, Some (n, bs)))
       \<and> conversed V [] (request_bytes (ReqWrite (fc_handle ctx) off bs)
           @ request_bytes (ReqRead \<lparr>rh_handle = fc_handle ctx, rh_data_len = n, rh_offset = off\<rparr>)) s s') s"
proof -
  let ?w = "request_bytes (ReqWrite (fc_handle ctx) off bs)"
  let ?r = "request_bytes (ReqRead \<lparr>rh_handle = fc_handle ctx, rh_data_len = n, rh_offset = off\<rparr>)"
  have w: "wp (write_file env bs n off) (\<lambda>r s'. r = Inr (STATUS_SUCCESS, Some n)
      \<and> conversed V (response_bytes (RespData bs)) ?w s s') s"
    using wp_write_file [OF win s ctx(2,3) m _ len] by (simp add: named_status_def n)
  have r: "wp (read_file env n off) (\<lambda>r s'. r = Inr (STATUS_SUCCESS, Some (n, bs)) \<and> conversed V [] (?w @ ?r) s s') s1"
    if s1: "conversed V (response_bytes (RespData bs)) ?w s s1" for s1
  proof (rule wp_mono)
    show "wp (read_file env n off) (\<lambda>r s'. r = Inr (STATUS_SUCCESS, Some (n, bs)) \<and> conversed V [] ?r s1 s') s1"
      using wp_read_file [OF win _ ctx(1,3), of s1 bs "[]" n off] s1 s len
      by (simp add: conversed_mounted conversed_file_info small_word n)
  qed (use conversed_trans [OF s1] in auto)
  have "wp (both (write_file env bs n off) (read_file env n off)) (\<lambda>r s'. \<exists>a b. r = Inr (a, b)
      \<and> (a = (STATUS_SUCCESS, Some n) \<and> b = (STATUS_SUCCESS, Some (n, bs)) \<and> conversed V [] (?w @ ?r) s s')) s"
    by (rule wp_both, rule wp_mono [OF w], elim conjE) (auto intro: wp_mono [OF r])
  then show ?thesis by (rule wp_mono) auto
qed

text \<open>
  C1: what is written to the mounted drive is what is read back from it. For a file open for
  reading and writing whose handle the device has open on a regular file, a write through the
  drive of any data followed by a read of the same region returns exactly that data, and the
  file on the device then holds it over its old content, for every way the two sockets split
  the bytes and every short read and write of the device.
\<close>

theorem drive_file_roundtrip:
  fixes V :: "'s sock_view" and V' :: "'t sock_view"
  assumes "win_socket (winsock env) V" and "unix_socket net V'" and "posix_os os dir_left"
    and "regular_file os (sint (fc_handle ctx)) view"
    and "fc_read_access ctx" and "fc_write_access ctx" and "fc_handle ctx \<noteq> NO_HANDLE"
    and "0 \<le> sint off" and "bs \<noteq> []" and "length bs < 2 ^ 31"
  shows "\<exists>sent reply. \<forall>(s :: 's callback) (d :: ('t, 'w) ClientHandler) c pos.
    linked V s V' d sent reply \<longrightarrow> Context (file_info s) = Some ctx \<longrightarrow> view (world d) = Some (c, pos) \<longrightarrow>
      wp (both (write_file env bs (word_of_nat (length bs)) off) (read_file env (word_of_nat (length bs)) off))
        (\<lambda>r s'. r = Inr ((STATUS_SUCCESS, Some (word_of_nat (length bs))), (STATUS_SUCCESS, Some (word_of_nat (length bs), bs)))
           \<and> conversed V [] sent s s') s
      \<and> wp (handle_messages net os) (\<lambda>r d'. r = Inr () \<and> outgoing V' (socket d') = outgoing V' (socket d) @ reply
           \<and> (\<exists>pos'. view (world d') = Some (overlay c (nat (sint off)) bs, pos'))) d"
proof -
  let ?n = "word_of_nat (length bs) :: u32"
  let ?sent = "request_bytes (ReqWrite (fc_handle ctx) off bs)
    @ request_bytes (ReqRead \<lparr>rh_handle = fc_handle ctx, rh_data_len = ?n, rh_offset = off\<rparr>)"
  let ?reply = "response_bytes (RespStatus Success) @ response_bytes (RespData bs)"
  have "wp (handle_messages net os) (\<lambda>r d'. r = Inr () \<and> outgoing V' (socket d') = outgoing V' (socket d) @ ?reply
           \<and> (\<exists>pos'. view (world d') = Some (overlay c (nat (sint off)) bs, pos'))) d"
    if "linked V s V' d ?sent reply" "view (world d) = Some (c, pos)"
    for s :: "'s callback" and d :: "('t, 'w) ClientHandler" and c pos reply
    using that daemon_file_roundtrip [OF assms(2-4) that(2) assms(8-10)] by (simp add: linked_def)
  with drive_write_then_read [OF assms(1,5-7,10) _ _ refl] show ?thesis
    by (intro exI [of _ ?sent] exI [of _ ?reply]) (auto simp: linked_def)
qed

theorem drive_file_roundtrip_witness:
  "\<exists>sent reply. \<forall>s d. linked scripted_view s scripted_view d sent reply \<longrightarrow>
      Context (file_info s) = Some \<lparr>fc_handle = 0, fc_read_access = True, fc_write_access = True\<rparr> \<longrightarrow>
      rf_view 0 (world d) = Some ([1, 2, 3, 4, 5], 0) \<longrightarrow>
        wp (both (write_file ex_env [7, 8, 9, 10] 4 3) (read_file ex_env 4 3))
          (\<lambda>r s'. r = Inr ((STATUS_SUCCESS, Some 4), (STATUS_SUCCESS, Some (4, [7, 8, 9, 10])))
             \<and> conversed scripted_view [] sent s s') s
        \<and> wp (handle_messages scripted_api ram_os) (\<lambda>r d'. r = Inr () \<and> sk_out (socket d') = sk_out (socket d) @ reply
             \<and> (\<exists>pos'. rf_view 0 (world d') = Some ([1, 2, 3, 7, 8, 9, 10], pos'))) d"
proof -
  let ?ctx = "\<lparr>fc_handle = 0, fc_read_access = True, fc_write_access = True\<rparr>"
  have ov: "overlay [1, 2, 3, 4, 5] 3 [7, 8, 9, 10] = [1, 2, 3, 7, 8, 9, 10::u8]" by code_simp
  have "fc_handle ?ctx \<noteq> NO_HANDLE" by (simp add: NO_HANDLE_def)
  from drive_file_roundtrip [OF ex_win scripted_unix.unix_socket_axioms ram_posix_os
      ram_file.regular_file_axioms [of "sint (fc_handle ?ctx)"] _ _ this, of 3 "[7, 8, 9, 10]"]
  obtain sent reply where "\<forall>s d. linked scripted_view s scripted_view d sent reply \<longrightarrow> Context (file_info s) = Some ?ctx \<longrightarrow>
      (\<forall>c. (\<exists>pos. rf_view 0 (world d) = Some (c, pos)) \<longrightarrow>
        wp (both (write_file ex_env [7, 8, 9, 10] 4 3) (read_file ex_env 4 3))
          (\<lambda>r s'. r = Inr ((STATUS_SUCCESS, Some 4), (STATUS_SUCCESS, Some (4, [7, 8, 9, 10])))
             \<and> conversed scripted_view [] sent s s') s
        \<and> wp (handle_messages scripted_api ram_os) (\<lambda>r d'. r = Inr () \<and> sk_out (socket d') = sk_out (socket d) @ reply
             \<and> (\<exists>pos'. rf_view 0 (world d') = Some (overlay c 3 [7, 8, 9, 10], pos'))) d)"
    by auto
  then show ?thesis
    unfolding ov [symmetric] by blast
qed

section \<open>Listings\<close>

text \<open>The answer of the device to a listing, entry by entry.\<close>

definition dir_entries :: "('w, 'd) posix \<Rightarrow> string \<Rightarrow> string list \<Rightarrow> 'w \<Rightarrow> (string \<times> ResponseStatus \<times> FileStat) list" where
  "dir_entries os p names w = map (\<lambda>name. (name, stat_file os (get_full_path p name) w)) names"

lemma names_short:
  assumes "posix_os os dir_left" and "dir_stream os remaining"
  shows "list_all (\<lambda>name. length name \<le> 255) (remaining dir w)"
proof (induction "remaining dir w" arbitrary: w)
  case (Cons name names)
  obtain cur w1 where rd: "sys_readdir os dir w = (cur, w1)" by fastforce
  with dir_stream.readdir_some [OF assms(2) Cons(2) [symmetric]] have "cur = Some name" "remaining dir w1 = names" by simp_all
  with Cons(1) [of w1] posix_os.readdir_law [OF assms(1)] rd Cons(2) [symmetric] show ?case by auto
qed simp

lemma entry_ok_stat:
  "length name \<le> 65535 \<Longrightarrow> from_utf8 env name \<noteq> None \<Longrightarrow> entry_ok env (name, stat_file os q w)"
  using stat_file_status [of os q w] by (cases "stat_file os q w") auto

lemma dir_entries_ok:
  assumes "list_all (\<lambda>name. length name \<le> 255) names" and "list_all (\<lambda>name. from_utf8 env name \<noteq> None) names"
  shows "list_all (entry_ok env) (dir_entries os p names w)"
  using assms by (fastforce simp: list_all_iff dir_entries_def intro!: entry_ok_stat)

lemma find_data_calls:
  assumes "list_all (\<lambda>(name, st). length (win_name env name) < MAX_PATH) es"
  shows "those (map find_data_of (calls_of env es)) = Some (map (\<lambda>(name, st). (file_data_of st, win_name env name)) es)"
  using assms by (induction es) (auto simp: calls_of_def find_data_of_def)

lemma shown_names: "list_all P names \<Longrightarrow> list_all (\<lambda>(name, st). P name) (shown (dir_entries os p names w))"
  by (auto simp: shown_def dir_entries_def list_all_iff)

lemma wp_find_files:
  fixes s :: "'s callback"
  assumes "win_socket (winsock env) V" and "connection s = Some c" and "ep_ok V c"
    and "p = win32_path_to_unix (to_utf8 env) path" and "length p \<le> 65535"
    and "fst (get_cached (steady_clock env (clock_reads c)) p (dir_list_cache c)) = None"
    and "in_of V c = response_bytes (RespListing es) @ rest" and "list_all (entry_ok env) es"
    and "list_all (\<lambda>(name, st). length (win_name env name) < MAX_PATH) (shown es)"
  shows "wp (find_files env path) (\<lambda>r s'. r = Inr (STATUS_SUCCESS, map (\<lambda>(name, st). (file_data_of st, win_name env name)) (shown es))
     \<and> conversed V rest (request_bytes (ReqList p)) s s') s"
proof -
  have m: "mounted_on V (response_bytes (RespListing es) @ rest) s" using assms(2,3,7) by (simp add: mounted_on_def)
  show ?thesis
    unfolding find_files_def
    by (rule wp_callback [OF m], rule wp_exchange_step
          [OF client.req_list_file_stats_spec(1) [OF client.intro [OF assms(1)] assms(4,5,6,3,7,8)] assms(2)])
       (auto simp: find_data_calls [OF assms(9)] conversed_def assms(2) dest: io_step_conn)
qed

text \<open>
  C6: the listing of a directory of the drive is the directory of the device. When the
  listing is not cached and the device can open the directory, Dokan is given one entry for
  every name of the directory whose stat succeeds, in the order of the directory stream, with
  the size, attributes and times of that stat and the name in Windows form.
\<close>

theorem drive_lists_directory:
  fixes V :: "'s sock_view" and V' :: "'t sock_view"
  assumes "win_socket (winsock env) V" and "unix_socket net V'" and "posix_os os dir_left" and "dir_stream os remaining"
    and "p = win32_path_to_unix (to_utf8 env) path" and "length p \<le> 65535"
    and "sys_opendir os (c_str p) w = (Inr dir, w1)"
    and "list_all (\<lambda>name. from_utf8 env name \<noteq> None \<and> length (win_name env name) < MAX_PATH) (remaining dir w1)"
  shows "\<exists>sent reply. \<forall>(s :: 's callback) (d :: ('t, 'w) ClientHandler) c.
    linked V s V' d sent reply \<longrightarrow> world d = w \<longrightarrow> connection s = Some c \<longrightarrow>
    fst (get_cached (steady_clock env (clock_reads c)) p (dir_list_cache c)) = None \<longrightarrow>
      wp (find_files env path) (\<lambda>r s'. r = Inr (STATUS_SUCCESS,
           map (\<lambda>(name, st). (file_data_of st, win_name env name)) (shown (dir_entries os p (remaining dir w1) w1)))
         \<and> conversed V [] sent s s') s
      \<and> wp (handle_messages net os) (\<lambda>r d'. r = Inr () \<and> outgoing V' (socket d') = outgoing V' (socket d) @ reply) d"
proof -
  let ?es = "dir_entries os p (remaining dir w1) w1"
  from dir_stream.respond_list [OF assms(4,7)] obtain w2 where
    "respond_all os [ReqList p] w = Some ([RespListing ?es], w2)" by (auto simp: dir_entries_def)
  moreover have sync: "all_in_sync os [ReqList p] w" by (auto split: option.split)
  ultimately have "wp (handle_messages net os) (\<lambda>r d'. r = Inr () \<and> outgoing V' (socket d') = outgoing V' (socket d)
          @ response_bytes (RespListing ?es)) d"
    if "linked V s V' d (request_bytes (ReqList p)) reply" "world d = w"
    for s :: "'s callback" and d :: "('t, 'w) ClientHandler" and reply
    using daemon.session [OF daemonI [OF assms(2,3)], of d "[ReqList p]" "[RespListing ?es]" w2] that assms(6)
    by (auto simp: linked_def simp del: response_bytes.simps respond_all.simps all_in_sync.simps elim!: wp_mono)
  moreover have ok: "list_all (entry_ok env) ?es" "list_all (\<lambda>(name, st). length (win_name env name) < MAX_PATH) (shown ?es)"
    by (rule dir_entries_ok [OF names_short [OF assms(3,4)]], use assms(8) in \<open>simp add: list_all_iff\<close>)
       (rule shown_names, use assms(8) in \<open>simp add: list_all_iff\<close>)
  ultimately show ?thesis
    using wp_find_files [OF assms(1) _ _ assms(5,6), where rest = "[]", OF _ _ _ _ ok]
    by (intro exI [of _ "request_bytes (ReqList p)"] exI [of _ "response_bytes (RespListing ?es)"])
       (auto simp: linked_def mounted_on_def)
qed

theorem drive_lists_directory_witness:
  "\<exists>sent reply. \<forall>s d c. linked scripted_view s scripted_view d sent reply \<longrightarrow> world d = ex_world \<longrightarrow> connection s = Some c \<longrightarrow>
    fst (get_cached (steady_clock ex_env (clock_reads c)) ''/mnt/sdcard'' (dir_list_cache c)) = None \<longrightarrow>
      wp (find_files ex_env (ascii ''/mnt/sdcard'')) (\<lambda>r s'. r = Inr (STATUS_SUCCESS, [(file_data_of
           \<lparr>fs_mode = 33200, fs_size = 5, fs_access_time = 0, fs_write_time = 0\<rparr>, ascii ''a'')])
         \<and> conversed scripted_view [] sent s s') s
      \<and> wp (handle_messages scripted_api ram_os) (\<lambda>r d'. r = Inr () \<and> sk_out (socket d') = sk_out (socket d) @ reply) d"
proof -
  let ?w1 = "ex_world\<lparr>rf_dirs := [[''a'']]\<rparr>"
  have p: "''/mnt/sdcard'' = win32_path_to_unix (to_utf8 ex_env) (ascii ''/mnt/sdcard'')" by code_simp
  have od: "sys_opendir ram_os (c_str ''/mnt/sdcard'') ex_world = (Inr 0, ?w1)" by code_simp
  have names: "list_all (\<lambda>name. from_utf8 ex_env name \<noteq> None \<and> length (win_name ex_env name) < MAX_PATH) (rf_remaining 0 ?w1)"
    by code_simp
  have es: "map (\<lambda>(name, st). (file_data_of st, win_name ex_env name)) (shown (dir_entries ram_os ''/mnt/sdcard'' (rf_remaining 0 ?w1) ?w1))
      = [(file_data_of \<lparr>fs_mode = 33200, fs_size = 5, fs_access_time = 0, fs_write_time = 0\<rparr>, ascii ''a'')]"
    by code_simp
  from drive_lists_directory [OF ex_win scripted_unix.unix_socket_axioms ram_posix_os ram_dir.dir_stream_axioms p _ od names]
  show ?thesis unfolding es by simp
qed

section \<open>Starting up\<close>

lemma split_lines_printed:
  assumes "\<And>l. l \<in> set ls \<Longrightarrow> newline \<notin> set l"
  shows "split_lines (concat (map (\<lambda>l. l @ [newline]) ls)) = (ls, [])"
  using assms by (induction ls) (simp_all add: split_lines_line)

definition text_of :: "string list \<Rightarrow> string" where
  "text_of lines = concat (map (\<lambda>line. line @ [newline]) lines)"

lemma announces_after_ready_lines: "announces_ready (text_of (ready_lines @ lines) @ later)"
proof -
  have "newline \<notin> set l" if "l \<in> set ready_lines" for l using that by (auto simp: ready_lines_def AGENT_READY_MSG_def)
  then have "split_lines (text_of ready_lines) = (ready_lines, [])"
    unfolding text_of_def by (rule split_lines_printed)
  then have "set ready_lines \<subseteq> set (fst (split_lines (text_of (ready_lines @ lines) @ later)))"
    using split_lines_append [of "text_of ready_lines" "text_of lines @ later"] by (simp add: text_of_def)
  moreover have "AGENT_READY_MSG \<in> set ready_lines" by (simp add: ready_lines_def)
  ultimately show ?thesis unfolding announces_ready_def by (intro bexI [of _ AGENT_READY_MSG]) (auto simp: starts_with_def)
qed

text \<open>
  C14: the two programs agree on how the daemon announces itself, so that they do not wait for each other. The computer connects exactly when the lines
  that the daemon has printed so far, cut into any pieces on their way through adb, have made its object for the device
  mark the daemon as ready; until then accepting waits. With that client the daemon accepts, serves the session as
  specified and ends; and what it has printed by then keeps the computer's mark, however it is cut and whatever text follows it.
\<close>

theorem daemon_ready_reaches_computer:
  fixes x :: u32
  assumes "unix_socket net V" and "posix_os os dir_left"
    and "open_server api w = (sock, w1)" and "sock \<noteq> -1"
    and "bind_server api sock AGENT_PORT w1 = (b, w2)" and "listen_server api sock w2 = (l, w3)"
    and "Nandroid_new u serial port = Inr n" and "\<And>text. concat (pipe text) = text"
    and "\<And>lines. accept_client api sock lines w3 =
      (if agent_ready (fold handle_daemon_output (pipe (text_of lines)) n) then Some (Inr t, w4) else None)"
    and "usable V t" and "incoming V t = be_bytes 4 x @ concat (map request_bytes reqs)"
    and "list_all valid_request reqs" and "all_in_sync os reqs w4"
  shows "\<exists>resps w'. respond_all os reqs w4 = Some (resps, w')
    \<and> wp (daemon_main net os api) (\<lambda>r p. r = Inr ()
        \<and> (\<exists>t'. client p = Some t' \<and> outgoing V t' = outgoing V t @ be_bytes 4 x @ concat (map response_bytes resps))
        \<and> (\<forall>pieces later. concat pieces = text_of (printed p) @ later \<longrightarrow> agent_ready (fold handle_daemon_output pieces n))) (daemon_start w)"
proof -
  obtain resps w' where resp: "respond_all os reqs w4 = Some (resps, w')"
    using daemon.respond_all_total [OF daemonI [OF assms(1,2)], of reqs w4] by blast
  have ready: "agent_ready (fold handle_daemon_output pieces n)" if "concat pieces = text_of (ready_lines @ lines) @ later" for pieces lines later
    using ready_after_output [of n pieces] Nandroid_new_fields [OF assms(7)] announces_after_ready_lines [of lines later] that
    by (simp add: ready_flags_def)
  from ready [of "pipe (text_of ready_lines)" "[]" "[]"] have accept: "accept_client api sock ready_lines w3 = Some (Inr t, w4)"
    by (simp add: assms(8,9))
  have "wp (daemon_main net os api) (\<lambda>r p. r = Inr ()
        \<and> (\<exists>t'. client p = Some t' \<and> outgoing V t' = outgoing V t @ be_bytes 4 x @ concat (map response_bytes resps))
        \<and> (\<forall>pieces later. concat pieces = text_of (printed p) @ later \<longrightarrow> agent_ready (fold handle_daemon_output pieces n))) (daemon_start w)"
    by (rule wp_mono [OF daemon_main_session [OF assms(1-6) accept assms(10-13) resp]]) (use ready in \<open>auto simp: served_lines_def\<close>)
  with resp show ?thesis by blast
qed

text \<open>A server whose only client is a computer that waits for the ready line.\<close>

definition ex_waiting_server :: "(sock, 'w) server_api" where
  "ex_waiting_server = (ex_server ex_session)\<lparr>accept_client := (\<lambda>sock lines w.
     if agent_ready (fold handle_daemon_output [text_of lines] ex_device) then Some (Inr (ex_sock ex_session), w) else None)\<rparr>"

theorem daemon_ready_reaches_computer_witness:
  "wp (daemon_main scripted_api ram_os ex_waiting_server) (\<lambda>r p. r = Inr ()
      \<and> (\<forall>pieces later. concat pieces = text_of (printed p) @ later \<longrightarrow> agent_ready (fold handle_daemon_output pieces ex_device))) (daemon_start ex_world)"
proof -
  have calls: "open_server ex_waiting_server ex_world = (3, ex_world)" "bind_server ex_waiting_server 3 AGENT_PORT ex_world = (-1, ex_world)"
    "listen_server ex_waiting_server 3 ex_world = (-1, ex_world)"
    by (simp_all add: ex_waiting_server_def ex_server_def)
  have "accept_client ex_waiting_server 3 lines ex_world = (if agent_ready (fold handle_daemon_output ((\<lambda>text. [text]) (text_of lines)) ex_device)
      then Some (Inr (ex_sock ex_session), ex_world) else None)" for lines
    by (simp add: ex_waiting_server_def)
  from daemon_ready_reaches_computer [OF scripted_unix.unix_socket_axioms ram_posix_os calls(1) _ calls(2,3) ex_device_new _ this ex_session_ok]
  show ?thesis by (auto elim!: wp_mono)
qed

end
